theory Spec2Isabelle
  imports Main
begin

section \<open>JavaScript values\<close>

text \<open>
  The values that flow through \<^verbatim>\<open>main\<close> of \<^verbatim>\<open>src/local.js\<close>. An object is the list of
  its own enumerable properties in insertion order; a property whose value is
  \<^verbatim>\<open>undefined\<close> is still a property (\<open>(k, Undefined)\<close> is in the list), which is what
  distinguishes a key that was assigned \<^verbatim>\<open>undefined\<close> from a key that is absent.
  Values are trees: there is no sharing and there are no cycles. A function value is
  opaque and carries a name only. Arrays and functions carry no named properties here.
  The position that JavaScript gives integer-like keys in an enumeration is not modelled.
\<close>

datatype jsval =
    Undefined
  | Null
  | JBool bool
  | JNum int
  | JStr string
  | JFun string
  | JArr "jsval list"
  | JObj "(string \<times> jsval) list"

type_synonym obj = "(string \<times> jsval) list"

datatype js_error =
    TypeError string
  | ENOENT string
  | HandlebarsException string

text \<open>The truthiness test of \<^verbatim>\<open>if (v)\<close> and \<^verbatim>\<open>v || w\<close>.\<close>

fun truthy :: "jsval \<Rightarrow> bool" where
  "truthy Undefined = False"
| "truthy Null = False"
| "truthy (JBool b) = b"
| "truthy (JNum n) = (n \<noteq> 0)"
| "truthy (JStr s) = (s \<noteq> [])"
| "truthy (JFun f) = True"
| "truthy (JArr xs) = True"
| "truthy (JObj kvs) = True"

definition js_or :: "jsval \<Rightarrow> jsval \<Rightarrow> jsval" where
  "js_or v w = (if truthy v then v else w)"

text \<open>\<^verbatim>\<open>o[k]\<close> on an object's property list; \<^verbatim>\<open>o[k] = v\<close> keeps the position of a key that
  is already there and appends a new one; \<^verbatim>\<open>delete o[k]\<close>.\<close>

definition obj_get :: "obj \<Rightarrow> string \<Rightarrow> jsval" where
  "obj_get kvs k = (case map_of kvs k of None \<Rightarrow> Undefined | Some v \<Rightarrow> v)"

fun obj_set :: "obj \<Rightarrow> string \<Rightarrow> jsval \<Rightarrow> obj" where
  "obj_set [] k v = [(k, v)]"
| "obj_set (p # ps) k v = (if fst p = k then (k, v) # ps else p # obj_set ps k v)"

definition obj_delete :: "obj \<Rightarrow> string \<Rightarrow> obj" where
  "obj_delete kvs k = filter (\<lambda>p. fst p \<noteq> k) kvs"


text \<open>Writing a property (the file is in strict mode): on \<^verbatim>\<open>undefined\<close>, \<^verbatim>\<open>null\<close> and
  primitives the assignment throws a TypeError. The values written to in \<^verbatim>\<open>main\<close> are the
  model and nothing else; an array or a function as the model, which JavaScript would
  take a property on, has no place for one here and is treated like a primitive, so the
  statements below about the written value are for models that are objects proper or not
  objects at all.\<close>

fun set_prop :: "jsval \<Rightarrow> string \<Rightarrow> jsval \<Rightarrow> js_error + jsval" where
  "set_prop (JObj kvs) k v = Inr (JObj (obj_set kvs k v))"
| "set_prop u k v = Inl (TypeError (''Cannot set property '' @ k))"

text \<open>Decimal digits of an index, for the keys of arrays and strings.\<close>

definition digit_char :: "nat \<Rightarrow> char" where
  "digit_char d =
     (if d = 0 then CHR ''0'' else if d = 1 then CHR ''1'' else if d = 2 then CHR ''2''
      else if d = 3 then CHR ''3'' else if d = 4 then CHR ''4'' else if d = 5 then CHR ''5''
      else if d = 6 then CHR ''6'' else if d = 7 then CHR ''7'' else if d = 8 then CHR ''8''
      else CHR ''9'')"

function show_nat :: "nat \<Rightarrow> string" where
  "show_nat n = (if n < 10 then [digit_char n] else show_nat (n div 10) @ [digit_char (n mod 10)])"
  by pat_completeness auto
termination
  by (relation "measure id") auto

declare show_nat.simps [simp del]

text \<open>The own enumerable properties that \<^verbatim>\<open>Object.assign\<close>, \<^verbatim>\<open>Object.keys\<close> and
  \<^verbatim>\<open>for (k in v)\<close> see: none for \<^verbatim>\<open>undefined\<close>, \<^verbatim>\<open>null\<close>, booleans, numbers and
  functions, the indices for arrays and strings.\<close>

fun own_props :: "jsval \<Rightarrow> obj" where
  "own_props (JObj kvs) = kvs"
| "own_props (JArr xs) = zip (map show_nat [0..<length xs]) xs"
| "own_props (JStr s) = zip (map show_nat [0..<length s]) (map (\<lambda>c. JStr [c]) s)"
| "own_props v = []"

text \<open>Reading a property of any value: \<^verbatim>\<open>undefined.x\<close> and \<^verbatim>\<open>null.x\<close> throw a TypeError,
  any other value without that own property gives \<^verbatim>\<open>undefined\<close> (inherited members such as
  \<^verbatim>\<open>length\<close> are not modelled).\<close>

fun get_prop :: "jsval \<Rightarrow> string \<Rightarrow> js_error + jsval" where
  "get_prop Undefined k = Inl (TypeError (''Cannot read property '' @ k @ '' of undefined''))"
| "get_prop Null k = Inl (TypeError (''Cannot read property '' @ k @ '' of null''))"
| "get_prop v k = Inr (obj_get (own_props v) k)"

text \<open>\<^verbatim>\<open>delete v[k]\<close>.\<close>

fun delete_prop :: "jsval \<Rightarrow> string \<Rightarrow> js_error + jsval" where
  "delete_prop Undefined k = Inl (TypeError (''Cannot convert undefined or null to object''))"
| "delete_prop Null k = Inl (TypeError (''Cannot convert undefined or null to object''))"
| "delete_prop (JObj kvs) k = Inr (JObj (obj_delete kvs k))"
| "delete_prop v k = Inr v"

text \<open>\<^verbatim>\<open>Object.assign(target, s1, ..., sn)\<close>: the sources are copied left to right; for each
  own key of a source, in order, its value is read from the source and written to the
  target with an ordinary property write.\<close>

definition assign_one :: "obj \<Rightarrow> jsval \<Rightarrow> obj" where
  "assign_one target src =
     foldl (\<lambda>t k. obj_set t k (obj_get (own_props src) k)) target (map fst (own_props src))"

definition object_assign :: "obj \<Rightarrow> jsval list \<Rightarrow> obj" where
  "object_assign target srcs = foldl assign_one target srcs"

text \<open>\<^verbatim>\<open>circularClone\<close> of reftools copies an object property by property, recursively,
  returns primitives and functions as they are, and follows each cycle once. On the
  tree-shaped values of this model it is the structural copy below.\<close>

primrec clone :: "jsval \<Rightarrow> jsval" where
  "clone Undefined = Undefined"
| "clone Null = Null"
| "clone (JBool b) = JBool b"
| "clone (JNum n) = JNum n"
| "clone (JStr s) = JStr s"
| "clone (JFun f) = JFun f"
| "clone (JArr xs) = JArr (map clone xs)"
| "clone (JObj kvs) = JObj (map (map_prod id clone) kvs)"

text \<open>What \<^verbatim>\<open>for (x of v)\<close> iterates: the elements of an array, the characters of a
  string; anything else is not iterable.\<close>

fun iter :: "jsval \<Rightarrow> js_error + jsval list" where
  "iter (JArr xs) = Inr xs"
| "iter (JStr s) = Inr (map (\<lambda>c. JStr [c]) s)"
| "iter v = Inl (TypeError ''value is not iterable'')"

section \<open>Strings\<close>

text \<open>\<^verbatim>\<open>s.split(c)\<close> for a one-character separator: \<open>n\<close> separators give \<open>n + 1\<close> pieces,
  empty pieces included.\<close>

fun split_on :: "char \<Rightarrow> string \<Rightarrow> string list" where
  "split_on c [] = [[]]"
| "split_on c (x # xs) =
     (if x = c then [] # split_on c xs
      else (case split_on c xs of [] \<Rightarrow> [[x]] | p # ps \<Rightarrow> (x # p) # ps))"

text \<open>\<^verbatim>\<open>s.trim()\<close> over the ASCII white space: tab, line feed, vertical tab, form feed,
  carriage return and space.\<close>

definition is_space :: "char \<Rightarrow> bool" where
  "is_space c = (c \<in> set [CHR 0x09, CHR 0x0A, CHR 0x0B, CHR 0x0C, CHR 0x0D, CHR '' ''])"

definition trim :: "string \<Rightarrow> string" where
  "trim s = rev (dropWhile is_space (rev (dropWhile is_space s)))"

text \<open>\<^verbatim>\<open>xs.join(',')\<close>, which is how an array of strings is turned into a string by \<^verbatim>\<open>+\<close>.\<close>

fun join_commas :: "string list \<Rightarrow> string" where
  "join_commas [] = []"
| "join_commas [x] = x"
| "join_commas (x # y # ys) = x @ '','' @ join_commas (y # ys)"

section \<open>The configuration, the collaborators and the state of a run\<close>

text \<open>
  The configuration object with the types the engine expects of it. An absent optional
  field is \<open>None\<close> (or \<open>Undefined\<close> where the code only tests truthiness); an absent
  \<^verbatim>\<open>partials\<close> or \<^verbatim>\<open>transformations\<close> is the empty list, over which \<^verbatim>\<open>for ... in\<close> does
  not iterate either.
\<close>

record transformation =
  tx_input :: "string option"
  tx_output :: string
  tx_template :: "string option"

record fanout =
  fo_input :: string
  fo_output :: string
  fo_defaults :: jsval

record config =
  outputDir :: "string option"
  templateDir :: "string option"
  defaults :: obj
  generator :: jsval
  partials :: "(string \<times> string) list"
  directories :: "string list option"
  transformations :: "transformation list"
  touch :: "string option"
  apache :: jsval
  perApi :: "fanout list option"
  perPath :: "fanout list option"
  perModel :: "fanout list option"
  perOperation :: "fanout list option"

text \<open>
  What \<^verbatim>\<open>local.js\<close> requires and does not define, taken as parameters:
  \<^item> \<open>path_join\<close>, \<open>path_dirname\<close>: \<^verbatim>\<open>path.join\<close> and \<^verbatim>\<open>path.dirname\<close>;
  \<^item> \<open>module_dirname\<close>: \<^verbatim>\<open>__dirname\<close>;
  \<^item> \<open>lambdas\<close>: the exports of \<^verbatim>\<open>./lambdas.js\<close>;
  \<^item> \<open>adaptor_transform\<close>: \<^verbatim>\<open>adaptor.transform(generator, o, defaults, cb)\<close>, given as the
    pair \<open>(err, model)\<close> that it hands to \<open>cb\<close>, which it is taken to call once and
    without changing its arguments;
  \<^item> \<open>hb_render\<close>: the string a compiled Handlebars template returns for a context, under
    the helpers and partials registered so far, or the exception it throws;
  \<^item> \<open>rimraf_hits\<close>: \<open>rimraf_hits pattern p\<close> says that \<^verbatim>\<open>rimraf(pattern)\<close> removes the
    entry at path \<open>p\<close>;
  \<^item> \<open>js_call\<close>: the result of calling an opaque function value;
  \<^item> \<open>js_string\<close>: the string that \<^verbatim>\<open>'...' + v\<close> appends for a value \<open>v\<close>.
\<close>

record env =
  path_join :: "string list \<Rightarrow> string"
  path_dirname :: "string \<Rightarrow> string"
  module_dirname :: string
  lambdas :: obj
  adaptor_transform :: "jsval \<Rightarrow> jsval \<Rightarrow> obj \<Rightarrow> jsval \<times> jsval"
  hb_render :: "obj \<Rightarrow> (string \<times> string) list \<Rightarrow> string \<Rightarrow> jsval \<Rightarrow> js_error + string"
  rimraf_hits :: "string \<Rightarrow> string \<Rightarrow> bool"
  js_call :: "string \<Rightarrow> jsval list \<Rightarrow> js_error + jsval"
  js_string :: "jsval \<Rightarrow> string"

text \<open>
  Everything a run reads and writes: the configuration object (the caller's, which the
  run assigns to), the model variable of the transform callback (\<^verbatim>\<open>outer\<close> is the same
  object), the file system behind \<^verbatim>\<open>ff\<close> and \<^verbatim>\<open>fs\<close>, the helpers and partials registered
  with Handlebars, and the console. Two fields record what the run did: \<open>written\<close> lists
  the calls of \<^verbatim>\<open>ff.createFile\<close> (path and content) in order, \<open>callbacks\<close> the calls of the
  completion callback (its two arguments).
\<close>

record world =
  cfg :: config
  model :: jsval
  files :: "string \<rightharpoonup> string"
  dirs :: "string set"
  helpers :: obj
  reg_partials :: "(string \<times> string) list"
  console :: "string list"
  written :: "(string \<times> string) list"
  callbacks :: "(jsval \<times> jsval) list"

section \<open>Programs: state and exceptions\<close>

text \<open>A statement of the source is a function from the state to a result and the state
  it leaves; the result is \<open>Inl e\<close> when the statement threw \<open>e\<close>. Nothing in \<^verbatim>\<open>local.js\<close>
  catches an exception, so a throw ends the run with the state as it was then.\<close>

type_synonym 'a prog = "world \<Rightarrow> (js_error + 'a) \<times> world"

definition ret :: "'a \<Rightarrow> 'a prog" where
  "ret x = (\<lambda>w. (Inr x, w))"

definition throw :: "js_error \<Rightarrow> 'a prog" where
  "throw e = (\<lambda>w. (Inl e, w))"

definition bind :: "'a prog \<Rightarrow> ('a \<Rightarrow> 'b prog) \<Rightarrow> 'b prog" where
  "bind m f = (\<lambda>w. case m w of (Inl e, w') \<Rightarrow> (Inl e, w') | (Inr x, w') \<Rightarrow> f x w')"

definition seq :: "unit prog \<Rightarrow> 'a prog \<Rightarrow> 'a prog" where
  "seq m n = bind m (\<lambda>u. n)"

definition lift :: "js_error + 'a \<Rightarrow> 'a prog" where
  "lift r = (case r of Inl e \<Rightarrow> throw e | Inr x \<Rightarrow> ret x)"

definition gets :: "(world \<Rightarrow> 'a) \<Rightarrow> 'a prog" where
  "gets f = (\<lambda>w. (Inr (f w), w))"

definition modify :: "(world \<Rightarrow> world) \<Rightarrow> unit prog" where
  "modify f = (\<lambda>w. (Inr (), f w))"

definition if_do :: "bool \<Rightarrow> unit prog \<Rightarrow> unit prog" where
  "if_do b m = (if b then m else ret ())"

text \<open>\<^verbatim>\<open>for (let x of xs) { ... }\<close> over the elements in order.\<close>

fun for_of :: "'a list \<Rightarrow> ('a \<Rightarrow> unit prog) \<Rightarrow> unit prog" where
  "for_of [] f = ret ()"
| "for_of (x # xs) f = seq (f x) (for_of xs f)"

section \<open>The file system and the Handlebars registry\<close>

text \<open>
  Modelled from the spec: the default backend \<^verbatim>\<open>ff\<close> (\<^verbatim>\<open>fs.readFileSync\<close>,
  \<^verbatim>\<open>fs.writeFileSync\<close>, \<^verbatim>\<open>rimraf\<close>, \<^verbatim>\<open>mkdirp\<close>) and \<^verbatim>\<open>fs.existsSync\<close> are not part of
  \<^verbatim>\<open>local.js\<close>. Reading a missing file throws; writing creates the file or replaces its
  content; \<^verbatim>\<open>mkdirp\<close> makes the directory exist; \<^verbatim>\<open>rimraf\<close> removes every file and
  directory its pattern hits; a path exists when it is a file or a directory. The
  callbacks of \<^verbatim>\<open>mkdirp\<close> and \<^verbatim>\<open>rimraf\<close> run when the operation is done, and \<^verbatim>\<open>main\<close>
  ignores the error they are given, so both are steps that do not throw.
\<close>

definition ff_readFileSync :: "string \<Rightarrow> string prog" where
  "ff_readFileSync p =
     bind (gets files) (\<lambda>fs. case fs p of None \<Rightarrow> throw (ENOENT p) | Some c \<Rightarrow> ret c)"

definition ff_createFile :: "string \<Rightarrow> string \<Rightarrow> unit prog" where
  "ff_createFile p c =
     modify (\<lambda>w. w\<lparr>files := (files w)(p \<mapsto> c), written := written w @ [(p, c)]\<rparr>)"

definition ff_mkdirp :: "string \<Rightarrow> unit prog" where
  "ff_mkdirp d = modify (\<lambda>w. w\<lparr>dirs := insert d (dirs w)\<rparr>)"

definition ff_rimraf :: "env \<Rightarrow> string \<Rightarrow> unit prog" where
  "ff_rimraf E pat =
     modify (\<lambda>w. w\<lparr>files := (\<lambda>p. if rimraf_hits E pat p then None else files w p),
                   dirs := Set.filter (\<lambda>d. \<not> rimraf_hits E pat d) (dirs w)\<rparr>)"

definition fs_existsSync :: "string \<Rightarrow> bool prog" where
  "fs_existsSync p = gets (\<lambda>w. files w p \<noteq> None \<or> p \<in> dirs w)"

definition console_log :: "string \<Rightarrow> unit prog" where
  "console_log msg = modify (\<lambda>w. w\<lparr>console := console w @ [msg]\<rparr>)"

text \<open>\<^verbatim>\<open>Handlebars.registerHelper\<close> and \<^verbatim>\<open>Handlebars.registerPartial\<close> write into the
  process-wide registry under the given name.\<close>

definition registerHelper :: "string \<Rightarrow> jsval \<Rightarrow> unit prog" where
  "registerHelper name f = modify (\<lambda>w. w\<lparr>helpers := obj_set (helpers w) name f\<rparr>)"

definition registerPartial :: "string \<Rightarrow> string \<Rightarrow> unit prog" where
  "registerPartial name src =
     modify (\<lambda>w. w\<lparr>reg_partials := (name, src) # filter (\<lambda>p. fst p \<noteq> name) (reg_partials w)\<rparr>)"

text \<open>
  \<^verbatim>\<open>Handlebars.compile(src)\<close> throws when \<open>src\<close> is \<^verbatim>\<open>undefined\<close> and otherwise returns the
  template function, which is represented by its source. Calling that function with a
  context renders the template. The function has two own members, \<^verbatim>\<open>_setup\<close> and
  \<^verbatim>\<open>_child\<close>, and no other: reading any other member of it gives \<^verbatim>\<open>undefined\<close>.
\<close>

definition hb_compile :: "string option \<Rightarrow> string prog" where
  "hb_compile src =
     (case src of
        None \<Rightarrow> throw (HandlebarsException ''You must pass a string or Handlebars AST to Handlebars.compile'')
      | Some s \<Rightarrow> ret s)"

definition call_template :: "env \<Rightarrow> string \<Rightarrow> jsval \<Rightarrow> string prog" where
  "call_template E t ctx =
     bind (gets (\<lambda>w. hb_render E (helpers w) (reg_partials w) t ctx)) lift"

definition template_member :: "string \<Rightarrow> string \<Rightarrow> jsval" where
  "template_member t k = (if k = ''_setup'' \<or> k = ''_child'' then JFun k else Undefined)"

text \<open>Calling a value: only a function can be called.\<close>

definition call_value :: "env \<Rightarrow> jsval \<Rightarrow> jsval list \<Rightarrow> jsval prog" where
  "call_value E f args =
     (case f of
        JFun n \<Rightarrow> lift (js_call E n args)
      | _ \<Rightarrow> throw (TypeError ''value is not a function''))"

section \<open>The engine: \<^verbatim>\<open>src/local.js\<close>\<close>

text \<open>\<^verbatim>\<open>s || d\<close> for an optional string, and the text \<^verbatim>\<open>'...' + s\<close> appends for it.\<close>

definition str_or :: "string option \<Rightarrow> string \<Rightarrow> string" where
  "str_or s d = (case s of None \<Rightarrow> d | Some x \<Rightarrow> if x = [] then d else x)"

definition opt_str :: "string option \<Rightarrow> string" where
  "opt_str s = (case s of None \<Rightarrow> ''undefined'' | Some x \<Rightarrow> x)"

text \<open>\<^verbatim>\<open>tpl(config, ...segments)\<close>, lines 24-30. All it reads of its first argument is
  \<^verbatim>\<open>templateDir\<close>, so that is what it is given; the call \<^verbatim>\<open>tpl({}, ...)\<close> passes \<open>None\<close>.\<close>

definition tpl :: "env \<Rightarrow> string option \<Rightarrow> string list \<Rightarrow> string" where
  "tpl E tdir segments =
     (case tdir of
        None \<Rightarrow> path_join E (module_dirname E # ''templates'' # segments)
      | Some d \<Rightarrow>
          if d = [] then path_join E (module_dirname E # ''templates'' # segments)
          else path_join E (d # drop 1 segments))"

text \<open>\<^verbatim>\<open>model[k] = v\<close> on the model variable (which \<^verbatim>\<open>outer\<close> aliases).\<close>

definition assign_model :: "string \<Rightarrow> jsval \<Rightarrow> unit prog" where
  "assign_model k v =
     bind (gets model) (\<lambda>m.
     bind (lift (set_prop m k v)) (\<lambda>m'.
     modify (\<lambda>w. w\<lparr>model := m'\<rparr>)))"

text \<open>Lines 41-45: the generator and the lambdas are attached to the model.\<close>

definition decorate :: "env \<Rightarrow> bool \<Rightarrow> jsval \<Rightarrow> unit prog" where
  "decorate E verbose gen =
     seq (assign_model ''generator'' gen)
    (seq (if_do verbose (console_log (''Processing lambdas '' @ join_commas (map fst (lambdas E)))))
    (seq (for_of (map fst (lambdas E)) (\<lambda>key. assign_model key (obj_get (lambdas E) key)))
         (if verbose
          then bind (lift (get_prop gen ''lambdas'')) (\<lambda>ls.
                 console_log (''Processing custom lambda '' @ js_string E ls))
          else ret ())))"

text \<open>Lines 47-52: the generator's own lambdas are registered as helpers.\<close>

definition register_lambdas :: "bool \<Rightarrow> jsval \<Rightarrow> unit prog" where
  "register_lambdas verbose gen =
     (if truthy gen
      then bind (lift (get_prop gen ''lambdas'')) (\<lambda>ls.
             if_do (truthy ls)
               (for_of (map fst (own_props ls)) (\<lambda>lambda.
                  seq (if_do verbose (console_log (''Processing lambda '' @ lambda)))
                      (bind (lift (get_prop ls lambda)) (registerHelper lambda)))))
      else ret ())"

text \<open>Lines 53-57: the partials are read and registered.\<close>

definition register_partials :: "env \<Rightarrow> bool \<Rightarrow> string \<Rightarrow> unit prog" where
  "register_partials E verbose configName =
     bind (gets cfg) (\<lambda>config.
     for_of (partials config) (\<lambda>pp.
       seq (if_do verbose (console_log (''Processing partial '' @ snd pp)))
           (bind (ff_readFileSync (tpl E (templateDir config) [configName, snd pp]))
                 (registerPartial (fst pp)))))"

text \<open>Lines 59-67: each transformation with an input gets its \<^verbatim>\<open>template\<close> field assigned,
  on the configuration's own object; \<^verbatim>\<open>actions\<close> collects these same objects.\<close>

definition load_action :: "env \<Rightarrow> bool \<Rightarrow> string \<Rightarrow> nat \<Rightarrow> unit prog" where
  "load_action E verbose configName t =
     bind (gets cfg) (\<lambda>config.
     (case tx_input (transformations config ! t) of
        None \<Rightarrow> ret ()
      | Some inp \<Rightarrow>
          if inp = [] then ret ()
          else seq (if_do verbose (console_log (''Processing template '' @ inp)))
                (bind (ff_readFileSync (tpl E (templateDir config) [configName, inp])) (\<lambda>src.
                 modify (\<lambda>w. w\<lparr>cfg := (cfg w)\<lparr>transformations :=
                   (transformations (cfg w))[t := (transformations (cfg w) ! t)\<lparr>tx_template := Some src\<rparr>]\<rparr>\<rparr>)))))"

definition load_actions :: "env \<Rightarrow> bool \<Rightarrow> string \<Rightarrow> transformation list prog" where
  "load_actions E verbose configName =
     bind (gets cfg) (\<lambda>config.
     seq (for_of [0..<length (transformations config)] (load_action E verbose configName))
         (gets (\<lambda>w. transformations (cfg w))))"

text \<open>Lines 74-78: the configured directories.\<close>

definition make_directories :: "env \<Rightarrow> string \<Rightarrow> string \<Rightarrow> unit prog" where
  "make_directories E outDir subDir =
     bind (gets cfg) (\<lambda>config.
     (case directories config of
        None \<Rightarrow> ret ()
      | Some ds \<Rightarrow> for_of ds (\<lambda>directory. ff_mkdirp (path_join E [outDir, subDir, directory]))))"

text \<open>Lines 79-86: the whole-output pass, one file per action, rendered against the model.\<close>

definition render_action :: "env \<Rightarrow> bool \<Rightarrow> string \<Rightarrow> string \<Rightarrow> transformation \<Rightarrow> unit prog" where
  "render_action E verbose outDir subDir action =
     bind (hb_compile (Some (tx_output action))) (\<lambda>fnTemplate.
     bind (hb_compile (tx_template action)) (\<lambda>template.
     bind (gets model) (\<lambda>m.
     bind (call_template E fnTemplate m) (\<lambda>filename.
     seq (if_do verbose (console_log
            (''Rendering '' @ filename @ '' (dynamic:'' @ opt_str (tx_input action) @ '')'')))
    (bind (call_template E template m) (\<lambda>content.
     ff_createFile (path_join E [outDir, subDir, filename]) content))))))"

text \<open>Lines 87-99: the touch list. Line 89 reads the member \<^verbatim>\<open>render\<close> of the compiled
  template and calls it; lines 90-98 split the result at line feeds after dropping the
  carriage returns, trim each line, skip the empty ones, and create the rest empty unless
  the path exists.\<close>

definition touch_lines :: "jsval \<Rightarrow> string list prog" where
  "touch_lines touchList =
     (case touchList of
        JStr s \<Rightarrow> ret (split_on (CHR 0x0A) (filter (\<lambda>c. c \<noteq> CHR 0x0D) s))
      | _ \<Rightarrow> throw (TypeError ''touchList.split is not a function''))"

definition touch_file :: "env \<Rightarrow> string \<Rightarrow> string \<Rightarrow> string \<Rightarrow> unit prog" where
  "touch_file E outDir subDir line =
     (let file = trim line in
      if file \<noteq> []
      then bind (fs_existsSync (path_join E [outDir, subDir, file])) (\<lambda>ex.
             if_do (\<not> ex) (ff_createFile (path_join E [outDir, subDir, file]) []))
      else ret ())"

definition touch_pass :: "env \<Rightarrow> string \<Rightarrow> string \<Rightarrow> unit prog" where
  "touch_pass E outDir subDir =
     bind (gets cfg) (\<lambda>config.
     (case touch config of
        None \<Rightarrow> ret ()
      | Some t \<Rightarrow>
          if t = [] then ret ()
          else bind (hb_compile (Some t)) (\<lambda>touchTmp.
               bind (gets model) (\<lambda>m.
               bind (call_value E (template_member touchTmp ''render'') [m]) (\<lambda>touchList.
               bind (touch_lines touchList) (\<lambda>lines.
               for_of lines (touch_file E outDir subDir)))))))"

text \<open>Lines 100-105: the licence file, read from the built-in template tree.\<close>

definition license_pass :: "env \<Rightarrow> string \<Rightarrow> string \<Rightarrow> unit prog" where
  "license_pass E outDir subDir =
     bind (gets cfg) (\<lambda>config.
     if truthy (apache config)
     then bind (ff_readFileSync (tpl E None [''_common'', ''LICENSE'']))
            (ff_createFile (path_join E [outDir, subDir, ''LICENSE'']))
     else bind (ff_readFileSync (tpl E None [''_common'', ''UNLICENSE'']))
            (ff_createFile (path_join E [outDir, subDir, ''LICENSE''])))"

text \<open>Lines 109-110 and 124-125: the clone of the model without \<^verbatim>\<open>apiInfo\<close>.\<close>

definition make_toplevel :: "jsval prog" where
  "make_toplevel = bind (gets model) (\<lambda>m. lift (delete_prop (clone m) ''apiInfo''))"

text \<open>\<^verbatim>\<open>model.apiInfo.apis\<close> and \<^verbatim>\<open>model.apiInfo.paths\<close>, as the list a \<^verbatim>\<open>for ... of\<close> walks.\<close>

definition apiInfo_list :: "string \<Rightarrow> jsval list prog" where
  "apiInfo_list field =
     bind (gets model) (\<lambda>m.
     bind (lift (get_prop m ''apiInfo'')) (\<lambda>ai.
     bind (lift (get_prop ai field)) (\<lambda>xs. lift (iter xs))))"

text \<open>Line 115 (and 130): the context of one item.\<close>

definition cApi :: "obj \<Rightarrow> fanout \<Rightarrow> jsval \<Rightarrow> jsval \<Rightarrow> jsval" where
  "cApi dflts pa toplevel api =
     JObj (object_assign [] [JObj dflts, js_or (fo_defaults pa) (JObj []), toplevel, api])"

text \<open>Lines 108-121: perApi.\<close>

definition perApi_item ::
  "env \<Rightarrow> bool \<Rightarrow> string \<Rightarrow> string \<Rightarrow> fanout \<Rightarrow> string \<Rightarrow> string \<Rightarrow> jsval \<Rightarrow> jsval \<Rightarrow> unit prog" where
  "perApi_item E verbose outDir subDir pa fnTemplate template toplevel api =
     bind (gets cfg) (\<lambda>config.
     let ctx = cApi (defaults config) pa toplevel api in
     bind (call_template E fnTemplate ctx) (\<lambda>filename.
     seq (if_do verbose (console_log
            (''Rendering '' @ filename @ '' (dynamic:'' @ fo_input pa @ '')'')))
    (bind (call_template E template ctx) (\<lambda>content.
     ff_createFile (path_join E [outDir, subDir, filename]) content))))"

definition perApi_spec ::
  "env \<Rightarrow> bool \<Rightarrow> string \<Rightarrow> string \<Rightarrow> string \<Rightarrow> jsval \<Rightarrow> fanout \<Rightarrow> unit prog" where
  "perApi_spec E verbose configName outDir subDir toplevel pa =
     bind (gets cfg) (\<lambda>config.
     bind (hb_compile (Some (fo_output pa))) (\<lambda>fnTemplate.
     bind (ff_readFileSync (tpl E (templateDir config) [configName, fo_input pa])) (\<lambda>src.
     bind (hb_compile (Some src)) (\<lambda>template.
     bind (apiInfo_list ''apis'') (\<lambda>apis.
     for_of apis (perApi_item E verbose outDir subDir pa fnTemplate template toplevel))))))"

definition perApi_pass :: "env \<Rightarrow> bool \<Rightarrow> string \<Rightarrow> string \<Rightarrow> string \<Rightarrow> unit prog" where
  "perApi_pass E verbose configName outDir subDir =
     bind (gets cfg) (\<lambda>config.
     (case perApi config of
        None \<Rightarrow> ret ()
      | Some specs \<Rightarrow>
          bind make_toplevel (\<lambda>toplevel.
          for_of specs (perApi_spec E verbose configName outDir subDir toplevel))))"

text \<open>Lines 123-138: perPath, which also makes the directory of each file.\<close>

definition perPath_item ::
  "env \<Rightarrow> bool \<Rightarrow> string \<Rightarrow> string \<Rightarrow> fanout \<Rightarrow> string \<Rightarrow> string \<Rightarrow> jsval \<Rightarrow> jsval \<Rightarrow> unit prog" where
  "perPath_item E verbose outDir subDir pa fnTemplate template toplevel pat =
     bind (gets cfg) (\<lambda>config.
     let ctx = cApi (defaults config) pa toplevel pat in
     bind (call_template E fnTemplate ctx) (\<lambda>filename.
     let dirname = path_dirname E filename in
     seq (if_do verbose (console_log
            (''Rendering '' @ filename @ '' (dynamic:'' @ fo_input pa @ '')'')))
    (seq (ff_mkdirp (path_join E [outDir, subDir, dirname]))
    (bind (call_template E template ctx) (\<lambda>content.
     ff_createFile (path_join E [outDir, subDir, filename]) content)))))"

definition perPath_spec ::
  "env \<Rightarrow> bool \<Rightarrow> string \<Rightarrow> string \<Rightarrow> string \<Rightarrow> jsval \<Rightarrow> fanout \<Rightarrow> unit prog" where
  "perPath_spec E verbose configName outDir subDir toplevel pa =
     bind (gets cfg) (\<lambda>config.
     bind (hb_compile (Some (fo_output pa))) (\<lambda>fnTemplate.
     bind (ff_readFileSync (tpl E (templateDir config) [configName, fo_input pa])) (\<lambda>src.
     bind (hb_compile (Some src)) (\<lambda>template.
     bind (apiInfo_list ''paths'') (\<lambda>paths.
     for_of paths (perPath_item E verbose outDir subDir pa fnTemplate template toplevel))))))"

definition perPath_pass :: "env \<Rightarrow> bool \<Rightarrow> string \<Rightarrow> string \<Rightarrow> string \<Rightarrow> unit prog" where
  "perPath_pass E verbose configName outDir subDir =
     bind (gets cfg) (\<lambda>config.
     (case perPath config of
        None \<Rightarrow> ret ()
      | Some specs \<Rightarrow>
          bind make_toplevel (\<lambda>toplevel.
          for_of specs (perPath_spec E verbose configName outDir subDir toplevel))))"

text \<open>Lines 140-154: perModel. Line 141 clones \<^verbatim>\<open>model.models\<close> once, before the specs;
  line 145 walks that clone for every spec. Line 147 builds the effective item; lines 146
  and 148 put it, alone, into \<^verbatim>\<open>outer.models\<close>; the templates are rendered against
  \<^verbatim>\<open>outer\<close>.\<close>

definition effModel :: "jsval \<Rightarrow> fanout \<Rightarrow> jsval" where
  "effModel item pm = JObj (object_assign [] [item, js_or (fo_defaults pm) (JObj [])])"

definition perModel_item ::
  "env \<Rightarrow> bool \<Rightarrow> string \<Rightarrow> string \<Rightarrow> fanout \<Rightarrow> string \<Rightarrow> string \<Rightarrow> jsval \<Rightarrow> unit prog" where
  "perModel_item E verbose outDir subDir pm fnTemplate template item =
     seq (assign_model ''models'' (JArr []))
    (seq (assign_model ''models'' (JArr [effModel item pm]))
    (bind (gets model) (\<lambda>outer.
     bind (call_template E fnTemplate outer) (\<lambda>filename.
     seq (if_do verbose (console_log
            (''Rendering '' @ filename @ '' (dynamic:'' @ fo_input pm @ '')'')))
    (bind (call_template E template outer) (\<lambda>content.
     ff_createFile (path_join E [outDir, subDir, filename]) content))))))"

definition perModel_spec ::
  "env \<Rightarrow> bool \<Rightarrow> string \<Rightarrow> string \<Rightarrow> string \<Rightarrow> jsval \<Rightarrow> fanout \<Rightarrow> unit prog" where
  "perModel_spec E verbose configName outDir subDir cModels pm =
     bind (gets cfg) (\<lambda>config.
     bind (hb_compile (Some (fo_output pm))) (\<lambda>fnTemplate.
     bind (ff_readFileSync (tpl E (templateDir config) [configName, fo_input pm])) (\<lambda>src.
     bind (hb_compile (Some src)) (\<lambda>template.
     bind (lift (iter cModels)) (\<lambda>items.
     for_of items (perModel_item E verbose outDir subDir pm fnTemplate template))))))"

definition perModel_pass :: "env \<Rightarrow> bool \<Rightarrow> string \<Rightarrow> string \<Rightarrow> string \<Rightarrow> unit prog" where
  "perModel_pass E verbose configName outDir subDir =
     bind (gets cfg) (\<lambda>config.
     (case perModel config of
        None \<Rightarrow> ret ()
      | Some specs \<Rightarrow>
          bind (gets model) (\<lambda>m.
          bind (lift (get_prop m ''models'')) (\<lambda>ms.
          let cModels = clone ms in
          for_of specs (perModel_spec E verbose configName outDir subDir cModels)))))"

text \<open>Lines 156-171: perOperation. The operations of an API are the array
  \<^verbatim>\<open>api.operations.operation\<close>; line 163-164 put the current one, alone, into
  \<^verbatim>\<open>model.operations\<close>, and the templates are rendered against \<^verbatim>\<open>outer\<close>, the same object.\<close>

definition perOperation_item ::
  "env \<Rightarrow> bool \<Rightarrow> string \<Rightarrow> string \<Rightarrow> fanout \<Rightarrow> string \<Rightarrow> string \<Rightarrow> jsval \<Rightarrow> unit prog" where
  "perOperation_item E verbose outDir subDir po fnTemplate template operation =
     seq (assign_model ''operations'' (JArr []))
    (seq (assign_model ''operations'' (JArr [operation]))
    (bind (gets model) (\<lambda>outer.
     bind (call_template E fnTemplate outer) (\<lambda>filename.
     seq (if_do verbose (console_log
            (''Rendering '' @ filename @ '' (dynamic:'' @ fo_input po @ '')'')))
    (bind (call_template E template outer) (\<lambda>content.
     ff_createFile (path_join E [outDir, subDir, filename]) content))))))"

definition perOperation_api ::
  "env \<Rightarrow> bool \<Rightarrow> string \<Rightarrow> string \<Rightarrow> string \<Rightarrow> fanout \<Rightarrow> jsval \<Rightarrow> unit prog" where
  "perOperation_api E verbose configName outDir subDir po api =
     bind (gets cfg) (\<lambda>config.
     bind (lift (get_prop api ''operations'')) (\<lambda>ops.
     let cOperations = clone ops in
     bind (hb_compile (Some (fo_output po))) (\<lambda>fnTemplate.
     bind (ff_readFileSync (tpl E (templateDir config) [configName, fo_input po])) (\<lambda>src.
     bind (hb_compile (Some src)) (\<lambda>template.
     bind (lift (get_prop cOperations ''operation'')) (\<lambda>opl.
     bind (lift (iter opl)) (\<lambda>operations.
     for_of operations (perOperation_item E verbose outDir subDir po fnTemplate template))))))))"

definition perOperation_spec ::
  "env \<Rightarrow> bool \<Rightarrow> string \<Rightarrow> string \<Rightarrow> string \<Rightarrow> fanout \<Rightarrow> unit prog" where
  "perOperation_spec E verbose configName outDir subDir po =
     bind (apiInfo_list ''apis'') (\<lambda>apis.
     for_of apis (perOperation_api E verbose configName outDir subDir po))"

definition perOperation_pass :: "env \<Rightarrow> bool \<Rightarrow> string \<Rightarrow> string \<Rightarrow> string \<Rightarrow> unit prog" where
  "perOperation_pass E verbose configName outDir subDir =
     bind (gets cfg) (\<lambda>config.
     (case perOperation config of
        None \<Rightarrow> ret ()
      | Some specs \<Rightarrow> for_of specs (perOperation_spec E verbose configName outDir subDir)))"

text \<open>Line 173: the completion callback, when one was given.\<close>

definition finish :: "bool \<Rightarrow> unit prog" where
  "finish has_callback =
     if_do has_callback (modify (\<lambda>w. w\<lparr>callbacks := callbacks w @ [(Null, JBool True)]\<rparr>))"

text \<open>Lines 108-171: the four fan-out passes, in the order of the source.\<close>

definition fan_out :: "env \<Rightarrow> bool \<Rightarrow> string \<Rightarrow> string \<Rightarrow> string \<Rightarrow> unit prog" where
  "fan_out E verbose configName outDir subDir =
     seq (perApi_pass E verbose configName outDir subDir)
    (seq (perPath_pass E verbose configName outDir subDir)
    (seq (perModel_pass E verbose configName outDir subDir)
         (perOperation_pass E verbose configName outDir subDir)))"

text \<open>Lines 74-171: the passes that run once \<^verbatim>\<open>rimraf\<close> is done, in the order of the
  source: the directories, the whole-output pass, the touch list, the licence, then the
  fan-out passes.\<close>

definition passes ::
  "env \<Rightarrow> bool \<Rightarrow> string \<Rightarrow> string \<Rightarrow> string \<Rightarrow> transformation list \<Rightarrow> unit prog" where
  "passes E verbose configName outDir subDir actions =
     seq (make_directories E outDir subDir)
    (seq (for_of actions (render_action E verbose outDir subDir))
    (seq (touch_pass E outDir subDir)
    (seq (license_pass E outDir subDir)
         (fan_out E verbose configName outDir subDir))))"

text \<open>Lines 74-173: the callback given to \<^verbatim>\<open>rimraf\<close>.\<close>

definition generate ::
  "env \<Rightarrow> bool \<Rightarrow> string \<Rightarrow> string \<Rightarrow> string \<Rightarrow> transformation list \<Rightarrow> bool \<Rightarrow> unit prog" where
  "generate E verbose configName outDir subDir actions has_callback =
     seq (passes E verbose configName outDir subDir actions) (finish has_callback)"

text \<open>Lines 41-67: the model is decorated, helpers and partials are registered and the
  templates of the transformations are loaded; the result is \<^verbatim>\<open>actions\<close>.\<close>

definition prelude ::
  "env \<Rightarrow> bool \<Rightarrow> string \<Rightarrow> jsval \<Rightarrow> jsval \<Rightarrow> transformation list prog" where
  "prelude E verbose configName gen mdl =
     seq (modify (\<lambda>w. w\<lparr>model := mdl\<rparr>))
    (seq (decorate E verbose gen)
    (seq (register_lambdas verbose gen)
    (seq (register_partials E verbose configName)
         (load_actions E verbose configName))))"

text \<open>Lines 69-73: the output subdirectory is made and then emptied; \<^verbatim>\<open>mkdirp\<close> calls its
  callback when it is done, and so does \<^verbatim>\<open>rimraf\<close>.\<close>

definition clean :: "env \<Rightarrow> bool \<Rightarrow> string \<Rightarrow> string \<Rightarrow> unit prog" where
  "clean E verbose outDir subDir =
     seq (if_do verbose (console_log ''Making/cleaning output directories''))
    (seq (ff_mkdirp (path_join E [outDir, subDir]))
         (ff_rimraf E (path_join E [outDir, subDir] @ ''/*'')))"

text \<open>Line 69: \<^verbatim>\<open>config.defaults.flat ? '' : configName\<close>.\<close>

definition subDir_of :: "config \<Rightarrow> string \<Rightarrow> string" where
  "subDir_of config configName =
     (if truthy (obj_get (defaults config) ''flat'') then [] else configName)"

text \<open>Lines 41-175: the callback given to \<^verbatim>\<open>adaptor.transform\<close>. Its first parameter, the
  transform's error, is not read anywhere.\<close>

definition on_transformed ::
  "env \<Rightarrow> bool \<Rightarrow> string \<Rightarrow> string \<Rightarrow> jsval \<Rightarrow> bool \<Rightarrow> jsval \<Rightarrow> jsval \<Rightarrow> unit prog" where
  "on_transformed E verbose configName outDir gen has_callback err mdl =
     bind (prelude E verbose configName gen mdl) (\<lambda>actions.
     bind (gets cfg) (\<lambda>config.
     let subDir = subDir_of config configName in
     seq (clean E verbose outDir subDir)
         (generate E verbose configName outDir subDir actions has_callback)))"

text \<open>Line 33: \<^verbatim>\<open>config.outputDir || './out/'\<close>. Line 34: \<^verbatim>\<open>config.defaults.verbose\<close>, which
  is only ever tested for truthiness. Line 35: \<^verbatim>\<open>config.defaults.configName = configName\<close>,
  an assignment to the caller's object. Lines 36-39: the generator handed on is \<^verbatim>\<open>config.generator\<close> when that is truthy
  and \<^verbatim>\<open>undefined\<close> otherwise.\<close>

definition outDir_of :: "config \<Rightarrow> string" where
  "outDir_of config = str_or (outputDir config) ''./out/''"

definition verbose_of :: "config \<Rightarrow> bool" where
  "verbose_of config = truthy (obj_get (defaults config) ''verbose'')"

definition set_configName :: "string \<Rightarrow> config \<Rightarrow> config" where
  "set_configName configName config =
     config\<lparr>defaults := obj_set (defaults config) ''configName'' (JStr configName)\<rparr>"

definition gen_of :: "config \<Rightarrow> jsval" where
  "gen_of config = (if truthy (generator config) then generator config else Undefined)"

text \<open>Lines 32-177: \<^verbatim>\<open>main(o, config, configName, callback)\<close>. The configuration is the
  \<open>cfg\<close> of the state the run starts in; \<open>has_callback\<close> says whether a callback was
  passed.\<close>

definition main :: "env \<Rightarrow> jsval \<Rightarrow> string \<Rightarrow> bool \<Rightarrow> unit prog" where
  "main E o_raw configName has_callback =
     bind (gets cfg) (\<lambda>config.
     let outDir = outDir_of config;
         verbose = verbose_of config
     in
     seq (modify (\<lambda>w. w\<lparr>cfg := set_configName configName (cfg w)\<rparr>))
    (bind (gets cfg) (\<lambda>config'.
     let gen = gen_of config' in
     (case adaptor_transform E gen o_raw (defaults config') of
        (err, mdl) \<Rightarrow> on_transformed E verbose configName outDir gen has_callback err mdl))))"

section \<open>The stages of a run\<close>

text \<open>Names for what \<^verbatim>\<open>main\<close> passes through: the pattern handed to \<^verbatim>\<open>rimraf\<close>, the state
  after line 35, the pair the transform hands to its callback, the result and state of
  lines 41-67, and the state when \<^verbatim>\<open>rimraf\<close> is done.\<close>

definition clean_pattern :: "env \<Rightarrow> config \<Rightarrow> string \<Rightarrow> string" where
  "clean_pattern E config configName =
     path_join E [outDir_of config, subDir_of config configName] @ ''/*''"

definition started :: "string \<Rightarrow> world \<Rightarrow> world" where
  "started configName w = w\<lparr>cfg := set_configName configName (cfg w)\<rparr>"

definition transformed :: "env \<Rightarrow> jsval \<Rightarrow> string \<Rightarrow> world \<Rightarrow> jsval \<times> jsval" where
  "transformed E o_raw configName w =
     adaptor_transform E (gen_of (cfg w)) o_raw (defaults (set_configName configName (cfg w)))"

definition after_prelude ::
  "env \<Rightarrow> jsval \<Rightarrow> string \<Rightarrow> world \<Rightarrow> (js_error + transformation list) \<times> world" where
  "after_prelude E o_raw configName w =
     prelude E (verbose_of (cfg w)) configName (gen_of (cfg w))
       (snd (transformed E o_raw configName w)) (started configName w)"

definition after_clean :: "env \<Rightarrow> jsval \<Rightarrow> string \<Rightarrow> world \<Rightarrow> world" where
  "after_clean E o_raw configName w =
     snd (clean E (verbose_of (cfg w)) (outDir_of (cfg w)) (subDir_of (cfg w) configName)
            (snd (after_prelude E o_raw configName w)))"

text \<open>Lines 101 and 104: the file the licence text is read from. \<^verbatim>\<open>tpl\<close> is called with
  \<^verbatim>\<open>{}\<close>, so the path is under the built-in template tree whatever \<^verbatim>\<open>templateDir\<close> is.\<close>

definition license_source :: "env \<Rightarrow> config \<Rightarrow> string" where
  "license_source E config =
     path_join E [module_dirname E, ''templates'', ''_common'',
                  if truthy (apache config) then ''LICENSE'' else ''UNLICENSE'']"

section \<open>The files of a fan-out pass\<close>

text \<open>\<open>rendered_as\<close>: the write \<open>pc\<close> (path and content) is what lines 149-151 and 165-167
  produce for a context: the path is the output subdirectory joined with the rendered
  output-path template, the content the rendered body template. \<open>operations_of\<close>: the
  operations of an API as line 162 walks them, \<^verbatim>\<open>api.operations.operation\<close>.
  \<open>operation_file\<close>: the write is the file of one operation, rendered against the model
  \<open>m\<close> with \<^verbatim>\<open>operations\<close> set to the list of that operation alone.\<close>

definition rendered_as ::
  "env \<Rightarrow> obj \<Rightarrow> (string \<times> string) list \<Rightarrow> string \<Rightarrow> string \<Rightarrow> string \<Rightarrow> string \<Rightarrow> jsval \<Rightarrow>
   string \<times> string \<Rightarrow> bool" where
  "rendered_as E hs ps od sd fnTemplate template ctx pc \<longleftrightarrow>
     (\<exists>filename. hb_render E hs ps fnTemplate ctx = Inr filename \<and>
        fst pc = path_join E [od, sd, filename] \<and>
        hb_render E hs ps template ctx = Inr (snd pc))"

definition operations_of :: "jsval \<Rightarrow> jsval list" where
  "operations_of api =
     (case get_prop api ''operations'' of
        Inl e \<Rightarrow> []
      | Inr ops \<Rightarrow>
          (case get_prop (clone ops) ''operation'' of
             Inl e \<Rightarrow> []
           | Inr opl \<Rightarrow> (case iter opl of Inl e \<Rightarrow> [] | Inr xs \<Rightarrow> xs)))"

definition operation_file ::
  "env \<Rightarrow> world \<Rightarrow> string \<Rightarrow> string \<Rightarrow> fanout \<Rightarrow> obj \<Rightarrow> string \<Rightarrow> string \<times> string \<Rightarrow> jsval \<Rightarrow> bool" where
  "operation_file E w od sd po m src pc operation \<longleftrightarrow>
     rendered_as E (helpers w) (reg_partials w) od sd (fo_output po) src
       (JObj (obj_set m ''operations'' (JArr [operation]))) pc"

text \<open>\<open>same_but k m m'\<close>: the objects \<open>m\<close> and \<open>m'\<close> become equal once \<open>k\<close> is assigned, which
  is how the model at one item of a pass relates to the model at the start of the pass.
  \<open>pass_result\<close>: a stretch of a pass left the model so, wrote \<open>ws\<close> in that order and
  nothing else, and kept the registry and the configuration.\<close>

definition same_but :: "string \<Rightarrow> obj \<Rightarrow> obj \<Rightarrow> bool" where
  "same_but k m m' \<longleftrightarrow> (\<forall>X. obj_set m' k X = obj_set m k X)"

definition pass_result :: "string \<Rightarrow> obj \<Rightarrow> world \<Rightarrow> world \<Rightarrow> (string \<times> string) list \<Rightarrow> bool" where
  "pass_result k m w w' ws \<longleftrightarrow>
     (\<exists>m'. model w' = JObj m' \<and> same_but k m m') \<and>
     written w' = written w @ ws \<and> files w' = files w ++ map_of (rev ws) \<and>
     helpers w' = helpers w \<and> reg_partials w' = reg_partials w \<and> cfg w' = cfg w"

section \<open>Relations between the state before and after\<close>

text \<open>\<open>steps R m\<close>: whatever state \<open>m\<close> starts in and however it ends (normally or by a
  throw), the states before and after are related by \<open>R\<close>. The relations used are
  reflexive and transitive (\<open>quasi\<close>), so they compose along a sequence of statements.\<close>

definition quasi :: "(world \<Rightarrow> world \<Rightarrow> bool) \<Rightarrow> bool" where
  "quasi R \<longleftrightarrow> (\<forall>w. R w w) \<and> (\<forall>a b c. R a b \<and> R b c \<longrightarrow> R a c)"

definition steps :: "(world \<Rightarrow> world \<Rightarrow> bool) \<Rightarrow> 'a prog \<Rightarrow> bool" where
  "steps R m \<longleftrightarrow> (\<forall>w. R w (snd (m w)))"

text \<open>The statements before the clean touch neither the file system nor the callback.\<close>

definition pre_frame :: "world \<Rightarrow> world \<Rightarrow> bool" where
  "pre_frame w w' \<longleftrightarrow>
     files w' = files w \<and> dirs w' = dirs w \<and> written w' = written w \<and>
     callbacks w' = callbacks w"

text \<open>A statement that neither writes nor removes a file.\<close>

definition same_fs :: "world \<Rightarrow> world \<Rightarrow> bool" where
  "same_fs w w' \<longleftrightarrow> files w' = files w \<and> written w' = written w"

text \<open>After the clean, files are only written: the files afterwards are the files before
  overridden by the writes recorded meanwhile, a later write winning over an earlier one.\<close>

definition extends :: "world \<Rightarrow> world \<Rightarrow> bool" where
  "extends w w' \<longleftrightarrow>
     (\<exists>ws. written w' = written w @ ws \<and> files w' = files w ++ map_of (rev ws))"

definition gen_frame :: "world \<Rightarrow> world \<Rightarrow> bool" where
  "gen_frame w w' \<longleftrightarrow>
     cfg w' = cfg w \<and> callbacks w' = callbacks w \<and> helpers w' = helpers w \<and>
     reg_partials w' = reg_partials w \<and> dirs w \<subseteq> dirs w' \<and> extends w w'"

text \<open>What lines 59-67 do to one transformation: nothing, or, when it has an input, its
  \<^verbatim>\<open>template\<close> becomes the content of the template file. \<open>load_frame\<close> relates two states
  whose files agree and whose configurations differ at most so, entry by entry.\<close>

definition loaded ::
  "env \<Rightarrow> (string \<rightharpoonup> string) \<Rightarrow> string option \<Rightarrow> string \<Rightarrow> transformation \<Rightarrow> transformation \<Rightarrow> bool" where
  "loaded E fs tdir configName tx tx' \<longleftrightarrow>
     tx' = tx \<or>
     (\<exists>inp src. tx_input tx = Some inp \<and> inp \<noteq> [] \<and>
        fs (tpl E tdir [configName, inp]) = Some src \<and> tx' = tx\<lparr>tx_template := Some src\<rparr>)"

definition load_frame :: "env \<Rightarrow> string \<Rightarrow> world \<Rightarrow> world \<Rightarrow> bool" where
  "load_frame E configName w w' \<longleftrightarrow>
     files w' = files w \<and>
     cfg w' = (cfg w)\<lparr>transformations := transformations (cfg w')\<rparr> \<and>
     list_all2 (loaded E (files w) (templateDir (cfg w)) configName)
       (transformations (cfg w)) (transformations (cfg w'))"

text \<open>\<open>load_tx\<close>: a transformation after lines 62-65 have run for it without throwing, that
  is, with its template file there when it has an input.\<close>

definition load_tx ::
  "env \<Rightarrow> (string \<rightharpoonup> string) \<Rightarrow> string option \<Rightarrow> string \<Rightarrow> transformation \<Rightarrow> transformation" where
  "load_tx E fs tdir configName tx =
     (case tx_input tx of
        None \<Rightarrow> tx
      | Some inp \<Rightarrow>
          if inp = [] then tx else tx\<lparr>tx_template := fs (tpl E tdir [configName, inp])\<rparr>)"

definition same_cfg_files :: "world \<Rightarrow> world \<Rightarrow> bool" where
  "same_cfg_files w w' \<longleftrightarrow> cfg w' = cfg w \<and> files w' = files w"

text \<open>The model is an object whose \<^verbatim>\<open>generator\<close> property is present with value \<open>g\<close>.\<close>

definition has_generator :: "jsval \<Rightarrow> world \<Rightarrow> bool" where
  "has_generator g w \<longleftrightarrow> (\<exists>m. model w = JObj m \<and> map_of m ''generator'' = Some g)"

section \<open>A concrete setting\<close>

text \<open>
  A small instance of the collaborators, used to run the engine on concrete inputs:
  paths are joined with a slash (empty segments skipped), \<^verbatim>\<open>rimraf\<close> of \<^verbatim>\<open>d/*\<close> hits what
  lies under \<open>d/\<close>, the transform hands the raw input over as the model, and a template
  of the form \<^verbatim>\<open>$a.b\<close> renders the string at that path of the context (the empty string
  when there is none) while any other template renders as its own text.
\<close>

fun ex_join :: "string list \<Rightarrow> string" where
  "ex_join [] = []"
| "ex_join (s # ss) =
     (if s = [] then ex_join ss
      else if ex_join ss = [] then s else s @ ''/'' @ ex_join ss)"

definition ex_dirname :: "string \<Rightarrow> string" where
  "ex_dirname p =
     (case butlast (split_on (CHR ''/'') p) of [] \<Rightarrow> ''.'' | ds \<Rightarrow> ex_join ds)"

definition ex_hits :: "string \<Rightarrow> string \<Rightarrow> bool" where
  "ex_hits pat p = (length (butlast pat) < length p \<and> take (length (butlast pat)) p = butlast pat)"

fun ex_path :: "jsval \<Rightarrow> string list \<Rightarrow> string" where
  "ex_path v [] = (case v of JStr s \<Rightarrow> s | _ \<Rightarrow> [])"
| "ex_path v (k # ks) = (case get_prop v k of Inl e \<Rightarrow> [] | Inr u \<Rightarrow> ex_path u ks)"

definition ex_render :: "obj \<Rightarrow> (string \<times> string) list \<Rightarrow> string \<Rightarrow> jsval \<Rightarrow> js_error + string" where
  "ex_render hs ps t ctx =
     (case t of
        [] \<Rightarrow> Inr []
      | c # r \<Rightarrow> if c = CHR ''$'' then Inr (ex_path ctx (split_on (CHR ''.'') r)) else Inr t)"

definition ex_env :: env where
  "ex_env = \<lparr>
     path_join = ex_join,
     path_dirname = ex_dirname,
     module_dirname = ''/app'',
     lambdas = [(''upper'', JFun ''upper'')],
     adaptor_transform = (\<lambda>gen o_raw dflts. (Null, o_raw)),
     hb_render = ex_render,
     rimraf_hits = ex_hits,
     js_call = (\<lambda>f args. Inl (TypeError ''not callable'')),
     js_string = (\<lambda>v. ''[value]'') \<rparr>"

definition ex_config :: config where
  "ex_config = \<lparr>
     outputDir = Some ''out'',
     templateDir = None,
     defaults = [(''x'', JStr ''global''), (''y'', JStr ''global''), (''z'', JStr ''global''),
                 (''u'', JStr ''global'')],
     generator = Undefined,
     partials = [],
     directories = None,
     transformations = [],
     touch = None,
     apache = Undefined,
     perApi = None,
     perPath = None,
     perModel = None,
     perOperation = None \<rparr>"

definition ex_api1 :: jsval where
  "ex_api1 = JObj [(''name'', JStr ''pets''), (''x'', JStr ''item''),
     (''operations'', JObj [(''operation'',
        JArr [JObj [(''id'', JStr ''listPets'')], JObj [(''id'', JStr ''getPet'')]])])]"

definition ex_api2 :: jsval where
  "ex_api2 = JObj [(''name'', JStr ''users''),
     (''operations'', JObj [(''operation'', JArr [JObj [(''id'', JStr ''getUser'')]])])]"

definition ex_model :: jsval where
  "ex_model = JObj [(''title'', JStr ''Store''), (''x'', JStr ''top''), (''y'', JStr ''top''),
     (''apiInfo'', JObj [(''apis'', JArr [ex_api1, ex_api2]), (''paths'', JArr [])]),
     (''models'', JArr [JObj [(''name'', JStr ''Pet''), (''kind'', JStr ''own'')]])]"

definition ex_pa :: fanout where
  "ex_pa = \<lparr>fo_input = ''api.tpl'', fo_output = ''$name'',
            fo_defaults = JObj [(''x'', JStr ''spec''), (''z'', JStr ''spec'')]\<rparr>"


definition ex_verbose :: config where
  "ex_verbose = ex_config\<lparr>defaults := [(''verbose'', JBool True)],
                           partials := [(''header'', ''header.tpl'')]\<rparr>"

definition ex_gen :: config where
  "ex_gen = ex_config\<lparr>generator := JObj [(''lambdas'', JObj [(''shout'', JFun ''shout'')])]\<rparr>"

definition ex_readme :: config where
  "ex_readme = ex_config\<lparr>transformations :=
     [\<lparr>tx_input = Some ''readme.tpl'', tx_output = ''README.md'', tx_template = None\<rparr>]\<rparr>"

definition ex_apache :: config where
  "ex_apache = ex_config\<lparr>apache := JBool True, templateDir := Some ''/custom''\<rparr>"

definition ex_touch :: config where
  "ex_touch = ex_config\<lparr>touch := Some ''a.txt''\<rparr>"

definition ex_pm :: fanout where
  "ex_pm = \<lparr>fo_input = ''model.tpl'', fo_output = ''$models.0.name'',
            fo_defaults = JObj [(''kind'', JStr ''spec'')]\<rparr>"

definition ex_po :: fanout where
  "ex_po = \<lparr>fo_input = ''op.tpl'', fo_output = ''$operations.0.id'', fo_defaults = Undefined\<rparr>"

definition ex_files :: "string \<rightharpoonup> string" where
  "ex_files = [''/app/templates/_common/LICENSE'' \<mapsto> ''Apache License'',
               ''/app/templates/_common/UNLICENSE'' \<mapsto> ''This is free and unencumbered software'',
               ''/app/templates/go/api.tpl'' \<mapsto> ''$x'',
               ''/app/templates/go/model.tpl'' \<mapsto> ''$models.0.kind'',
               ''/app/templates/go/op.tpl'' \<mapsto> ''$operations.0.id'',
               ''/app/templates/go/readme.tpl'' \<mapsto> ''$title'',
               ''out/go/junk.txt'' \<mapsto> ''stale'']"

definition ex_world :: "config \<Rightarrow> world" where
  "ex_world c = \<lparr>
     cfg = c,
     model = Undefined,
     files = ex_files,
     dirs = {},
     helpers = [],
     reg_partials = [],
     console = [],
     written = [],
     callbacks = [] \<rparr>"

definition ex_ready :: world where
  "ex_ready = (ex_world (ex_config\<lparr>perModel := Some [ex_pm], perOperation := Some [ex_po]\<rparr>))
                \<lparr>model := ex_model\<rparr>"

text \<open>
  Further settings. \<open>ex_fan\<close>: the concrete model with one perApi spec configured.
  \<open>ex_glob_hits\<close>: \<^verbatim>\<open>rimraf\<close> expands its pattern with \<^verbatim>\<open>glob\<close>, whose \<^verbatim>\<open>*\<close> does not match a name
  that begins with a dot; so \<^verbatim>\<open>d/*\<close> hits what lies under \<open>d/\<close> except the entries of \<open>d\<close>
  whose name begins with a dot. \<open>ex_hidden\<close>: the concrete file system with one such entry
  more in the output subdirectory. \<open>ex_clash\<close>: a perModel spec whose output name is
  \<^verbatim>\<open>LICENSE\<close>.
\<close>

definition ex_fan :: world where
  "ex_fan = (ex_world (ex_config\<lparr>perApi := Some [ex_pa]\<rparr>))\<lparr>model := ex_model\<rparr>"

definition ex_glob_hits :: "string \<Rightarrow> string \<Rightarrow> bool" where
  "ex_glob_hits pat p =
     (case drop (length (butlast pat)) p of
        [] \<Rightarrow> False
      | c # r \<Rightarrow> take (length (butlast pat)) p = butlast pat \<and> c \<noteq> CHR ''.'')"

definition ex_glob_env :: env where
  "ex_glob_env = ex_env\<lparr>rimraf_hits := ex_glob_hits\<rparr>"

definition ex_hidden :: world where
  "ex_hidden = (ex_world ex_readme)\<lparr>files := ex_files(''out/go/.hidden'' \<mapsto> ''keep'')\<rparr>"

definition ex_clash :: config where
  "ex_clash = ex_config\<lparr>perModel :=
     Some [\<lparr>fo_input = ''model.tpl'', fo_output = ''LICENSE'', fo_defaults = Undefined\<rparr>]\<rparr>"

section \<open>Objects: reading after writing\<close>

lemma show_nat_small: "n < 10 \<Longrightarrow> show_nat n = [digit_char n]"
  by (simp add: show_nat.simps)

lemma map_of_obj_set: "map_of (obj_set kvs k v) = (map_of kvs)(k \<mapsto> v)"
  by (induction kvs) (auto simp: fun_eq_iff)

lemma obj_set_twice: "obj_set (obj_set kvs k v) k v' = obj_set kvs k v'"
  by (induction kvs) auto

lemma map_of_obj_delete: "map_of (obj_delete kvs k) x = (if x = k then None else map_of kvs x)"
  by (induction kvs) (auto simp: obj_delete_def)

lemma map_of_assign_keys:
  "map_of (foldl (\<lambda>t k. obj_set t k (f k)) t ks) x =
     (if x \<in> set ks then Some (f x) else map_of t x)"
  by (induction ks arbitrary: t) (auto simp: map_of_obj_set)

lemma obj_get_Some: "x \<in> fst ` set ps \<Longrightarrow> map_of ps x = Some (obj_get ps x)"
  by (auto simp: obj_get_def map_of_eq_None_iff split: option.splits)

lemma map_of_assign_one: "map_of (assign_one t src) = map_of t ++ map_of (own_props src)"
proof
  fix x
  show "map_of (assign_one t src) x = (map_of t ++ map_of (own_props src)) x"
  proof (cases "x \<in> fst ` set (own_props src)")
    case True
    then show ?thesis
      by (simp add: assign_one_def map_of_assign_keys map_add_def obj_get_Some)
  next
    case False
    then have "map_of (own_props src) x = None"
      by (simp add: map_of_eq_None_iff)
    with False show ?thesis
      by (simp add: assign_one_def map_of_assign_keys map_add_def)
  qed
qed

lemma map_of_object_assign:
  "map_of (object_assign t srcs) =
     foldl (++) (map_of t) (map (\<lambda>s. map_of (own_props s)) srcs)"
  unfolding object_assign_def
  by (induction srcs arbitrary: t) (simp_all add: map_of_assign_one)

lemma clone_id: "clone v = v"
  by (induction v) (auto simp: map_idI prod.map_ident_strong)

section \<open>Programs: running them\<close>

lemma ret_apply: "ret x w = (Inr x, w)"
  by (simp add: ret_def)

lemma throw_apply: "throw e w = (Inl e, w)"
  by (simp add: throw_def)

lemma gets_apply: "gets f w = (Inr (f w), w)"
  by (simp add: gets_def)

lemma modify_apply: "modify f w = (Inr (), f w)"
  by (simp add: modify_def)

lemma bind_apply:
  "bind m f w = (case m w of (Inl e, w') \<Rightarrow> (Inl e, w') | (Inr x, w') \<Rightarrow> f x w')"
  by (simp add: bind_def)

lemma seq_apply:
  "seq m n w = (case m w of (Inl e, w') \<Rightarrow> (Inl e, w') | (Inr x, w') \<Rightarrow> n w')"
  by (simp add: seq_def bind_def)

lemma lift_apply: "lift r w = (case r of Inl e \<Rightarrow> (Inl e, w) | Inr x \<Rightarrow> (Inr x, w))"
  by (simp add: lift_def ret_def throw_def split: sum.splits)

lemma if_do_apply: "if_do b m w = (if b then m w else (Inr (), w))"
  by (simp add: if_do_def ret_def)

lemmas run_simps =
  ret_apply throw_apply gets_apply modify_apply bind_apply seq_apply lift_apply if_do_apply

lemma make_toplevel_obj:
  "model w = JObj m \<Longrightarrow> make_toplevel w = (Inr (JObj (obj_delete m ''apiInfo'')), w)"
  by (simp add: make_toplevel_def run_simps clone_id)

section \<open>Composing relations along a program\<close>

named_theorems steps_intros

lemma quasi_refl: "quasi R \<Longrightarrow> R w w"
  by (simp add: quasi_def)

lemma quasi_trans: "quasi R \<Longrightarrow> R a b \<Longrightarrow> R b c \<Longrightarrow> R a c"
  unfolding quasi_def by blast

lemma stepsD: "steps R m \<Longrightarrow> R w (snd (m w))"
  by (simp add: steps_def)

lemma steps_ret [steps_intros]: "quasi R \<Longrightarrow> steps R (ret x)"
  by (simp add: steps_def ret_def quasi_refl)

lemma steps_throw [steps_intros]: "quasi R \<Longrightarrow> steps R (throw e)"
  by (simp add: steps_def throw_def quasi_refl)

lemma steps_gets [steps_intros]: "quasi R \<Longrightarrow> steps R (gets f)"
  by (simp add: steps_def gets_def quasi_refl)

lemma steps_lift [steps_intros]: "quasi R \<Longrightarrow> steps R (lift r)"
  by (simp add: steps_def lift_apply quasi_refl split: sum.splits)

lemma steps_modify [steps_intros]: "(\<And>w. R w (g w)) \<Longrightarrow> steps R (modify g)"
  by (simp add: steps_def modify_def)

lemma steps_bind [steps_intros]:
  assumes "quasi R" and "steps R m" and "\<And>x. steps R (f x)"
  shows "steps R (bind m f)"
  unfolding steps_def
proof
  fix w
  obtain r w1 where mw: "m w = (r, w1)" by (cases "m w")
  have a: "R w w1" using stepsD [OF assms(2), of w] mw by simp
  show "R w (snd (bind m f w))"
  proof (cases r)
    case (Inl e)
    with mw a show ?thesis by (simp add: bind_apply)
  next
    case (Inr x)
    have "R w1 (snd (f x w1))" using stepsD [OF assms(3)] .
    with a have "R w (snd (f x w1))" using quasi_trans [OF assms(1)] by blast
    with mw Inr show ?thesis by (simp add: bind_apply)
  qed
qed

lemma steps_seq [steps_intros]: "quasi R \<Longrightarrow> steps R m \<Longrightarrow> steps R n \<Longrightarrow> steps R (seq m n)"
  unfolding seq_def by (rule steps_bind)

lemma steps_if_do [steps_intros]: "quasi R \<Longrightarrow> steps R m \<Longrightarrow> steps R (if_do b m)"
  by (simp add: if_do_def steps_ret)

lemma steps_for_of [steps_intros]:
  "quasi R \<Longrightarrow> (\<And>x. x \<in> set xs \<Longrightarrow> steps R (f x)) \<Longrightarrow> steps R (for_of xs f)"
  by (induction xs) (simp_all add: steps_ret steps_seq)

lemma steps_if [steps_intros]: "steps R m \<Longrightarrow> steps R n \<Longrightarrow> steps R (if b then m else n)"
  by simp

lemma steps_let [steps_intros]: "steps R (f x) \<Longrightarrow> steps R (Let x f)"
  by simp

lemma steps_case_option [steps_intros]:
  "steps R a \<Longrightarrow> (\<And>y. steps R (b y)) \<Longrightarrow> steps R (case x of None \<Rightarrow> a | Some y \<Rightarrow> b y)"
  by (cases x) simp_all

lemma steps_case_prod [steps_intros]:
  "(\<And>a b. steps R (f a b)) \<Longrightarrow> steps R (case p of (a, b) \<Rightarrow> f a b)"
  by (cases p) simp

lemma steps_touch_lines [steps_intros]: "quasi R \<Longrightarrow> steps R (touch_lines v)"
  by (cases v) (simp_all add: touch_lines_def steps_ret steps_throw)

lemma steps_call_value [steps_intros]: "quasi R \<Longrightarrow> steps R (call_value E f args)"
  by (cases f) (simp_all add: call_value_def steps_lift steps_throw)

lemma steps_hb_compile [steps_intros]: "quasi R \<Longrightarrow> steps R (hb_compile src)"
  by (cases src) (simp_all add: hb_compile_def steps_ret steps_throw)

lemma steps_call_template [steps_intros]: "quasi R \<Longrightarrow> steps R (call_template E t ctx)"
  unfolding call_template_def by (intro steps_bind steps_gets steps_lift)

lemma steps_readFileSync [steps_intros]: "quasi R \<Longrightarrow> steps R (ff_readFileSync p)"
  unfolding ff_readFileSync_def
  by (intro steps_bind steps_gets steps_case_option steps_throw steps_ret)

lemma steps_existsSync [steps_intros]: "quasi R \<Longrightarrow> steps R (fs_existsSync p)"
  unfolding fs_existsSync_def by (rule steps_gets)

lemma quasi_pre_frame [simp]: "quasi pre_frame"
  by (simp add: quasi_def pre_frame_def)

lemma extends_refl: "extends w w"
  unfolding extends_def by (rule exI [of _ "[]"]) simp

lemma extends_trans: "extends a b \<Longrightarrow> extends b c \<Longrightarrow> extends a c"
  unfolding extends_def
proof -
  assume "\<exists>ws. written b = written a @ ws \<and> files b = files a ++ map_of (rev ws)"
    and "\<exists>ws. written c = written b @ ws \<and> files c = files b ++ map_of (rev ws)"
  then obtain ws1 ws2 where
    1: "written b = written a @ ws1" "files b = files a ++ map_of (rev ws1)" and
    2: "written c = written b @ ws2" "files c = files b ++ map_of (rev ws2)"
    by blast
  have "written c = written a @ (ws1 @ ws2)"
    using 1 2 by simp
  moreover have "files c = files a ++ map_of (rev (ws1 @ ws2))"
    using 1 2 by (simp add: map_add_assoc)
  ultimately show "\<exists>ws. written c = written a @ ws \<and> files c = files a ++ map_of (rev ws)"
    by blast
qed

lemma extends_createFile:
  "extends w (w\<lparr>files := (files w)(p \<mapsto> c), written := written w @ [(p, c)]\<rparr>)"
  unfolding extends_def by (rule exI [of _ "[(p, c)]"]) simp

lemma extends_same: "written w' = written w \<Longrightarrow> files w' = files w \<Longrightarrow> extends w w'"
  unfolding extends_def by (rule exI [of _ "[]"]) simp

lemma quasi_gen_frame [simp]: "quasi gen_frame"
  unfolding quasi_def gen_frame_def
  by (auto intro: extends_refl extends_trans)

section \<open>What each part of the run leaves alone\<close>

lemma pre_frame_decorate: "steps pre_frame (decorate E verbose gen)"
  unfolding decorate_def assign_model_def console_log_def
  by (intro steps_intros) (simp_all add: pre_frame_def)

lemma pre_frame_register_lambdas: "steps pre_frame (register_lambdas verbose gen)"
  unfolding register_lambdas_def console_log_def registerHelper_def
  by (intro steps_intros) (simp_all add: pre_frame_def)

lemma pre_frame_register_partials: "steps pre_frame (register_partials E verbose configName)"
  unfolding register_partials_def console_log_def registerPartial_def
  by (intro steps_intros) (simp_all add: pre_frame_def)

lemma pre_frame_load_actions: "steps pre_frame (load_actions E verbose configName)"
  unfolding load_actions_def load_action_def console_log_def
  by (intro steps_intros) (simp_all add: pre_frame_def)

lemma pre_frame_prelude: "steps pre_frame (prelude E verbose configName gen mdl)"
  unfolding prelude_def
  by (intro steps_seq steps_modify pre_frame_decorate pre_frame_register_lambdas
        pre_frame_register_partials pre_frame_load_actions)
     (simp_all add: pre_frame_def)

lemma gen_frame_update:
  "cfg w' = cfg w \<Longrightarrow> callbacks w' = callbacks w \<Longrightarrow> helpers w' = helpers w \<Longrightarrow>
   reg_partials w' = reg_partials w \<Longrightarrow> dirs w \<subseteq> dirs w' \<Longrightarrow>
   written w' = written w \<Longrightarrow> files w' = files w \<Longrightarrow> gen_frame w w'"
  by (simp add: gen_frame_def extends_same)

lemma gen_frame_createFile [steps_intros]: "steps gen_frame (ff_createFile p c)"
  unfolding ff_createFile_def
  by (rule steps_modify) (simp add: gen_frame_def extends_createFile)

lemma gen_frame_mkdirp [steps_intros]: "steps gen_frame (ff_mkdirp d)"
  unfolding ff_mkdirp_def
  by (rule steps_modify) (auto intro!: gen_frame_update)

lemma gen_frame_console_log [steps_intros]: "steps gen_frame (console_log msg)"
  unfolding console_log_def
  by (rule steps_modify) (auto intro!: gen_frame_update)

lemma gen_frame_assign_model [steps_intros]: "steps gen_frame (assign_model k v)"
  unfolding assign_model_def
  by (intro steps_intros) (auto intro!: gen_frame_update)

lemma gen_frame_make_directories: "steps gen_frame (make_directories E outDir subDir)"
  unfolding make_directories_def
  by (intro steps_intros) simp_all

lemma gen_frame_render_action: "steps gen_frame (render_action E verbose outDir subDir action)"
  unfolding render_action_def
  by (intro steps_intros) simp_all

lemma gen_frame_touch_pass: "steps gen_frame (touch_pass E outDir subDir)"
  unfolding touch_pass_def touch_file_def
  by (intro steps_intros) simp_all

lemma gen_frame_license_pass: "steps gen_frame (license_pass E outDir subDir)"
  unfolding license_pass_def
  by (intro steps_intros) simp_all

lemma gen_frame_make_toplevel [steps_intros]: "steps gen_frame make_toplevel"
  unfolding make_toplevel_def
  by (intro steps_intros) simp_all

lemma gen_frame_apiInfo_list [steps_intros]: "steps gen_frame (apiInfo_list field)"
  unfolding apiInfo_list_def
  by (intro steps_intros) simp_all

lemma gen_frame_perApi_pass: "steps gen_frame (perApi_pass E verbose configName outDir subDir)"
  unfolding perApi_pass_def perApi_spec_def perApi_item_def
  by (intro steps_intros) simp_all

lemma gen_frame_perPath_pass: "steps gen_frame (perPath_pass E verbose configName outDir subDir)"
  unfolding perPath_pass_def perPath_spec_def perPath_item_def
  by (intro steps_intros) simp_all

lemma gen_frame_perModel_pass: "steps gen_frame (perModel_pass E verbose configName outDir subDir)"
  unfolding perModel_pass_def perModel_spec_def perModel_item_def
  by (intro steps_intros) simp_all

lemma gen_frame_perOperation_pass:
  "steps gen_frame (perOperation_pass E verbose configName outDir subDir)"
  unfolding perOperation_pass_def perOperation_spec_def perOperation_api_def perOperation_item_def
  by (intro steps_intros) simp_all

lemma gen_frame_fan_out: "steps gen_frame (fan_out E verbose configName outDir subDir)"
  unfolding fan_out_def
  by (intro steps_seq gen_frame_perApi_pass gen_frame_perPath_pass
        gen_frame_perModel_pass gen_frame_perOperation_pass) simp_all

lemma gen_frame_passes: "steps gen_frame (passes E verbose configName outDir subDir actions)"
  unfolding passes_def
  by (intro steps_seq steps_for_of gen_frame_make_directories gen_frame_render_action
        gen_frame_touch_pass gen_frame_license_pass gen_frame_fan_out) simp_all

section \<open>The run as a whole\<close>

lemma bind_result:
  "bind m f w = (case fst (m w) of Inl e \<Rightarrow> (Inl e, snd (m w)) | Inr x \<Rightarrow> f x (snd (m w)))"
  by (simp add: bind_apply split: prod.splits sum.splits)

lemma seq_result:
  "seq m n w = (case fst (m w) of Inl e \<Rightarrow> (Inl e, snd (m w)) | Inr x \<Rightarrow> n (snd (m w)))"
  by (simp add: seq_def bind_result)

lemma main_unfold:
  "main E o_raw configName cb w =
     on_transformed E (verbose_of (cfg w)) configName (outDir_of (cfg w)) (gen_of (cfg w)) cb
       (fst (adaptor_transform E (gen_of (cfg w)) o_raw (defaults (set_configName configName (cfg w)))))
       (snd (adaptor_transform E (gen_of (cfg w)) o_raw (defaults (set_configName configName (cfg w)))))
       (w\<lparr>cfg := set_configName configName (cfg w)\<rparr>)"
  by (simp add: main_def run_simps Let_def gen_of_def set_configName_def split: prod.splits)

lemma clean_apply:
  "clean E verbose outDir subDir w =
     (Inr (), w\<lparr>console := (if verbose then console w @ [''Making/cleaning output directories'']
                                else console w),
                 dirs := Set.filter (\<lambda>d. \<not> rimraf_hits E (path_join E [outDir, subDir] @ ''/*'') d)
                           (insert (path_join E [outDir, subDir]) (dirs w)),
                 files := (\<lambda>p. if rimraf_hits E (path_join E [outDir, subDir] @ ''/*'') p then None
                                else files w p)\<rparr>)"
  by (simp add: clean_def console_log_def ff_mkdirp_def ff_rimraf_def run_simps cong: if_cong)

lemma finish_apply:
  "finish cb w = (Inr (), if cb then w\<lparr>callbacks := callbacks w @ [(Null, JBool True)]\<rparr> else w)"
  by (simp add: finish_def run_simps)

lemma on_transformed_apply:
  "on_transformed E v n od g cb err mdl w =
     (case fst (prelude E v n g mdl w) of
        Inl e \<Rightarrow> (Inl e, snd (prelude E v n g mdl w))
      | Inr actions \<Rightarrow>
          generate E v n od (subDir_of (cfg (snd (prelude E v n g mdl w))) n) actions cb
            (snd (clean E v od (subDir_of (cfg (snd (prelude E v n g mdl w))) n)
                   (snd (prelude E v n g mdl w)))))"
  by (simp add: on_transformed_def bind_result seq_result gets_apply clean_apply Let_def
           split: sum.splits)

lemma generate_apply:
  "generate E v n od sd actions cb w =
     (case fst (passes E v n od sd actions w) of
        Inl e \<Rightarrow> (Inl e, snd (passes E v n od sd actions w))
      | Inr u \<Rightarrow> finish cb (snd (passes E v n od sd actions w)))"
  by (simp add: generate_def seq_result)




lemma quasi_keeps [simp]: "quasi (\<lambda>w w'. I w \<longrightarrow> I w')"
  by (simp add: quasi_def)

lemma keeps_generator_assign_model:
  "k \<noteq> ''generator'' \<Longrightarrow>
   steps (\<lambda>w w'. has_generator g w \<longrightarrow> has_generator g w') (assign_model k v)"
  unfolding steps_def
proof (intro allI impI)
  fix w
  assume k: "k \<noteq> ''generator''" and "has_generator g w"
  then obtain m where m: "model w = JObj m" "map_of m ''generator'' = Some g"
    by (auto simp: has_generator_def)
  have "assign_model k v w = (Inr (), w\<lparr>model := JObj (obj_set m k v)\<rparr>)"
    using m by (simp add: assign_model_def run_simps)
  then show "has_generator g (snd (assign_model k v w))"
    using m k by (simp add: has_generator_def map_of_obj_set)
qed

lemmas engine_defs =
  on_transformed_def generate_def prelude_def clean_def passes_def fan_out_def register_lambdas_def register_partials_def
  load_actions_def load_action_def make_directories_def render_action_def touch_pass_def
  touch_file_def license_pass_def make_toplevel_def apiInfo_list_def perApi_item_def perApi_spec_def
  perApi_pass_def perPath_item_def perPath_spec_def perPath_pass_def perModel_item_def perModel_spec_def
  perModel_pass_def perOperation_item_def perOperation_api_def perOperation_spec_def perOperation_pass_def
  finish_def ff_createFile_def ff_mkdirp_def ff_rimraf_def
  console_log_def registerHelper_def registerPartial_def

lemma keeps_generator_rest:
  assumes "''generator'' \<notin> fst ` set (lambdas E)"
  shows "steps (\<lambda>w w'. has_generator g w \<longrightarrow> has_generator g w')
     (bind (seq (seq (if_do verbose (console_log (''Processing lambdas '' @ join_commas (map fst (lambdas E)))))
           (seq (for_of (map fst (lambdas E)) (\<lambda>key. assign_model key (obj_get (lambdas E) key)))
                (if verbose
                 then bind (lift (get_prop gen ''lambdas'')) (\<lambda>ls.
                        console_log (''Processing custom lambda '' @ js_string E ls))
                 else ret ())))
        (seq (register_lambdas verbose gen)
        (seq (register_partials E verbose configName)
             (load_actions E verbose configName))))
      (\<lambda>actions.
     bind (gets cfg) (\<lambda>config.
     let subDir = subDir_of config configName in
     seq (clean E verbose outDir subDir)
         (generate E verbose configName outDir subDir actions has_callback))))"
  unfolding engine_defs
  apply (intro steps_intros keeps_generator_assign_model)
  using assms apply (auto simp: has_generator_def)
  apply (metis fst_conv image_eqI)
  done

lemma loaded_refl: "loaded E fs tdir n tx tx"
  by (simp add: loaded_def)

lemma loaded_trans:
  "loaded E fs tdir n a b \<Longrightarrow> loaded E fs tdir n b c \<Longrightarrow> loaded E fs tdir n a c"
  unfolding loaded_def by auto

lemma load_frame_refl: "load_frame E n w w"
  by (simp add: load_frame_def list_all2_refl loaded_refl)

lemma load_frame_trans:
  assumes "load_frame E n a b" and "load_frame E n b c"
  shows "load_frame E n a c"
proof -
  have f: "files b = files a" "files c = files a"
    using assms by (simp_all add: load_frame_def)
  have cb: "cfg b = (cfg a)\<lparr>transformations := transformations (cfg b)\<rparr>"
    using assms(1) by (simp add: load_frame_def)
  have cc: "cfg c = (cfg b)\<lparr>transformations := transformations (cfg c)\<rparr>"
    using assms(2) by (simp add: load_frame_def)
  have t: "templateDir (cfg b) = templateDir (cfg a)"
    by (subst cb) simp
  have 1: "list_all2 (loaded E (files a) (templateDir (cfg a)) n)
             (transformations (cfg a)) (transformations (cfg b))"
    using assms(1) by (simp add: load_frame_def)
  have 2: "list_all2 (loaded E (files a) (templateDir (cfg a)) n)
             (transformations (cfg b)) (transformations (cfg c))"
    using assms(2) f t by (simp add: load_frame_def)
  have 3: "list_all2 (loaded E (files a) (templateDir (cfg a)) n)
             (transformations (cfg a)) (transformations (cfg c))"
    using list_all2_trans [where ?P1.0 = "loaded E (files a) (templateDir (cfg a)) n"
        and ?P2.0 = "loaded E (files a) (templateDir (cfg a)) n"
        and ?P3.0 = "loaded E (files a) (templateDir (cfg a)) n", OF _ 1 2]
      loaded_trans by blast
  have "cfg c = (cfg a)\<lparr>transformations := transformations (cfg c)\<rparr>"
    by (subst cc, subst cb) simp
  with f 3 show ?thesis by (simp add: load_frame_def)
qed

lemma quasi_load_frame [simp]: "quasi (load_frame E n)"
  unfolding quasi_def using load_frame_refl load_frame_trans by blast

lemma load_frame_same: "files w' = files w \<Longrightarrow> cfg w' = cfg w \<Longrightarrow> load_frame E n w w'"
  by (simp add: load_frame_def list_all2_refl loaded_refl)

lemma load_frame_decorate: "steps (load_frame E n) (decorate E' verbose gen)"
  unfolding decorate_def assign_model_def console_log_def
  by (intro steps_intros) (simp_all add: load_frame_same)

lemma load_frame_register_lambdas: "steps (load_frame E n) (register_lambdas verbose gen)"
  unfolding register_lambdas_def console_log_def registerHelper_def
  by (intro steps_intros) (simp_all add: load_frame_same)

lemma load_frame_register_partials: "steps (load_frame E n) (register_partials E' verbose configName)"
  unfolding register_partials_def console_log_def registerPartial_def
  by (intro steps_intros) (simp_all add: load_frame_same)

lemma list_all2_update_one:
  "(\<And>x. P x x) \<Longrightarrow> (t < length xs \<Longrightarrow> P (xs ! t) y) \<Longrightarrow> list_all2 P xs (xs[t := y])"
proof -
  assume r: "\<And>x. P x x" and u: "t < length xs \<Longrightarrow> P (xs ! t) y"
  have "P (xs ! i) (xs[t := y] ! i)" if "i < length xs" for i
  proof (cases "i = t")
    case True
    with that u show ?thesis by simp
  next
    case False
    with r show ?thesis by simp
  qed
  then show ?thesis by (simp add: list_all2_conv_all_nth)
qed

lemma load_frame_load_action: "steps (load_frame E n) (load_action E verbose n t)"
  unfolding steps_def
proof
  fix w
  show "load_frame E n w (snd (load_action E verbose n t w))"
  proof (cases "tx_input (transformations (cfg w) ! t)")
    case None
    then show ?thesis by (simp add: load_action_def run_simps load_frame_refl)
  next
    case (Some inp)
    show ?thesis
    proof (cases "inp = [] \<or> files w (tpl E (templateDir (cfg w)) [n, inp]) = None")
      case True
      with Some show ?thesis
        by (auto simp: load_action_def run_simps ff_readFileSync_def console_log_def load_frame_same)
    next
      case False
      then obtain src where src: "files w (tpl E (templateDir (cfg w)) [n, inp]) = Some src" and ne: "inp \<noteq> []"
        by auto
      let ?txs = "(transformations (cfg w))[t := (transformations (cfg w) ! t)\<lparr>tx_template := Some src\<rparr>]"
      have c: "cfg (snd (load_action E verbose n t w)) = (cfg w)\<lparr>transformations := ?txs\<rparr>"
        and f: "files (snd (load_action E verbose n t w)) = files w"
        using Some src ne
        by (simp_all add: load_action_def run_simps ff_readFileSync_def console_log_def)
      have "list_all2 (loaded E (files w) (templateDir (cfg w)) n) (transformations (cfg w)) ?txs"
        by (rule list_all2_update_one) (use Some src ne in \<open>auto simp: loaded_def\<close>)
      with c f show ?thesis by (simp add: load_frame_def)
    qed
  qed
qed

lemma load_frame_load_actions: "steps (load_frame E n) (load_actions E verbose n)"
  unfolding load_actions_def
  by (intro steps_intros load_frame_load_action) simp_all

lemma load_frame_prelude: "steps (load_frame E n) (prelude E verbose n gen mdl)"
  unfolding prelude_def
  by (intro steps_seq steps_modify load_frame_decorate load_frame_register_lambdas
        load_frame_register_partials load_frame_load_actions)
     (simp_all add: load_frame_same)

lemma obj_get_obj_set: "k' \<noteq> k \<Longrightarrow> obj_get (obj_set d k v) k' = obj_get d k'"
  by (simp add: obj_get_def map_of_obj_set)

lemma after_prelude_frames:
  "pre_frame w (snd (after_prelude E o_raw n w))"
  "load_frame E n (started n w) (snd (after_prelude E o_raw n w))"
  using stepsD [OF pre_frame_prelude, of "started n w"] stepsD [OF load_frame_prelude, of E n "started n w"]
  by (simp_all add: after_prelude_def pre_frame_def started_def)

lemma cfg_after_prelude:
  "cfg (snd (after_prelude E o_raw n w)) =
     (cfg w)\<lparr>defaults := obj_set (defaults (cfg w)) ''configName'' (JStr n),
             transformations := transformations (cfg (snd (after_prelude E o_raw n w)))\<rparr>"
proof -
  have "cfg (snd (after_prelude E o_raw n w)) =
          (cfg (started n w))\<lparr>transformations := transformations (cfg (snd (after_prelude E o_raw n w)))\<rparr>"
    using after_prelude_frames(2) [of E n w o_raw] by (simp add: load_frame_def)
  then show ?thesis by (simp add: started_def set_configName_def)
qed

lemma subDir_after_prelude:
  "subDir_of (cfg (snd (after_prelude E o_raw n w))) n = subDir_of (cfg w) n"
  by (subst cfg_after_prelude) (simp add: subDir_of_def obj_get_obj_set)

lemma main_early:
  "fst (after_prelude E o_raw n w) = Inl e \<Longrightarrow>
   main E o_raw n cb w = (Inl e, snd (after_prelude E o_raw n w))"
  using subDir_after_prelude [of E o_raw n w]
  by (simp add: main_unfold on_transformed_apply after_prelude_def transformed_def started_def)

lemma main_late:
  "fst (after_prelude E o_raw n w) = Inr actions \<Longrightarrow>
   main E o_raw n cb w =
     generate E (verbose_of (cfg w)) n (outDir_of (cfg w)) (subDir_of (cfg w) n) actions cb
       (after_clean E o_raw n w)"
  using subDir_after_prelude [of E o_raw n w]
  by (simp add: main_unfold on_transformed_apply after_prelude_def after_clean_def
        transformed_def started_def)

lemma after_clean_fields:
  "files (after_clean E o_raw n w) =
     (\<lambda>p. if rimraf_hits E (clean_pattern E (cfg w) n) p then None else files w p)"
  "written (after_clean E o_raw n w) = written w"
  "callbacks (after_clean E o_raw n w) = callbacks w"
  "cfg (after_clean E o_raw n w) = cfg (snd (after_prelude E o_raw n w))"
  "dirs (after_clean E o_raw n w) =
     Set.filter (\<lambda>d. \<not> rimraf_hits E (clean_pattern E (cfg w) n) d)
       (insert (path_join E [outDir_of (cfg w), subDir_of (cfg w) n]) (dirs w))"
  using after_prelude_frames(1) [of w E o_raw n]
  by (simp_all add: after_clean_def clean_apply clean_pattern_def pre_frame_def cong: if_cong)

lemma generate_frame:
  "gen_frame w (snd (passes E v n od sd actions w)) \<and>
   files (snd (generate E v n od sd actions cb w)) = files (snd (passes E v n od sd actions w)) \<and>
   written (snd (generate E v n od sd actions cb w)) = written (snd (passes E v n od sd actions w)) \<and>
   dirs (snd (generate E v n od sd actions cb w)) = dirs (snd (passes E v n od sd actions w)) \<and>
   cfg (snd (generate E v n od sd actions cb w)) = cfg (snd (passes E v n od sd actions w))"
  using stepsD [OF gen_frame_passes, of w E v n od sd actions]
  by (simp add: generate_apply finish_apply split: sum.splits)

lemma attach_ok:
  "model w = JObj m \<Longrightarrow>
   \<exists>m'. for_of ks (\<lambda>key. assign_model key (f key)) w = (Inr (), w\<lparr>model := JObj m'\<rparr>)"
proof (induction ks arbitrary: w m)
  case Nil
  then show ?case by (auto simp: run_simps intro: exI [of _ m])
next
  case (Cons k ks)
  let ?w1 = "w\<lparr>model := JObj (obj_set m k (f k))\<rparr>"
  have 1: "assign_model k (f k) w = (Inr (), ?w1)"
    using Cons.prems by (simp add: assign_model_def run_simps)
  have "model ?w1 = JObj (obj_set m k (f k))" by simp
  from Cons.IH [OF this] obtain m' where
    "for_of ks (\<lambda>key. assign_model key (f key)) ?w1 = (Inr (), ?w1\<lparr>model := JObj m'\<rparr>)" ..
  with 1 show ?case by (auto simp: run_simps)
qed

lemma decorate_verbose_undefined:
  assumes "model w = JObj m"
  shows "\<exists>w'. decorate E True Undefined w =
           (Inl (TypeError ''Cannot read property lambdas of undefined''), w') \<and> pre_frame w w' \<and>
           helpers w' = helpers w \<and> reg_partials w' = reg_partials w"
proof -
  let ?w1 = "w\<lparr>model := JObj (obj_set m ''generator'' Undefined)\<rparr>"
  let ?w2 = "?w1\<lparr>console := console ?w1 @ [''Processing lambdas '' @ join_commas (map fst (lambdas E))]\<rparr>"
  have "model ?w2 = JObj (obj_set m ''generator'' Undefined)" by simp
  from attach_ok [OF this] obtain m' where
    3: "for_of (map fst (lambdas E)) (\<lambda>key. assign_model key (obj_get (lambdas E) key)) ?w2 =
          (Inr (), ?w2\<lparr>model := JObj m'\<rparr>)" ..
  have "decorate E True Undefined w =
          (Inl (TypeError ''Cannot read property lambdas of undefined''), ?w2\<lparr>model := JObj m'\<rparr>)"
    using assms 3 by (simp add: decorate_def assign_model_def console_log_def run_simps)
  then show ?thesis by (simp add: pre_frame_def)
qed

lemmas run_defs =
  main_def on_transformed_def generate_def prelude_def clean_def passes_def fan_out_def decorate_def
  register_lambdas_def register_partials_def
  load_actions_def load_action_def make_directories_def render_action_def touch_pass_def touch_lines_def
  touch_file_def license_pass_def make_toplevel_def apiInfo_list_def perApi_item_def perApi_spec_def
  perApi_pass_def perPath_item_def perPath_spec_def perPath_pass_def perModel_item_def perModel_spec_def
  perModel_pass_def perOperation_item_def perOperation_api_def perOperation_spec_def perOperation_pass_def
  finish_def assign_model_def ff_readFileSync_def ff_createFile_def ff_mkdirp_def ff_rimraf_def
  fs_existsSync_def console_log_def registerHelper_def registerPartial_def hb_compile_def call_template_def
  template_member_def call_value_def tpl_def str_or_def opt_str_def outDir_of_def verbose_of_def
  set_configName_def gen_of_def subDir_of_def obj_get_def Let_def

lemmas ex_defs = ex_env_def ex_config_def ex_world_def ex_model_def ex_api1_def ex_api2_def ex_files_def
  ex_render_def ex_hits_def ex_dirname_def ex_pa_def

section \<open>The passes of a completed run\<close>

lemma seq_Inr:
  "fst (seq m n w) = Inr u \<Longrightarrow> fst (m w) = Inr () \<and> seq m n w = n (snd (m w))"
  by (auto simp: seq_result split: sum.splits)

lemma touch_pass_apply:
  "touch_pass E od sd w =
     (case touch (cfg w) of
        None \<Rightarrow> (Inr (), w)
      | Some t \<Rightarrow> if t = [] then (Inr (), w) else (Inl (TypeError ''value is not a function''), w))"
  by (simp add: touch_pass_def hb_compile_def call_value_def template_member_def run_simps
           split: option.splits)

lemma license_pass_apply:
  "license_pass E od sd w =
     (case files w (license_source E (cfg w)) of
        None \<Rightarrow> (Inl (ENOENT (license_source E (cfg w))), w)
      | Some c \<Rightarrow>
          (Inr (), w\<lparr>files := (files w)(path_join E [od, sd, ''LICENSE''] \<mapsto> c),
                      written := written w @ [(path_join E [od, sd, ''LICENSE''], c)]\<rparr>))"
  by (simp add: license_pass_def license_source_def tpl_def ff_readFileSync_def ff_createFile_def
        run_simps split: option.splits)

lemma quasi_same_fs [simp]: "quasi same_fs"
  by (simp add: quasi_def same_fs_def)

lemma same_fs_make_directories: "steps same_fs (make_directories E od sd)"
  unfolding make_directories_def ff_mkdirp_def
  by (intro steps_intros) (simp_all add: same_fs_def)

lemma render_action_one:
  assumes "fst (render_action E v od sd a w) = Inr ()"
  shows "\<exists>p c. written (snd (render_action E v od sd a w)) = written w @ [(p, c)] \<and>
               files (snd (render_action E v od sd a w)) = (files w)(p \<mapsto> c)"
  using assms
  by (auto simp: render_action_def hb_compile_def call_template_def ff_createFile_def console_log_def
        run_simps split: option.splits sum.splits if_splits)

lemma for_of_one_each:
  assumes one: "\<And>x w. fst (f x w) = Inr () \<Longrightarrow>
            \<exists>p c. written (snd (f x w)) = written w @ [(p, c)] \<and> files (snd (f x w)) = (files w)(p \<mapsto> c)"
  shows "fst (for_of xs f w) = Inr () \<Longrightarrow>
         \<exists>ws. length ws = length xs \<and> written (snd (for_of xs f w)) = written w @ ws \<and>
              files (snd (for_of xs f w)) = files w ++ map_of (rev ws)"
proof (induction xs arbitrary: w)
  case Nil
  then show ?case by (simp add: ret_apply)
next
  case (Cons x xs)
  from Cons.prems have a: "fst (f x w) = Inr ()" and b: "for_of (x # xs) f w = for_of xs f (snd (f x w))"
    using seq_Inr [of "f x" "for_of xs f" w] by simp_all
  from one [OF a] obtain p c where pc: "written (snd (f x w)) = written w @ [(p, c)]"
    "files (snd (f x w)) = (files w)(p \<mapsto> c)" by blast
  from Cons.prems b have "fst (for_of xs f (snd (f x w))) = Inr ()" by simp
  from Cons.IH [OF this] obtain ws where ws: "length ws = length xs"
    "written (snd (for_of xs f (snd (f x w)))) = written (snd (f x w)) @ ws"
    "files (snd (for_of xs f (snd (f x w)))) = files (snd (f x w)) ++ map_of (rev ws)" by blast
  have "length ((p, c) # ws) = length (x # xs)" using ws by simp
  moreover have "written (snd (for_of (x # xs) f w)) = written w @ ((p, c) # ws)"
    using b ws pc by simp
  moreover have "files (snd (for_of (x # xs) f w)) = files w ++ map_of (rev ((p, c) # ws))"
    using b ws pc by (auto simp: fun_eq_iff map_add_def split: option.splits)
  ultimately show ?case by blast
qed

lemma prelude_actions:
  "fst (prelude E v n g mdl w) = Inr actions \<Longrightarrow>
   actions = transformations (cfg (snd (prelude E v n g mdl w)))"
  by (auto simp: prelude_def load_actions_def seq_result bind_result gets_apply split: sum.splits)

lemma gen_frame_actions:
  "steps gen_frame (for_of actions (render_action E v od sd))"
  by (intro steps_for_of gen_frame_render_action) simp

lemma passes_Inr:
  assumes "fst (passes E v n od sd actions w) = Inr ()"
  shows "\<exists>wa wb wc.
           make_directories E od sd w = (Inr (), wa) \<and>
           for_of actions (render_action E v od sd) wa = (Inr (), wb) \<and>
           touch_pass E od sd wb = (Inr (), wb) \<and>
           license_pass E od sd wb = (Inr (), wc) \<and>
           fan_out E v n od sd wc = (Inr (), snd (passes E v n od sd actions w))"
proof -
  let ?fa = "for_of actions (render_action E v od sd)"
  let ?r4 = "fan_out E v n od sd"
  let ?r3 = "seq (license_pass E od sd) ?r4"
  let ?r2 = "seq (touch_pass E od sd) ?r3"
  let ?r1 = "seq ?fa ?r2"
  have 0: "passes E v n od sd actions w = seq (make_directories E od sd) ?r1 w"
    by (simp add: passes_def)
  obtain wa where wa: "make_directories E od sd w = (Inr (), wa)" and 1: "passes E v n od sd actions w = ?r1 wa"
    using seq_Inr [of "make_directories E od sd" ?r1 w] assms 0
    by (cases "make_directories E od sd w") auto
  obtain wb where wb: "?fa wa = (Inr (), wb)" and 2: "?r1 wa = ?r2 wb"
    using seq_Inr [of ?fa ?r2 wa] assms 1 by (cases "?fa wa") auto
  obtain wb' where wb': "touch_pass E od sd wb = (Inr (), wb')" and 3: "?r2 wb = ?r3 wb'"
    using seq_Inr [of "touch_pass E od sd" ?r3 wb] assms 1 2 by (cases "touch_pass E od sd wb") auto
  have e: "wb' = wb"
    using wb' by (auto simp: touch_pass_apply split: option.splits if_splits)
  obtain wc where wc: "license_pass E od sd wb = (Inr (), wc)" and 4: "?r3 wb = ?r4 wc"
    using seq_Inr [of "license_pass E od sd" ?r4 wb] assms 1 2 3 e
    by (cases "license_pass E od sd wb") auto
  have "?r4 wc = (Inr (), snd (passes E v n od sd actions w))"
    using assms 1 2 3 4 e by (intro prod_eqI) simp_all
  with wa wb wb' e wc show ?thesis by blast
qed

lemma load_action_Inr:
  assumes "fst (load_action E v cn t w) = Inr ()"
  shows "cfg (snd (load_action E v cn t w)) =
           (cfg w)\<lparr>transformations := (transformations (cfg w))
              [t := load_tx E (files w) (templateDir (cfg w)) cn (transformations (cfg w) ! t)]\<rparr> \<and>
         files (snd (load_action E v cn t w)) = files w"
proof (cases "tx_input (transformations (cfg w) ! t)")
  case None
  then show ?thesis by (simp add: load_action_def run_simps load_tx_def)
next
  case (Some inp)
  show ?thesis
  proof (cases "inp = []")
    case True
    with Some show ?thesis by (simp add: load_action_def run_simps load_tx_def)
  next
    case False
    with Some assms obtain src where "files w (tpl E (templateDir (cfg w)) [cn, inp]) = Some src"
      by (cases "files w (tpl E (templateDir (cfg w)) [cn, inp])"; cases v)
         (auto simp: load_action_def run_simps ff_readFileSync_def console_log_def)
    with Some False show ?thesis
      by (cases v) (simp_all add: load_action_def run_simps ff_readFileSync_def console_log_def load_tx_def)
  qed
qed

lemma load_loop:
  assumes "fst (for_of [i..<n] (load_action E v cn) w) = Inr ()"
      and "n = length (transformations (cfg w))" and "i \<le> n"
  shows "transformations (cfg (snd (for_of [i..<n] (load_action E v cn) w))) =
           take i (transformations (cfg w)) @
           map (load_tx E (files w) (templateDir (cfg w)) cn) (drop i (transformations (cfg w)))"
  using assms
proof (induction "n - i" arbitrary: i w)
  case 0
  then show ?case by (simp add: ret_apply)
next
  case (Suc d)
  let ?f = "load_action E v cn"
  let ?txs = "transformations (cfg w)"
  let ?ld = "load_tx E (files w) (templateDir (cfg w)) cn"
  let ?w1 = "snd (?f i w)"
  have lt: "i < n" using Suc.hyps(2) by simp
  then have u: "[i..<n] = i # [Suc i..<n]" by (simp add: upt_conv_Cons)
  from Suc.prems(1) have a: "fst (?f i w) = Inr ()"
    and b: "for_of [i..<n] ?f w = for_of [Suc i..<n] ?f ?w1"
    using seq_Inr [of "?f i" "for_of [Suc i..<n] ?f" w] unfolding u by simp_all
  from load_action_Inr [OF a] have c: "cfg ?w1 = (cfg w)\<lparr>transformations := ?txs[i := ?ld (?txs ! i)]\<rparr>"
    and f: "files ?w1 = files w" by simp_all
  have t1: "transformations (cfg ?w1) = ?txs[i := ?ld (?txs ! i)]" and td: "templateDir (cfg ?w1) = templateDir (cfg w)"
    by (simp_all add: c)
  have "d = n - Suc i" using Suc.hyps(2) by simp
  moreover have "fst (for_of [Suc i..<n] ?f ?w1) = Inr ()" using Suc.prems(1) b by simp
  moreover have "n = length (transformations (cfg ?w1))" using Suc.prems(2) t1 by simp
  moreover have "Suc i \<le> n" using lt by simp
  ultimately have "transformations (cfg (snd (for_of [Suc i..<n] ?f ?w1))) =
           take (Suc i) (transformations (cfg ?w1)) @
           map (load_tx E (files ?w1) (templateDir (cfg ?w1)) cn) (drop (Suc i) (transformations (cfg ?w1)))"
    by (rule Suc.hyps(1))
  also have "\<dots> = take (Suc i) (?txs[i := ?ld (?txs ! i)]) @ map ?ld (drop (Suc i) ?txs)"
    by (simp add: t1 td f)
  also have "take (Suc i) (?txs[i := ?ld (?txs ! i)]) = take i ?txs @ [?ld (?txs ! i)]"
    using lt Suc.prems(2) by (simp add: take_Suc_conv_app_nth)
  also have "(take i ?txs @ [?ld (?txs ! i)]) @ map ?ld (drop (Suc i) ?txs) = take i ?txs @ map ?ld (drop i ?txs)"
    using lt Suc.prems(2) by (simp add: Cons_nth_drop_Suc [symmetric])
  finally show ?case using b by simp
qed

lemma load_actions_Inr:
  assumes "fst (load_actions E v cn w) = Inr actions"
  shows "transformations (cfg (snd (load_actions E v cn w))) =
           map (load_tx E (files w) (templateDir (cfg w)) cn) (transformations (cfg w))"
proof -
  let ?n = "length (transformations (cfg w))"
  let ?l = "for_of [0..<?n] (load_action E v cn)"
  have e: "load_actions E v cn w =
       (case fst (?l w) of Inl e \<Rightarrow> (Inl e, snd (?l w))
        | Inr u \<Rightarrow> (Inr (transformations (cfg (snd (?l w)))), snd (?l w)))"
    by (simp add: load_actions_def bind_result seq_result gets_apply split: sum.splits)
  with assms have c: "fst (?l w) = Inr ()" by (cases "fst (?l w)") auto
  from load_loop [OF c] have "transformations (cfg (snd (?l w))) =
           map (load_tx E (files w) (templateDir (cfg w)) cn) (transformations (cfg w))"
    by simp
  with e c show ?thesis by simp
qed

lemma quasi_same_cfg_files [simp]: "quasi same_cfg_files"
  by (simp add: quasi_def same_cfg_files_def)

lemma same_cfg_files_before_load:
  "steps same_cfg_files
     (seq (modify (\<lambda>w. w\<lparr>model := mdl\<rparr>))
     (seq (decorate E v g) (seq (register_lambdas v g) (register_partials E v n))))"
  unfolding decorate_def register_lambdas_def register_partials_def assign_model_def console_log_def
    registerHelper_def registerPartial_def
  by (intro steps_intros) (simp_all add: same_cfg_files_def)

lemma seq_assoc: "seq (seq a b) c = seq a (seq b c)"
  by (rule ext) (simp add: seq_result split: sum.splits)

lemma prelude_Inr:
  assumes "fst (prelude E v n g mdl w) = Inr actions"
  shows "transformations (cfg (snd (prelude E v n g mdl w))) =
           map (load_tx E (files w) (templateDir (cfg w)) n) (transformations (cfg w))"
proof -
  let ?b = "seq (modify (\<lambda>w. w\<lparr>model := mdl\<rparr>))
     (seq (decorate E v g) (seq (register_lambdas v g) (register_partials E v n)))"
  have e: "prelude E v n g mdl = seq ?b (load_actions E v n)"
    by (simp add: prelude_def seq_assoc)
  from assms have "fst (?b w) = Inr ()" and r: "prelude E v n g mdl w = load_actions E v n (snd (?b w))"
    using seq_Inr [of ?b "load_actions E v n" w actions] unfolding e by simp_all
  have k: "cfg (snd (?b w)) = cfg w" "files (snd (?b w)) = files w"
    using stepsD [OF same_cfg_files_before_load, of w mdl E v g n] by (simp_all add: same_cfg_files_def)
  have "fst (load_actions E v n (snd (?b w))) = Inr actions" using assms r by simp
  from load_actions_Inr [OF this] show ?thesis using r k by simp
qed

section \<open>The loops of the fan-out passes\<close>

lemma cApi_lookup:
  "get_prop (cApi dflts pa toplevel api) k =
     Inr (case map_of (own_props api) k of Some v \<Rightarrow> v | None \<Rightarrow>
         (case map_of (own_props toplevel) k of Some v \<Rightarrow> v | None \<Rightarrow>
         (case map_of (own_props (js_or (fo_defaults pa) (JObj []))) k of Some v \<Rightarrow> v | None \<Rightarrow>
          obj_get dflts k)))"
  by (simp add: cApi_def obj_get_def map_of_object_assign map_add_def split: option.splits)

lemma perModel_item_step:
  assumes "model w = JObj m'" and "fst (perModel_item E v od sd pm fnT tmpl item w) = Inr ()"
  shows "\<exists>pc. model (snd (perModel_item E v od sd pm fnT tmpl item w)) =
                 JObj (obj_set m' ''models'' (JArr [effModel item pm])) \<and>
              written (snd (perModel_item E v od sd pm fnT tmpl item w)) = written w @ [pc] \<and>
              files (snd (perModel_item E v od sd pm fnT tmpl item w)) = (files w)(fst pc \<mapsto> snd pc) \<and>
              helpers (snd (perModel_item E v od sd pm fnT tmpl item w)) = helpers w \<and>
              reg_partials (snd (perModel_item E v od sd pm fnT tmpl item w)) = reg_partials w \<and>
              cfg (snd (perModel_item E v od sd pm fnT tmpl item w)) = cfg w \<and>
              rendered_as E (helpers w) (reg_partials w) od sd fnT tmpl
                (JObj (obj_set m' ''models'' (JArr [effModel item pm]))) pc"
  using assms
  by (auto simp: perModel_item_def assign_model_def call_template_def ff_createFile_def console_log_def
        run_simps obj_set_twice rendered_as_def split: sum.splits if_splits)

lemma perOperation_item_step:
  assumes "model w = JObj m'" and "fst (perOperation_item E v od sd po fnT tmpl operation w) = Inr ()"
  shows "\<exists>pc. model (snd (perOperation_item E v od sd po fnT tmpl operation w)) =
                 JObj (obj_set m' ''operations'' (JArr [operation])) \<and>
              written (snd (perOperation_item E v od sd po fnT tmpl operation w)) = written w @ [pc] \<and>
              files (snd (perOperation_item E v od sd po fnT tmpl operation w)) = (files w)(fst pc \<mapsto> snd pc) \<and>
              helpers (snd (perOperation_item E v od sd po fnT tmpl operation w)) = helpers w \<and>
              reg_partials (snd (perOperation_item E v od sd po fnT tmpl operation w)) = reg_partials w \<and>
              cfg (snd (perOperation_item E v od sd po fnT tmpl operation w)) = cfg w \<and>
              rendered_as E (helpers w) (reg_partials w) od sd fnT tmpl
                (JObj (obj_set m' ''operations'' (JArr [operation]))) pc"
  using assms
  by (auto simp: perOperation_item_def assign_model_def call_template_def ff_createFile_def console_log_def
        run_simps obj_set_twice rendered_as_def split: sum.splits if_splits)

lemma same_but_refl: "same_but k m m"
  by (simp add: same_but_def)

lemma same_but_set: "same_but k m m' \<Longrightarrow> same_but k m (obj_set m' k X)"
  by (simp add: same_but_def obj_set_twice)

lemma pass_result_nil: "model w = JObj m' \<Longrightarrow> same_but k m m' \<Longrightarrow> pass_result k m w w []"
  by (auto simp: pass_result_def)

lemma pass_result_append:
  "pass_result k m w w1 ws1 \<Longrightarrow> pass_result k m w1 w2 ws2 \<Longrightarrow> pass_result k m w w2 (ws1 @ ws2)"
  by (auto simp: pass_result_def map_add_assoc)

lemma for_of_fanned:
  assumes step: "\<And>x w m'. model w = JObj m' \<Longrightarrow> fst (f x w) = Inr () \<Longrightarrow>
     \<exists>pc. model (snd (f x w)) = JObj (obj_set m' k (val x)) \<and>
          written (snd (f x w)) = written w @ [pc] \<and>
          files (snd (f x w)) = (files w)(fst pc \<mapsto> snd pc) \<and>
          helpers (snd (f x w)) = helpers w \<and> reg_partials (snd (f x w)) = reg_partials w \<and>
          cfg (snd (f x w)) = cfg w \<and>
          rendered_as E (helpers w) (reg_partials w) od sd fnT tmpl (JObj (obj_set m' k (val x))) pc"
  shows "model w = JObj m' \<Longrightarrow> same_but k m m' \<Longrightarrow> fst (for_of xs f w) = Inr () \<Longrightarrow>
     \<exists>ws. pass_result k m w (snd (for_of xs f w)) ws \<and>
          list_all2 (\<lambda>pc x. rendered_as E (helpers w) (reg_partials w) od sd fnT tmpl
                              (JObj (obj_set m k (val x))) pc) ws xs"
proof (induction xs arbitrary: w m')
  case Nil
  then show ?case
    using pass_result_nil [of w m' k m] by (auto simp: ret_apply)
next
  case (Cons x xs)
  let ?w1 = "snd (f x w)"
  from Cons.prems have a: "fst (f x w) = Inr ()" and b: "for_of (x # xs) f w = for_of xs f ?w1"
    using seq_Inr [of "f x" "for_of xs f" w] by simp_all
  from step [OF Cons.prems(1) a] obtain pc where pc:
    "model ?w1 = JObj (obj_set m' k (val x))" "written ?w1 = written w @ [pc]"
    "files ?w1 = (files w)(fst pc \<mapsto> snd pc)" "helpers ?w1 = helpers w"
    "reg_partials ?w1 = reg_partials w" "cfg ?w1 = cfg w"
    "rendered_as E (helpers w) (reg_partials w) od sd fnT tmpl (JObj (obj_set m' k (val x))) pc"
    by blast
  have sb: "same_but k m (obj_set m' k (val x))"
    using Cons.prems(2) by (rule same_but_set)
  have eq: "obj_set m' k (val x) = obj_set m k (val x)"
    using Cons.prems(2) by (simp add: same_but_def)
  have 1: "pass_result k m w ?w1 [pc]"
    using pc sb by (cases pc) (auto simp: pass_result_def)
  have "fst (for_of xs f ?w1) = Inr ()" using Cons.prems(3) b by simp
  from Cons.IH [OF pc(1) sb this] obtain ws where
    ws: "pass_result k m ?w1 (snd (for_of xs f ?w1)) ws"
    "list_all2 (\<lambda>pc x. rendered_as E (helpers ?w1) (reg_partials ?w1) od sd fnT tmpl
                              (JObj (obj_set m k (val x))) pc) ws xs"
    by blast
  have "pass_result k m w (snd (for_of (x # xs) f w)) ([pc] @ ws)"
    using pass_result_append [OF 1 ws(1)] b by simp
  moreover have "list_all2 (\<lambda>pc x. rendered_as E (helpers w) (reg_partials w) od sd fnT tmpl
                              (JObj (obj_set m k (val x))) pc) ([pc] @ ws) (x # xs)"
    using ws(2) pc(4,5,7) eq by simp
  ultimately show ?case by blast
qed

lemma bind_lift_Inr: "bind (lift (Inr x)) f = f x"
  by (rule ext) (simp add: run_simps)

lemma effModel_lookup:
  "get_prop (effModel item pm) k =
     Inr (case map_of (own_props (js_or (fo_defaults pm) (JObj []))) k of
            Some v \<Rightarrow> v
          | None \<Rightarrow> obj_get (own_props item) k)"
  by (simp add: effModel_def obj_get_def map_of_object_assign map_add_def split: option.splits)

lemma perModel_spec_apply:
  "perModel_spec E v n od sd cModels pm w =
     (case files w (tpl E (templateDir (cfg w)) [n, fo_input pm]) of
        None \<Rightarrow> (Inl (ENOENT (tpl E (templateDir (cfg w)) [n, fo_input pm])), w)
      | Some src \<Rightarrow>
          (case iter cModels of
             Inl e \<Rightarrow> (Inl e, w)
           | Inr items \<Rightarrow> for_of items (perModel_item E v od sd pm (fo_output pm) src) w))"
  by (simp add: perModel_spec_def hb_compile_def ff_readFileSync_def run_simps
           split: option.splits sum.splits)

lemma perModel_pass_apply:
  assumes "model w = JObj m" and "perModel (cfg w) = Some specs"
  shows "perModel_pass E v n od sd w =
           for_of specs (perModel_spec E v n od sd (obj_get m ''models'')) w"
  using assms
  by (simp add: perModel_pass_def bind_apply gets_apply lift_apply clone_id)

lemma perOperation_api_Inr:
  assumes "fst (perOperation_api E v n od sd po api w) = Inr ()"
  shows "\<exists>src. files w (tpl E (templateDir (cfg w)) [n, fo_input po]) = Some src \<and>
           perOperation_api E v n od sd po api w =
             for_of (operations_of api) (perOperation_item E v od sd po (fo_output po) src) w"
  using assms
  by (auto simp: perOperation_api_def operations_of_def hb_compile_def ff_readFileSync_def run_simps
        Let_def split: sum.splits option.splits)

lemma apiInfo_list_state: "snd (apiInfo_list field w) = w"
  by (simp add: apiInfo_list_def run_simps split: sum.splits)

lemma operation_file_cong:
  "helpers w' = helpers w \<Longrightarrow> reg_partials w' = reg_partials w \<Longrightarrow>
   operation_file E w' od sd po m src = operation_file E w od sd po m src"
  by (simp add: operation_file_def fun_eq_iff)

lemma for_of_apis:
  assumes "model w = JObj m'" and "same_but ''operations'' m m'"
      and "fst (for_of apis (perOperation_api E v n od sd po) w) = Inr ()"
  shows "\<exists>ws. pass_result ''operations'' m w (snd (for_of apis (perOperation_api E v n od sd po) w)) ws \<and>
          list_all2 (\<lambda>pc operation. \<exists>src. operation_file E w od sd po m src pc operation)
            ws (concat (map operations_of apis)) \<and>
          (\<forall>src0. files w (tpl E (templateDir (cfg w)) [n, fo_input po]) = Some src0 \<and>
                  tpl E (templateDir (cfg w)) [n, fo_input po] \<notin> fst ` set ws \<longrightarrow>
             list_all2 (operation_file E w od sd po m src0) ws (concat (map operations_of apis)))"
  using assms
proof (induction apis arbitrary: w m')
  case Nil
  then show ?case
    using pass_result_nil [of w m' "''operations''" m] by (auto simp: ret_apply)
next
  case (Cons api apis)
  let ?f = "perOperation_api E v n od sd po"
  let ?w1 = "snd (?f api w)"
  let ?t = "tpl E (templateDir (cfg w)) [n, fo_input po]"
  from Cons.prems have a: "fst (?f api w) = Inr ()" and b: "for_of (api # apis) ?f w = for_of apis ?f ?w1"
    using seq_Inr [of "?f api" "for_of apis ?f" w] by simp_all
  from perOperation_api_Inr [OF a] obtain src where
    src: "files w ?t = Some src" and
    e: "?f api w = for_of (operations_of api) (perOperation_item E v od sd po (fo_output po) src) w"
    by blast
  let ?g = "perOperation_item E v od sd po (fo_output po) src"
  have "fst (for_of (operations_of api) ?g w) = Inr ()" using a e by simp
  from for_of_fanned [of ?g "''operations''" "\<lambda>operation. JArr [operation]" E od sd "fo_output po" src
      w m' m "operations_of api", OF perOperation_item_step Cons.prems(1,2) this]
  obtain ws1 where ws1: "pass_result ''operations'' m w ?w1 ws1"
    "list_all2 (operation_file E w od sd po m src) ws1 (operations_of api)"
    unfolding operation_file_def using e by auto
  from ws1(1) obtain m1 where m1: "model ?w1 = JObj m1" "same_but ''operations'' m m1"
    and k1: "helpers ?w1 = helpers w" "reg_partials ?w1 = reg_partials w" "cfg ?w1 = cfg w"
    and f1: "files ?w1 = files w ++ map_of (rev ws1)"
    by (auto simp: pass_result_def)
  have "fst (for_of apis ?f ?w1) = Inr ()" using Cons.prems(3) b by simp
  from Cons.IH [OF m1 this] obtain ws2 where
    ws2: "pass_result ''operations'' m ?w1 (snd (for_of apis ?f ?w1)) ws2"
      "list_all2 (\<lambda>pc operation. \<exists>src. operation_file E ?w1 od sd po m src pc operation)
            ws2 (concat (map operations_of apis))"
      "\<forall>src0. files ?w1 (tpl E (templateDir (cfg ?w1)) [n, fo_input po]) = Some src0 \<and>
                  tpl E (templateDir (cfg ?w1)) [n, fo_input po] \<notin> fst ` set ws2 \<longrightarrow>
             list_all2 (operation_file E ?w1 od sd po m src0) ws2 (concat (map operations_of apis))"
    by blast
  have oc: "operation_file E ?w1 od sd po m = operation_file E w od sd po m"
    using operation_file_cong [OF k1(1,2)] by (rule ext)
  have 1: "pass_result ''operations'' m w (snd (for_of (api # apis) ?f w)) (ws1 @ ws2)"
    using pass_result_append [OF ws1(1) ws2(1)] b by simp
  have "list_all2 (\<lambda>pc operation. \<exists>src. operation_file E w od sd po m src pc operation) ws1 (operations_of api)"
    using ws1(2) by (auto elim!: list_all2_mono)
  then have 2: "list_all2 (\<lambda>pc operation. \<exists>src. operation_file E w od sd po m src pc operation)
            (ws1 @ ws2) (concat (map operations_of (api # apis)))"
    using ws2(2) unfolding oc by (simp add: list_all2_appendI)
  have 3: "list_all2 (operation_file E w od sd po m src0) (ws1 @ ws2) (concat (map operations_of (api # apis)))"
    if h: "files w ?t = Some src0 \<and> ?t \<notin> fst ` set (ws1 @ ws2)" for src0
  proof -
    have s: "src0 = src" using h src by simp
    have n1: "?t \<notin> fst ` set ws1" and n2: "?t \<notin> fst ` set ws2" using h by auto
    have "map_of (rev ws1) ?t = None" using n1 by (simp add: map_of_eq_None_iff)
    then have "files ?w1 ?t = Some src0" using f1 h by (simp add: map_add_def)
    moreover note n2
    ultimately have "list_all2 (operation_file E ?w1 od sd po m src0) ws2 (concat (map operations_of apis))"
      using ws2(3) k1(3) by simp
    then show ?thesis
      using ws1(2) s unfolding oc by (simp add: list_all2_appendI)
  qed
  from 1 2 3 show ?case by blast
qed

lemma perApi_item_step:
  assumes "fst (perApi_item E v od sd pa fnT tmpl toplevel api w) = Inr ()"
  shows "\<exists>pc. written (snd (perApi_item E v od sd pa fnT tmpl toplevel api w)) = written w @ [pc] \<and>
              files (snd (perApi_item E v od sd pa fnT tmpl toplevel api w)) = (files w)(fst pc \<mapsto> snd pc) \<and>
              model (snd (perApi_item E v od sd pa fnT tmpl toplevel api w)) = model w \<and>
              helpers (snd (perApi_item E v od sd pa fnT tmpl toplevel api w)) = helpers w \<and>
              reg_partials (snd (perApi_item E v od sd pa fnT tmpl toplevel api w)) = reg_partials w \<and>
              cfg (snd (perApi_item E v od sd pa fnT tmpl toplevel api w)) = cfg w \<and>
              rendered_as E (helpers w) (reg_partials w) od sd fnT tmpl
                (cApi (defaults (cfg w)) pa toplevel api) pc"
  using assms
  by (auto simp: perApi_item_def call_template_def ff_createFile_def console_log_def
        run_simps rendered_as_def Let_def split: sum.splits if_splits)

lemma for_of_items:
  assumes step: "\<And>x w. fst (f x w) = Inr () \<Longrightarrow>
     \<exists>pc. written (snd (f x w)) = written w @ [pc] \<and>
          files (snd (f x w)) = (files w)(fst pc \<mapsto> snd pc) \<and>
          model (snd (f x w)) = model w \<and>
          helpers (snd (f x w)) = helpers w \<and> reg_partials (snd (f x w)) = reg_partials w \<and>
          cfg (snd (f x w)) = cfg w \<and>
          rendered_as E (helpers w) (reg_partials w) od sd fnT tmpl (ctx (cfg w) x) pc"
  shows "fst (for_of xs f w) = Inr () \<Longrightarrow>
     \<exists>ws. written (snd (for_of xs f w)) = written w @ ws \<and>
          files (snd (for_of xs f w)) = files w ++ map_of (rev ws) \<and>
          model (snd (for_of xs f w)) = model w \<and>
          helpers (snd (for_of xs f w)) = helpers w \<and>
          reg_partials (snd (for_of xs f w)) = reg_partials w \<and>
          cfg (snd (for_of xs f w)) = cfg w \<and>
          list_all2 (\<lambda>pc x. rendered_as E (helpers w) (reg_partials w) od sd fnT tmpl (ctx (cfg w) x) pc) ws xs"
proof (induction xs arbitrary: w)
  case Nil
  then show ?case by (simp add: ret_apply)
next
  case (Cons x xs)
  let ?w1 = "snd (f x w)"
  from Cons.prems have a: "fst (f x w) = Inr ()" and b: "for_of (x # xs) f w = for_of xs f ?w1"
    using seq_Inr [of "f x" "for_of xs f" w] by simp_all
  from step [OF a] obtain pc where pc:
    "written ?w1 = written w @ [pc]" "files ?w1 = (files w)(fst pc \<mapsto> snd pc)"
    "model ?w1 = model w" "helpers ?w1 = helpers w"
    "reg_partials ?w1 = reg_partials w" "cfg ?w1 = cfg w"
    "rendered_as E (helpers w) (reg_partials w) od sd fnT tmpl (ctx (cfg w) x) pc"
    by blast
  have "fst (for_of xs f ?w1) = Inr ()" using Cons.prems b by simp
  from Cons.IH [OF this] obtain ws where
    ws: "written (snd (for_of xs f ?w1)) = written ?w1 @ ws"
    "files (snd (for_of xs f ?w1)) = files ?w1 ++ map_of (rev ws)"
    "model (snd (for_of xs f ?w1)) = model ?w1"
    "helpers (snd (for_of xs f ?w1)) = helpers ?w1"
    "reg_partials (snd (for_of xs f ?w1)) = reg_partials ?w1"
    "cfg (snd (for_of xs f ?w1)) = cfg ?w1"
    "list_all2 (\<lambda>pc x. rendered_as E (helpers ?w1) (reg_partials ?w1) od sd fnT tmpl (ctx (cfg ?w1) x) pc) ws xs"
    by blast
  have f: "files (snd (for_of (x # xs) f w)) = files w ++ map_of (rev (pc # ws))"
    unfolding b ws(2) pc(2) by (cases pc) (simp add: fun_eq_iff map_add_def split: option.splits)
  show ?case
    apply (rule exI [of _ "pc # ws"])
    unfolding b using ws pc f b apply simp
    done
qed

lemma perApi_spec_Inr:
  assumes "fst (perApi_spec E v n od sd toplevel pa w) = Inr ()"
  shows "\<exists>src apis. files w (tpl E (templateDir (cfg w)) [n, fo_input pa]) = Some src \<and>
           apiInfo_list ''apis'' w = (Inr apis, w) \<and>
           perApi_spec E v n od sd toplevel pa w =
             for_of apis (perApi_item E v od sd pa (fo_output pa) src toplevel) w"
proof -
  obtain src where src: "files w (tpl E (templateDir (cfg w)) [n, fo_input pa]) = Some src"
    using assms
    by (cases "files w (tpl E (templateDir (cfg w)) [n, fo_input pa])")
       (auto simp: perApi_spec_def hb_compile_def ff_readFileSync_def run_simps)
  have e: "perApi_spec E v n od sd toplevel pa w =
       bind (apiInfo_list ''apis'') (\<lambda>apis. for_of apis (perApi_item E v od sd pa (fo_output pa) src toplevel)) w"
    using src by (simp add: perApi_spec_def hb_compile_def ff_readFileSync_def run_simps)
  obtain apis where apis: "apiInfo_list ''apis'' w = (Inr apis, w)"
    using assms apiInfo_list_state [of "''apis''" w] unfolding e
    by (cases "apiInfo_list ''apis'' w"; cases "fst (apiInfo_list ''apis'' w)")
       (auto simp: bind_apply)
  show ?thesis
    using src apis e by (simp add: bind_apply)
qed

lemma perApi_spec_result:
  assumes "fst (perApi_spec E v n od sd toplevel pa w) = Inr ()"
  shows "\<exists>src apis ws.
           files w (tpl E (templateDir (cfg w)) [n, fo_input pa]) = Some src \<and>
           apiInfo_list ''apis'' w = (Inr apis, w) \<and>
           written (snd (perApi_spec E v n od sd toplevel pa w)) = written w @ ws \<and>
           files (snd (perApi_spec E v n od sd toplevel pa w)) = files w ++ map_of (rev ws) \<and>
           model (snd (perApi_spec E v n od sd toplevel pa w)) = model w \<and>
           helpers (snd (perApi_spec E v n od sd toplevel pa w)) = helpers w \<and>
           reg_partials (snd (perApi_spec E v n od sd toplevel pa w)) = reg_partials w \<and>
           cfg (snd (perApi_spec E v n od sd toplevel pa w)) = cfg w \<and>
           list_all2 (\<lambda>pc api. rendered_as E (helpers w) (reg_partials w) od sd (fo_output pa) src
                        (cApi (defaults (cfg w)) pa toplevel api) pc) ws apis"
proof -
  from perApi_spec_Inr [OF assms] obtain src apis where
    s: "files w (tpl E (templateDir (cfg w)) [n, fo_input pa]) = Some src"
       "apiInfo_list ''apis'' w = (Inr apis, w)"
       "perApi_spec E v n od sd toplevel pa w =
             for_of apis (perApi_item E v od sd pa (fo_output pa) src toplevel) w"
    by blast
  let ?f = "perApi_item E v od sd pa (fo_output pa) src toplevel"
  have "fst (for_of apis ?f w) = Inr ()" using assms s(3) by simp
  from for_of_items [of ?f E od sd "fo_output pa" src "\<lambda>c api. cApi (defaults c) pa toplevel api" apis w,
        OF perApi_item_step this]
  obtain ws where ws: "written (snd (for_of apis ?f w)) = written w @ ws"
          "files (snd (for_of apis ?f w)) = files w ++ map_of (rev ws)"
          "model (snd (for_of apis ?f w)) = model w"
          "helpers (snd (for_of apis ?f w)) = helpers w"
          "reg_partials (snd (for_of apis ?f w)) = reg_partials w"
          "cfg (snd (for_of apis ?f w)) = cfg w"
          "list_all2 (\<lambda>pc api. rendered_as E (helpers w) (reg_partials w) od sd (fo_output pa) src
                        (cApi (defaults (cfg w)) pa toplevel api) pc) ws apis"
    by blast
  show ?thesis
    apply (rule exI [of _ src], rule exI [of _ apis], rule exI [of _ ws])
    using s ws apply simp
    done
qed

lemma perApi_pass_apply:
  assumes "model w = JObj m" and "perApi (cfg w) = Some specs"
  shows "perApi_pass E v n od sd w =
           for_of specs (perApi_spec E v n od sd (JObj (obj_delete m ''apiInfo''))) w"
  using assms make_toplevel_obj [OF assms(1)]
  by (simp add: perApi_pass_def bind_apply gets_apply)

lemma perOperation_pass_apply:
  assumes "perOperation (cfg w) = Some specs"
  shows "perOperation_pass E v n od sd w = for_of specs (perOperation_spec E v n od sd) w"
  using assms
  by (simp add: perOperation_pass_def bind_apply gets_apply)


lemma apiInfo_list_obj:
  assumes "model w = JObj m"
  shows "apiInfo_list field w =
     (case get_prop (obj_get m ''apiInfo'') field of
        Inl e \<Rightarrow> (Inl e, w)
      | Inr xs \<Rightarrow> (case iter xs of Inl e \<Rightarrow> (Inl e, w) | Inr l \<Rightarrow> (Inr l, w)))"
  using assms by (simp add: apiInfo_list_def run_simps split: sum.splits)

lemma same_but_get:
  assumes "same_but k m m'" and "k' \<noteq> k"
  shows "obj_get m' k' = obj_get m k'"
proof -
  have "map_of (obj_set m' k Undefined) k' = map_of (obj_set m k Undefined) k'"
    using assms(1) by (simp add: same_but_def)
  then have "map_of m' k' = map_of m k'"
    using assms(2) by (simp add: map_of_obj_set)
  then show ?thesis by (simp add: obj_get_def)
qed

lemma same_but_trans: "same_but k m m1 \<Longrightarrow> same_but k m1 m2 \<Longrightarrow> same_but k m m2"
  by (simp add: same_but_def)

lemma same_but_sym: "same_but k m m1 \<Longrightarrow> same_but k m1 m"
  by (simp add: same_but_def)

lemma apiInfo_list_same_but:
  assumes "model w = JObj m0" and "model w1 = JObj m1" and "same_but ''operations'' m0 m1"
  shows "fst (apiInfo_list field w1) = fst (apiInfo_list field w)"
  using same_but_get [OF assms(3), of "''apiInfo''"]
  by (simp add: apiInfo_list_obj [OF assms(1)] apiInfo_list_obj [OF assms(2)] split: sum.splits)

lemma apiInfo_list_model:
  assumes "model w1 = model w"
  shows "fst (apiInfo_list field w1) = fst (apiInfo_list field w)"
  using assms by (simp add: apiInfo_list_def run_simps split: sum.splits)

lemma apiInfo_list_pair: "apiInfo_list field w = (fst (apiInfo_list field w), w)"
  using apiInfo_list_state [of field w] by (cases "apiInfo_list field w") simp

lemma for_of_perApi_specs:
  assumes "fst (for_of specs (perApi_spec E v n od sd toplevel) w) = Inr ()"
  shows "\<exists>wss. written (snd (for_of specs (perApi_spec E v n od sd toplevel) w)) = written w @ concat wss \<and>
           model (snd (for_of specs (perApi_spec E v n od sd toplevel) w)) = model w \<and>
           helpers (snd (for_of specs (perApi_spec E v n od sd toplevel) w)) = helpers w \<and>
           reg_partials (snd (for_of specs (perApi_spec E v n od sd toplevel) w)) = reg_partials w \<and>
           cfg (snd (for_of specs (perApi_spec E v n od sd toplevel) w)) = cfg w \<and>
           list_all2 (\<lambda>ws pa. \<exists>src apis. apiInfo_list ''apis'' w = (Inr apis, w) \<and>
               list_all2 (\<lambda>pc api. rendered_as E (helpers w) (reg_partials w) od sd (fo_output pa) src
                            (cApi (defaults (cfg w)) pa toplevel api) pc) ws apis) wss specs"
  using assms
proof (induction specs arbitrary: w)
  case Nil
  then show ?case by (simp add: ret_apply)
next
  case (Cons pa specs)
  let ?f = "perApi_spec E v n od sd toplevel"
  let ?w1 = "snd (?f pa w)"
  from Cons.prems have a: "fst (?f pa w) = Inr ()" and b: "for_of (pa # specs) ?f w = for_of specs ?f ?w1"
    using seq_Inr [of "?f pa" "for_of specs ?f" w] by simp_all
  from perApi_spec_result [OF a] obtain src apis ws where
    r: "apiInfo_list ''apis'' w = (Inr apis, w)"
       "written ?w1 = written w @ ws" "model ?w1 = model w" "helpers ?w1 = helpers w"
       "reg_partials ?w1 = reg_partials w" "cfg ?w1 = cfg w"
       "list_all2 (\<lambda>pc api. rendered_as E (helpers w) (reg_partials w) od sd (fo_output pa) src
                        (cApi (defaults (cfg w)) pa toplevel api) pc) ws apis"
    by blast
  have "fst (for_of specs ?f ?w1) = Inr ()" using Cons.prems b by simp
  from Cons.IH [OF this] obtain wss where
    i: "written (snd (for_of specs ?f ?w1)) = written ?w1 @ concat wss"
       "model (snd (for_of specs ?f ?w1)) = model ?w1"
       "helpers (snd (for_of specs ?f ?w1)) = helpers ?w1"
       "reg_partials (snd (for_of specs ?f ?w1)) = reg_partials ?w1"
       "cfg (snd (for_of specs ?f ?w1)) = cfg ?w1"
       "list_all2 (\<lambda>ws pa. \<exists>src apis. apiInfo_list ''apis'' ?w1 = (Inr apis, ?w1) \<and>
               list_all2 (\<lambda>pc api. rendered_as E (helpers ?w1) (reg_partials ?w1) od sd (fo_output pa) src
                            (cApi (defaults (cfg ?w1)) pa toplevel api) pc) ws apis) wss specs"
    by blast
  have al: "apiInfo_list ''apis'' ?w1 = (Inr apis', ?w1) \<longleftrightarrow> apiInfo_list ''apis'' w = (Inr apis', w)" for apis'
    using apiInfo_list_model [OF r(3), of "''apis''"]
      apiInfo_list_pair [of "''apis''" w] apiInfo_list_pair [of "''apis''" ?w1]
    by (metis fst_conv)
  have 1: "list_all2 (\<lambda>ws pa. \<exists>src apis. apiInfo_list ''apis'' w = (Inr apis, w) \<and>
               list_all2 (\<lambda>pc api. rendered_as E (helpers w) (reg_partials w) od sd (fo_output pa) src
                            (cApi (defaults (cfg w)) pa toplevel api) pc) ws apis) wss specs"
    using i(6) unfolding al r(4,5,6) .
  have 2: "\<exists>src apis. apiInfo_list ''apis'' w = (Inr apis, w) \<and>
               list_all2 (\<lambda>pc api. rendered_as E (helpers w) (reg_partials w) od sd (fo_output pa) src
                            (cApi (defaults (cfg w)) pa toplevel api) pc) ws apis"
    using r(1,7) by blast
  show ?case
    apply (rule exI [of _ "ws # wss"])
    unfolding b using i(1-5) r(2-6) 1 2 apply simp
    done
qed

lemma perOperation_spec_result:
  assumes "model w = JObj m'" and "same_but ''operations'' m m'"
      and "fst (perOperation_spec E v n od sd po w) = Inr ()"
  shows "\<exists>apis ws.
           apiInfo_list ''apis'' w = (Inr apis, w) \<and>
           pass_result ''operations'' m w (snd (perOperation_spec E v n od sd po w)) ws \<and>
           list_all2 (\<lambda>pc operation. \<exists>src. operation_file E w od sd po m src pc operation)
             ws (concat (map operations_of apis)) \<and>
           (\<forall>src0. files w (tpl E (templateDir (cfg w)) [n, fo_input po]) = Some src0 \<and>
                   tpl E (templateDir (cfg w)) [n, fo_input po] \<notin> fst ` set ws \<longrightarrow>
              list_all2 (operation_file E w od sd po m src0) ws (concat (map operations_of apis)))"
proof -
  obtain apis where apis: "apiInfo_list ''apis'' w = (Inr apis, w)"
    and e: "perOperation_spec E v n od sd po w = for_of apis (perOperation_api E v n od sd po) w"
    using assms(3) apiInfo_list_state [of "''apis''" w]
    by (cases "apiInfo_list ''apis'' w"; cases "fst (apiInfo_list ''apis'' w)")
       (auto simp: perOperation_spec_def bind_apply)
  have "fst (for_of apis (perOperation_api E v n od sd po) w) = Inr ()"
    using assms(3) e by simp
  from for_of_apis [OF assms(1,2) this] e apis show ?thesis by auto
qed

lemma for_of_perOperation_specs:
  assumes "model w = JObj m'" and "same_but ''operations'' m m'"
      and "fst (for_of specs (perOperation_spec E v n od sd) w) = Inr ()"
  shows "\<exists>wss. pass_result ''operations'' m w (snd (for_of specs (perOperation_spec E v n od sd) w)) (concat wss) \<and>
           list_all2 (\<lambda>ws po. \<exists>apis. apiInfo_list ''apis'' w = (Inr apis, w) \<and>
               list_all2 (\<lambda>pc operation. \<exists>src. operation_file E w od sd po m src pc operation)
                 ws (concat (map operations_of apis))) wss specs"
  using assms
proof (induction specs arbitrary: w m')
  case Nil
  then show ?case
    using pass_result_nil [of w m' "''operations''" m] by (auto simp: ret_apply)
next
  case (Cons po specs)
  let ?f = "perOperation_spec E v n od sd"
  let ?w1 = "snd (?f po w)"
  from Cons.prems have a: "fst (?f po w) = Inr ()" and b: "for_of (po # specs) ?f w = for_of specs ?f ?w1"
    using seq_Inr [of "?f po" "for_of specs ?f" w] by simp_all
  from perOperation_spec_result [OF Cons.prems(1,2) a] obtain apis ws where
    r: "apiInfo_list ''apis'' w = (Inr apis, w)"
       "pass_result ''operations'' m w ?w1 ws"
       "list_all2 (\<lambda>pc operation. \<exists>src. operation_file E w od sd po m src pc operation)
             ws (concat (map operations_of apis))"
    by blast
  from r(2) obtain m1 where m1: "model ?w1 = JObj m1" "same_but ''operations'' m m1"
    and k1: "helpers ?w1 = helpers w" "reg_partials ?w1 = reg_partials w"
    by (auto simp: pass_result_def)
  have "fst (for_of specs ?f ?w1) = Inr ()" using Cons.prems(3) b by simp
  from Cons.IH [OF m1 this] obtain wss where
    i: "pass_result ''operations'' m ?w1 (snd (for_of specs ?f ?w1)) (concat wss)"
       "list_all2 (\<lambda>ws po. \<exists>apis. apiInfo_list ''apis'' ?w1 = (Inr apis, ?w1) \<and>
               list_all2 (\<lambda>pc operation. \<exists>src. operation_file E ?w1 od sd po m src pc operation)
                 ws (concat (map operations_of apis))) wss specs"
    by blast
  have sb: "same_but ''operations'' m' m1"
    using same_but_trans [OF same_but_sym [OF Cons.prems(2)] m1(2)] .
  have al: "apiInfo_list ''apis'' ?w1 = (Inr apis', ?w1) \<longleftrightarrow> apiInfo_list ''apis'' w = (Inr apis', w)" for apis'
    using apiInfo_list_same_but [OF Cons.prems(1) m1(1) sb, of "''apis''"]
      apiInfo_list_pair [of "''apis''" w] apiInfo_list_pair [of "''apis''" ?w1]
    by (metis fst_conv)
  have oc: "operation_file E ?w1 od sd po' m = operation_file E w od sd po' m" for po'
    using operation_file_cong [OF k1] by (rule ext)
  have 1: "list_all2 (\<lambda>ws po. \<exists>apis. apiInfo_list ''apis'' w = (Inr apis, w) \<and>
               list_all2 (\<lambda>pc operation. \<exists>src. operation_file E w od sd po m src pc operation)
                 ws (concat (map operations_of apis))) wss specs"
    using i(2) unfolding al oc .
  have 2: "pass_result ''operations'' m w (snd (for_of (po # specs) ?f w)) (concat (ws # wss))"
    using pass_result_append [OF r(2) i(1)] b by simp
  have 3: "\<exists>apis. apiInfo_list ''apis'' w = (Inr apis, w) \<and>
               list_all2 (\<lambda>pc operation. \<exists>src. operation_file E w od sd po m src pc operation)
                 ws (concat (map operations_of apis))"
    using r(1,3) by blast
  show ?case
    apply (rule exI [of _ "ws # wss"])
    using 1 2 3 apply simp
    done
qed


lemma for_of_single: "for_of [x] f w = f x w"
  by (cases "f x w"; cases "fst (f x w)") (auto simp: seq_apply ret_apply)

lemma for_of_total: "(\<And>x w. fst (f x w) = Inr ()) \<Longrightarrow> fst (for_of xs f w) = Inr ()"
proof (induction xs arbitrary: w)
  case Nil
  then show ?case by (simp add: ret_apply)
next
  case (Cons x xs)
  have "fst (f x w) = Inr ()" by (rule Cons.prems)
  then show ?case
    using Cons.IH [OF Cons.prems, of "snd (f x w)"]
    by (cases "f x w") (auto simp: seq_apply)
qed

lemma perApi_spec_apply:
  "perApi_spec E v n od sd toplevel pa w =
     (case files w (tpl E (templateDir (cfg w)) [n, fo_input pa]) of
        None \<Rightarrow> (Inl (ENOENT (tpl E (templateDir (cfg w)) [n, fo_input pa])), w)
      | Some src \<Rightarrow>
          (case fst (apiInfo_list ''apis'' w) of
             Inl e \<Rightarrow> (Inl e, w)
           | Inr apis \<Rightarrow> for_of apis (perApi_item E v od sd pa (fo_output pa) src toplevel) w))"
  using apiInfo_list_state [of "''apis''" w]
  by (cases "apiInfo_list ''apis'' w")
     (simp add: perApi_spec_def hb_compile_def ff_readFileSync_def run_simps
           split: option.splits sum.splits)

lemmas fan_defs = cApi_def effModel_def object_assign_def assign_one_def js_or_def show_nat_small
  digit_char_def upt_conv_Cons

section \<open>The claims\<close>

text \<open>
  C1. With the model an object, the perApi pass is the loop over the specs of
  \<^verbatim>\<open>config.perApi\<close>, each run with the toplevel value of lines 109-110, the model without
  \<^verbatim>\<open>apiInfo\<close>. A pass that completes has written, for every spec in order, one file per
  item of \<^verbatim>\<open>apiInfo.apis\<close> in order, each rendered, path and body, against the context of
  line 115 for that spec and that item; and a spec that completes has done so with the
  template that its template file held when it began. Reading any field \<open>k\<close> of that
  context gives the item's own \<open>k\<close> when the item has it; otherwise the model's \<open>k\<close> when \<open>k\<close>
  is not \<^verbatim>\<open>apiInfo\<close> and the model has it; otherwise the \<open>k\<close> of the fan-out spec's defaults;
  otherwise the \<open>k\<close> of the global defaults (\<^verbatim>\<open>undefined\<close> when none has it).
\<close>

theorem perApi_context_precedence:
  assumes "model w = JObj m"
  shows "(perApi (cfg w) = Some specs \<longrightarrow>
            perApi_pass E v n od sd w =
              for_of specs (perApi_spec E v n od sd (JObj (obj_delete m ''apiInfo''))) w \<and>
            (fst (perApi_pass E v n od sd w) = Inr () \<longrightarrow>
               (\<exists>wss. written (snd (perApi_pass E v n od sd w)) = written w @ concat wss \<and>
                  list_all2 (\<lambda>ws pa. \<exists>src apis. apiInfo_list ''apis'' w = (Inr apis, w) \<and>
                      list_all2 (\<lambda>pc api. rendered_as E (helpers w) (reg_partials w) od sd (fo_output pa) src
                                   (cApi (defaults (cfg w)) pa (JObj (obj_delete m ''apiInfo'')) api) pc)
                        ws apis) wss specs))) \<and>
         (fst (perApi_spec E v n od sd (JObj (obj_delete m ''apiInfo'')) pa w) = Inr () \<longrightarrow>
            (\<exists>src apis ws.
               files w (tpl E (templateDir (cfg w)) [n, fo_input pa]) = Some src \<and>
               apiInfo_list ''apis'' w = (Inr apis, w) \<and>
               written (snd (perApi_spec E v n od sd (JObj (obj_delete m ''apiInfo'')) pa w)) = written w @ ws \<and>
               list_all2 (\<lambda>pc api. rendered_as E (helpers w) (reg_partials w) od sd (fo_output pa) src
                            (cApi (defaults (cfg w)) pa (JObj (obj_delete m ''apiInfo'')) api) pc) ws apis)) \<and>
         get_prop (cApi (defaults (cfg w)) pa (JObj (obj_delete m ''apiInfo'')) api) k =
           Inr (case map_of (own_props api) k of Some v \<Rightarrow> v | None \<Rightarrow>
               (case (if k = ''apiInfo'' then None else map_of m k) of Some v \<Rightarrow> v | None \<Rightarrow>
               (case map_of (own_props (js_or (fo_defaults pa) (JObj []))) k of Some v \<Rightarrow> v | None \<Rightarrow>
                obj_get (defaults (cfg w)) k)))"
proof (intro conjI impI)
  let ?top = "JObj (obj_delete m ''apiInfo'')"
  assume s: "perApi (cfg w) = Some specs"
  show e: "perApi_pass E v n od sd w = for_of specs (perApi_spec E v n od sd ?top) w"
    using perApi_pass_apply [OF assms s] .
  assume "fst (perApi_pass E v n od sd w) = Inr ()"
  then have "fst (for_of specs (perApi_spec E v n od sd ?top) w) = Inr ()"
    using e by simp
  from for_of_perApi_specs [OF this] e
  show "\<exists>wss. written (snd (perApi_pass E v n od sd w)) = written w @ concat wss \<and>
                  list_all2 (\<lambda>ws pa. \<exists>src apis. apiInfo_list ''apis'' w = (Inr apis, w) \<and>
                      list_all2 (\<lambda>pc api. rendered_as E (helpers w) (reg_partials w) od sd (fo_output pa) src
                                   (cApi (defaults (cfg w)) pa ?top api) pc)
                        ws apis) wss specs"
    by auto
next
  assume "fst (perApi_spec E v n od sd (JObj (obj_delete m ''apiInfo'')) pa w) = Inr ()"
  from perApi_spec_result [OF this]
  show "\<exists>src apis ws.
               files w (tpl E (templateDir (cfg w)) [n, fo_input pa]) = Some src \<and>
               apiInfo_list ''apis'' w = (Inr apis, w) \<and>
               written (snd (perApi_spec E v n od sd (JObj (obj_delete m ''apiInfo'')) pa w)) = written w @ ws \<and>
               list_all2 (\<lambda>pc api. rendered_as E (helpers w) (reg_partials w) od sd (fo_output pa) src
                            (cApi (defaults (cfg w)) pa (JObj (obj_delete m ''apiInfo'')) api) pc) ws apis"
    by blast
next
  show "get_prop (cApi (defaults (cfg w)) pa (JObj (obj_delete m ''apiInfo'')) api) k =
           Inr (case map_of (own_props api) k of Some v \<Rightarrow> v | None \<Rightarrow>
               (case (if k = ''apiInfo'' then None else map_of m k) of Some v \<Rightarrow> v | None \<Rightarrow>
               (case map_of (own_props (js_or (fo_defaults pa) (JObj []))) k of Some v \<Rightarrow> v | None \<Rightarrow>
                obj_get (defaults (cfg w)) k)))"
    by (simp add: cApi_lookup map_of_obj_delete split: option.splits)
qed

text \<open>On the concrete model with one spec: the pass is the loop over that spec and writes
  two files, one per API; the first shows the item's \<open>x\<close>, the second, whose item has no
  \<open>x\<close>, the model's. The four fall-backs: \<open>x\<close> is the item's, \<open>y\<close> the model's, \<open>z\<close> the spec
  defaults', \<open>u\<close> the global defaults'.\<close>

theorem perApi_context_precedence_witness:
  "perApi_pass ex_env False ''go'' ''out'' ''go'' ex_fan =
     for_of [ex_pa] (perApi_spec ex_env False ''go'' ''out'' ''go''
        (JObj (obj_delete (own_props ex_model) ''apiInfo''))) ex_fan \<and>
   length (written (snd (perApi_pass ex_env False ''go'' ''out'' ''go'' ex_fan))) = 2 \<and>
   written (snd (perApi_spec ex_env False ''go'' ''out'' ''go''
        (JObj (obj_delete (own_props ex_model) ''apiInfo'')) ex_pa ex_fan)) =
     [(''out/go/pets'', ''item''), (''out/go/users'', ''top'')] \<and>
   map (get_prop (cApi (defaults (cfg ex_fan)) ex_pa
          (JObj (obj_delete (own_props ex_model) ''apiInfo'')) ex_api1))
       [''x'', ''y'', ''z'', ''u'', ''apiInfo''] =
     [Inr (JStr ''item''), Inr (JStr ''top''), Inr (JStr ''spec''), Inr (JStr ''global''), Inr Undefined]"
proof -
  let ?top = "JObj (obj_delete (own_props ex_model) ''apiInfo'')"
  have m: "model ex_fan = JObj (own_props ex_model)"
    by (simp add: ex_fan_def ex_model_def)
  have s: "perApi (cfg ex_fan) = Some [ex_pa]"
    by (simp add: ex_fan_def ex_world_def)
  have c: "written ex_fan = []" "helpers ex_fan = []" "reg_partials ex_fan = []"
    "files ex_fan (tpl ex_env (templateDir (cfg ex_fan)) [''go'', fo_input ex_pa]) = Some ''$x''"
    "fo_output ex_pa = ''$name''"
    by (simp_all add: ex_fan_def ex_defs tpl_def)
  have a: "apiInfo_list ''apis'' ex_fan = (Inr [ex_api1, ex_api2], ex_fan)"
    by (simp add: apiInfo_list_def ex_fan_def ex_model_def run_simps obj_get_def)
  have r: "fst (perApi_spec ex_env False ''go'' ''out'' ''go'' ?top ex_pa ex_fan) = Inr ()"
  proof -
    have "fst (perApi_item ex_env False od sd pa fnT tmpl toplevel api w) = Inr ()"
      for od sd pa fnT tmpl toplevel api w
      by (simp add: perApi_item_def call_template_def ff_createFile_def run_simps ex_env_def
            ex_render_def Let_def split: list.splits)
    then show ?thesis
      by (simp add: perApi_spec_apply a c for_of_total del: for_of.simps)
  qed
  have q: "fst (perApi_pass ex_env False ''go'' ''out'' ''go'' ex_fan) = Inr ()"
    using r by (simp add: perApi_pass_apply [OF m s] for_of_single del: for_of.simps)
  have l: "get_prop (cApi (defaults (cfg ex_fan)) ex_pa ?top ex_api1) ''name'' = Inr (JStr ''pets'')"
     "get_prop (cApi (defaults (cfg ex_fan)) ex_pa ?top ex_api1) ''x'' = Inr (JStr ''item'')"
     "get_prop (cApi (defaults (cfg ex_fan)) ex_pa ?top ex_api2) ''name'' = Inr (JStr ''users'')"
     "get_prop (cApi (defaults (cfg ex_fan)) ex_pa ?top ex_api2) ''x'' = Inr (JStr ''top'')"
    by (simp_all add: cApi_lookup ex_api1_def ex_api2_def ex_model_def map_of_obj_delete)
  have p: "rendered_as ex_env [] [] ''out'' ''go'' ''$name'' ''$x''
             (cApi (defaults (cfg ex_fan)) ex_pa ?top ex_api1) pc \<longleftrightarrow> pc = (''out/go/pets'', ''item'')"
          "rendered_as ex_env [] [] ''out'' ''go'' ''$name'' ''$x''
             (cApi (defaults (cfg ex_fan)) ex_pa ?top ex_api2) pc \<longleftrightarrow> pc = (''out/go/users'', ''top'')" for pc
    by (cases pc; auto simp: rendered_as_def ex_env_def ex_render_def l)+
  note T = perApi_context_precedence [OF m, of "[ex_pa]" ex_env False "''go''" "''out''" "''go''" ex_pa ex_api1]
  have A: "perApi_pass ex_env False ''go'' ''out'' ''go'' ex_fan =
     for_of [ex_pa] (perApi_spec ex_env False ''go'' ''out'' ''go'' ?top) ex_fan"
    using T [of "''x''"] s by blast
  have "\<exists>src apis ws.
               files ex_fan (tpl ex_env (templateDir (cfg ex_fan)) [''go'', fo_input ex_pa]) = Some src \<and>
               apiInfo_list ''apis'' ex_fan = (Inr apis, ex_fan) \<and>
               written (snd (perApi_spec ex_env False ''go'' ''out'' ''go'' ?top ex_pa ex_fan)) = written ex_fan @ ws \<and>
               list_all2 (\<lambda>pc api. rendered_as ex_env (helpers ex_fan) (reg_partials ex_fan) ''out'' ''go'' (fo_output ex_pa) src
                            (cApi (defaults (cfg ex_fan)) ex_pa ?top api) pc) ws apis"
    using T [of "''x''"] r by blast
  then have B: "written (snd (perApi_spec ex_env False ''go'' ''out'' ''go'' ?top ex_pa ex_fan)) =
     [(''out/go/pets'', ''item''), (''out/go/users'', ''top'')]"
    unfolding c a by (auto simp: p list_all2_Cons2)
  have "\<exists>wss. written (snd (perApi_pass ex_env False ''go'' ''out'' ''go'' ex_fan)) = written ex_fan @ concat wss \<and>
                  list_all2 (\<lambda>ws pa. \<exists>src apis. apiInfo_list ''apis'' ex_fan = (Inr apis, ex_fan) \<and>
                      list_all2 (\<lambda>pc api. rendered_as ex_env (helpers ex_fan) (reg_partials ex_fan) ''out'' ''go'' (fo_output pa) src
                                   (cApi (defaults (cfg ex_fan)) pa ?top api) pc)
                        ws apis) wss [ex_pa]"
    using T [of "''x''"] s q by blast
  then have C: "length (written (snd (perApi_pass ex_env False ''go'' ''out'' ''go'' ex_fan))) = 2"
    unfolding c a by (auto simp: list_all2_Cons2)
  have d: "defaults (cfg ex_fan) = defaults ex_config"
    by (simp add: ex_fan_def ex_world_def)
  have D: "map (get_prop (cApi (defaults (cfg ex_fan)) ex_pa ?top ex_api1))
       [''x'', ''y'', ''z'', ''u'', ''apiInfo''] =
     [Inr (JStr ''item''), Inr (JStr ''top''), Inr (JStr ''spec''), Inr (JStr ''global''), Inr Undefined]"
    using T [of "''x''"] T [of "''y''"] T [of "''z''"] T [of "''u''"] T [of "''apiInfo''"]
    unfolding d
    by (simp add: ex_model_def ex_api1_def ex_api2_def ex_pa_def ex_config_def js_or_def obj_get_def)
  from A B C D show ?thesis by simp
qed




text \<open>
  C9, as the code has it. When the transform hands over an object, the model of the run has
  the property \<^verbatim>\<open>generator\<close> from line 41 on, whatever the run does afterwards; its value is
  the configuration's generator when that is truthy and \<^verbatim>\<open>undefined\<close> otherwise. (The lambdas
  of \<^verbatim>\<open>lambdas.js\<close> are attached after it, so a lambda named \<^verbatim>\<open>generator\<close> would replace
  it; the theorem is for lambdas without that name.)
\<close>

theorem generator_attached:
  assumes "adaptor_transform E (gen_of (cfg w)) o_raw
             (defaults (set_configName configName (cfg w))) = (err, JObj m)"
      and "''generator'' \<notin> fst ` set (lambdas E)"
  shows "\<exists>m'. model (snd (main E o_raw configName cb w)) = JObj m' \<and>
              map_of m' ''generator'' = Some (gen_of (cfg w))"
proof -
  let ?g = "gen_of (cfg w)"
  let ?w1 = "w\<lparr>cfg := set_configName configName (cfg w), model := JObj (obj_set m ''generator'' ?g)\<rparr>"
  let ?rest = "bind (seq (seq (if_do (verbose_of (cfg w)) (console_log (''Processing lambdas '' @ join_commas (map fst (lambdas E)))))
           (seq (for_of (map fst (lambdas E)) (\<lambda>key. assign_model key (obj_get (lambdas E) key)))
                (if verbose_of (cfg w)
                 then bind (lift (get_prop ?g ''lambdas'')) (\<lambda>ls.
                        console_log (''Processing custom lambda '' @ js_string E ls))
                 else ret ())))
        (seq (register_lambdas (verbose_of (cfg w)) ?g)
        (seq (register_partials E (verbose_of (cfg w)) configName)
             (load_actions E (verbose_of (cfg w)) configName))))
      (\<lambda>actions.
     bind (gets cfg) (\<lambda>config.
     let subDir = subDir_of config configName in
     seq (clean E (verbose_of (cfg w)) (outDir_of (cfg w)) subDir)
         (generate E (verbose_of (cfg w)) configName (outDir_of (cfg w)) subDir actions cb)))"
  have "main E o_raw configName cb w = ?rest ?w1"
    using assms(1)
    by (simp add: main_unfold on_transformed_def prelude_def decorate_def assign_model_def
          bind_apply seq_apply modify_apply gets_apply lift_apply)
  moreover have "has_generator ?g ?w1"
    by (simp add: has_generator_def map_of_obj_set)
  ultimately have "has_generator ?g (snd (main E o_raw configName cb w))"
    using stepsD [OF keeps_generator_rest [OF assms(2)], of ?g ?w1] by simp
  then show ?thesis by (simp add: has_generator_def)
qed

text \<open>The claim as stated fails: without a generator in the configuration the model's
  \<^verbatim>\<open>generator\<close> reads \<^verbatim>\<open>undefined\<close>, not a marker value.\<close>

theorem generator_marker_counterexample:
  "generator ex_config = Undefined \<and>
   fst (main ex_env ex_model ''go'' True (ex_world ex_config)) = Inr () \<and>
   get_prop (model (snd (main ex_env ex_model ''go'' True (ex_world ex_config)))) ''generator'' =
     Inr Undefined"
  by (simp add: run_defs ex_defs run_simps)

text \<open>With a generator in the configuration, the model carries that descriptor.\<close>

theorem generator_attached_witness:
  "\<exists>m'. model (snd (main ex_env ex_model ''go'' True (ex_world ex_gen))) = JObj m' \<and>
         map_of m' ''generator'' = Some (JObj [(''lambdas'', JObj [(''shout'', JFun ''shout'')])])"
proof -
  have 1: "adaptor_transform ex_env (gen_of (cfg (ex_world ex_gen))) ex_model
             (defaults (set_configName ''go'' (cfg (ex_world ex_gen)))) = (Null, JObj (own_props ex_model))"
    by (simp add: ex_env_def ex_model_def)
  have 2: "''generator'' \<notin> fst ` set (lambdas ex_env)"
    by (simp add: ex_env_def)
  show ?thesis
    using generator_attached [OF 1 2, of True]
    by (simp add: ex_world_def ex_gen_def ex_config_def gen_of_def)
qed

text \<open>
  C10. With \<^verbatim>\<open>defaults.verbose\<close> truthy and no generator in the configuration, a run whose
  transform hands over an object throws the TypeError of reading \<^verbatim>\<open>lambdas\<close> of
  \<^verbatim>\<open>undefined\<close> (line 45). At that point no helper and no partial has been registered,
  no directory made, no file written or removed, and the callback has not been called.
\<close>

theorem verbose_without_generator_throws:
  assumes "truthy (obj_get (defaults (cfg w)) ''verbose'')"
      and "\<not> truthy (generator (cfg w))"
      and "adaptor_transform E Undefined o_raw (defaults (set_configName configName (cfg w))) = (err, JObj m)"
  shows "fst (main E o_raw configName cb w) = Inl (TypeError ''Cannot read property lambdas of undefined'') \<and>
         helpers (snd (main E o_raw configName cb w)) = helpers w \<and>
         reg_partials (snd (main E o_raw configName cb w)) = reg_partials w \<and>
         dirs (snd (main E o_raw configName cb w)) = dirs w \<and>
         files (snd (main E o_raw configName cb w)) = files w \<and>
         written (snd (main E o_raw configName cb w)) = written w \<and>
         callbacks (snd (main E o_raw configName cb w)) = callbacks w"
proof -
  let ?w0 = "w\<lparr>cfg := set_configName configName (cfg w), model := JObj m\<rparr>"
  have g: "gen_of (cfg w) = Undefined" using assms(2) by (simp add: gen_of_def)
  have v: "verbose_of (cfg w)" using assms(1) by (simp add: verbose_of_def)
  have "model ?w0 = JObj m" by simp
  from decorate_verbose_undefined [OF this, of E] obtain w' where
    d: "decorate E True Undefined ?w0 = (Inl (TypeError ''Cannot read property lambdas of undefined''), w')"
    and f: "pre_frame ?w0 w'" "helpers w' = helpers ?w0" "reg_partials w' = reg_partials ?w0"
    by blast
  have "main E o_raw configName cb w = (Inl (TypeError ''Cannot read property lambdas of undefined''), w')"
    using assms(3) d
    by (simp add: main_unfold g v on_transformed_def prelude_def run_simps)
  with f show ?thesis by (simp add: pre_frame_def)
qed

text \<open>A verbose run without generator on the concrete model.\<close>

theorem verbose_without_generator_throws_witness:
  "fst (main ex_env ex_model ''go'' True (ex_world ex_verbose)) =
     Inl (TypeError ''Cannot read property lambdas of undefined'') \<and>
   reg_partials (snd (main ex_env ex_model ''go'' True (ex_world ex_verbose))) = [] \<and>
   files (snd (main ex_env ex_model ''go'' True (ex_world ex_verbose))) = ex_files \<and>
   written (snd (main ex_env ex_model ''go'' True (ex_world ex_verbose))) = [] \<and>
   callbacks (snd (main ex_env ex_model ''go'' True (ex_world ex_verbose))) = []"
proof -
  have 1: "truthy (obj_get (defaults (cfg (ex_world ex_verbose))) ''verbose'')"
    by (simp add: ex_world_def ex_verbose_def obj_get_def)
  have 2: "\<not> truthy (generator (cfg (ex_world ex_verbose)))"
    by (simp add: ex_world_def ex_verbose_def ex_config_def)
  have 3: "adaptor_transform ex_env Undefined ex_model
             (defaults (set_configName ''go'' (cfg (ex_world ex_verbose)))) = (Null, JObj (own_props ex_model))"
    by (simp add: ex_env_def ex_model_def)
  show ?thesis
    using verbose_without_generator_throws [OF 1 2 3, of True]
    by (simp add: ex_world_def)
qed

text \<open>
  C3, as the code has it. In every run the clean comes before every write. Either the run
  ended before the clean, and then it wrote nothing and the files are as they were; or the
  files at the end are the files at the start with everything the \<^verbatim>\<open>rimraf\<close> pattern
  \<^verbatim>\<open>outputDir/subDir/*\<close> hits removed, overridden by the writes of the run in order. So a file
  that the pattern hits and that the run does not write is absent at the end; a file that
  the pattern does not hit and that the run does not write is at the end what it was at
  the start, also when it lies in the subdirectory; and the subdirectory itself, which the
  pattern of its entries does not hit, is there.
\<close>

theorem clean_before_write:
  "(fst (main E o_raw n cb w) \<noteq> Inr () \<and>
      files (snd (main E o_raw n cb w)) = files w \<and>
      written (snd (main E o_raw n cb w)) = written w) \<or>
   (\<exists>ws. written (snd (main E o_raw n cb w)) = written w @ ws \<and>
      files (snd (main E o_raw n cb w)) =
        (\<lambda>p. if rimraf_hits E (clean_pattern E (cfg w) n) p then None else files w p) ++
        map_of (rev ws) \<and>
      (\<forall>p. rimraf_hits E (clean_pattern E (cfg w) n) p \<and> p \<notin> fst ` set ws \<longrightarrow>
           files (snd (main E o_raw n cb w)) p = None) \<and>
      (\<forall>p. \<not> rimraf_hits E (clean_pattern E (cfg w) n) p \<and> p \<notin> fst ` set ws \<longrightarrow>
           files (snd (main E o_raw n cb w)) p = files w p) \<and>
      (\<not> rimraf_hits E (clean_pattern E (cfg w) n)
           (path_join E [outDir_of (cfg w), subDir_of (cfg w) n]) \<longrightarrow>
         path_join E [outDir_of (cfg w), subDir_of (cfg w) n] \<in> dirs (snd (main E o_raw n cb w))))"
proof (cases "fst (after_prelude E o_raw n w)")
  case (Inl e)
  then show ?thesis
    using main_early [OF Inl, of cb] after_prelude_frames(1) [of w E o_raw n]
    by (simp add: pre_frame_def)
next
  case (Inr actions)
  let ?w2 = "after_clean E o_raw n w"
  let ?w3 = "snd (passes E (verbose_of (cfg w)) n (outDir_of (cfg w)) (subDir_of (cfg w) n) actions ?w2)"
  let ?w' = "snd (main E o_raw n cb w)"
  let ?D = "path_join E [outDir_of (cfg w), subDir_of (cfg w) n]"
  have g: "gen_frame ?w2 ?w3" and f: "files ?w' = files ?w3" "written ?w' = written ?w3" "dirs ?w' = dirs ?w3"
    using generate_frame [of ?w2 E "verbose_of (cfg w)" n "outDir_of (cfg w)" "subDir_of (cfg w) n" actions cb]
      main_late [OF Inr, of cb] by simp_all
  from g obtain ws where ws: "written ?w3 = written ?w2 @ ws" "files ?w3 = files ?w2 ++ map_of (rev ws)"
    by (auto simp: gen_frame_def extends_def)
  have d: "dirs ?w2 \<subseteq> dirs ?w3" using g by (simp add: gen_frame_def)
  have 1: "written ?w' = written w @ ws"
    using ws f by (simp add: after_clean_fields)
  have 2: "files ?w' = (\<lambda>p. if rimraf_hits E (clean_pattern E (cfg w) n) p then None else files w p) ++
        map_of (rev ws)"
    using ws f by (simp add: after_clean_fields)
  have 3: "files ?w' p = None" if "rimraf_hits E (clean_pattern E (cfg w) n) p \<and> p \<notin> fst ` set ws" for p
  proof -
    have "map_of (rev ws) p = None" using that by (simp add: map_of_eq_None_iff)
    then show ?thesis using that by (simp add: 2 map_add_def)
  qed
  have 4: "?D \<in> dirs ?w'" if "\<not> rimraf_hits E (clean_pattern E (cfg w) n) ?D"
    using that d f by (auto simp: after_clean_fields)
  have 5: "files ?w' p = files w p" if "\<not> rimraf_hits E (clean_pattern E (cfg w) n) p \<and> p \<notin> fst ` set ws" for p
  proof -
    have "map_of (rev ws) p = None" using that by (simp add: map_of_eq_None_iff)
    then show ?thesis using that by (simp add: 2 map_add_def)
  qed
  from 1 2 3 4 5 show ?thesis by blast
qed

text \<open>The claim as stated fails: \<^verbatim>\<open>*\<close> does not match a name that begins with a dot, so the
  stray file \<^verbatim>\<open>out/go/.hidden\<close>, which lies in the output subdirectory and which the run
  does not write, is still there after a completed run, while \<^verbatim>\<open>out/go/junk.txt\<close> is gone.\<close>

theorem stray_dot_file_counterexample:
  "fst (main ex_glob_env ex_model ''go'' True ex_hidden) = Inr () \<and>
   clean_pattern ex_glob_env (cfg ex_hidden) ''go'' = ''out/go/*'' \<and>
   files ex_hidden ''out/go/.hidden'' = Some ''keep'' \<and>
   written (snd (main ex_glob_env ex_model ''go'' True ex_hidden)) =
     [(''out/go/README.md'', ''Store''), (''out/go/LICENSE'', ''This is free and unencumbered software'')] \<and>
   files (snd (main ex_glob_env ex_model ''go'' True ex_hidden)) ''out/go/.hidden'' = Some ''keep'' \<and>
   files (snd (main ex_glob_env ex_model ''go'' True ex_hidden)) ''out/go/junk.txt'' = None"
  by (simp add: run_defs ex_defs ex_readme_def ex_glob_env_def ex_glob_hits_def ex_hidden_def
        clean_pattern_def run_simps)

text \<open>The stray file \<^verbatim>\<open>out/go/junk.txt\<close> of the concrete file system is gone after a run that
  writes the readme and the licence only, the template file outside the output directory
  is as it was, and \<^verbatim>\<open>out/go\<close> exists.\<close>

theorem clean_before_write_witness:
  "files (snd (main ex_env ex_model ''go'' True (ex_world ex_readme))) ''out/go/junk.txt'' = None \<and>
   files (ex_world ex_readme) ''out/go/junk.txt'' = Some ''stale'' \<and>
   files (snd (main ex_env ex_model ''go'' True (ex_world ex_readme))) ''/app/templates/go/readme.tpl'' =
     Some ''$title'' \<and>
   ''out/go'' \<in> dirs (snd (main ex_env ex_model ''go'' True (ex_world ex_readme)))"
proof -
  have 1: "fst (main ex_env ex_model ''go'' True (ex_world ex_readme)) = Inr ()"
    by (simp add: run_defs ex_defs ex_readme_def run_simps)
  have 2: "written (snd (main ex_env ex_model ''go'' True (ex_world ex_readme))) =
     [(''out/go/README.md'', ''Store''), (''out/go/LICENSE'', ''This is free and unencumbered software'')]"
    by (simp add: run_defs ex_defs ex_readme_def run_simps)
  have 3: "clean_pattern ex_env (cfg (ex_world ex_readme)) ''go'' = ''out/go/*''"
    by (simp add: clean_pattern_def run_defs ex_defs ex_readme_def)
  have 4: "path_join ex_env [outDir_of (cfg (ex_world ex_readme)), subDir_of (cfg (ex_world ex_readme)) ''go''] = ''out/go''"
    by (simp add: run_defs ex_defs ex_readme_def)
  have 5: "rimraf_hits ex_env ''out/go/*'' ''out/go/junk.txt''" "\<not> rimraf_hits ex_env ''out/go/*'' ''out/go''"
    "\<not> rimraf_hits ex_env ''out/go/*'' ''/app/templates/go/readme.tpl''"
    by (simp_all add: ex_env_def ex_hits_def)
  have 6: "written (ex_world ex_readme) = []" "files (ex_world ex_readme) ''out/go/junk.txt'' = Some ''stale''"
    "files (ex_world ex_readme) ''/app/templates/go/readme.tpl'' = Some ''$title''"
    by (simp_all add: ex_world_def ex_files_def)
  show ?thesis
    using clean_before_write [of ex_env ex_model "''go''" True "ex_world ex_readme"] 1 2 5 6
    unfolding 3 4
    by auto
qed

text \<open>
  C7, as the code has it. A run assigns to the configuration in two places and nowhere
  else: \<^verbatim>\<open>defaults.configName\<close> becomes the run name (line 35), and a transformation with
  an input gets its \<^verbatim>\<open>template\<close> set to the content of its template file (line 64). Every
  other field, and every other property of \<^verbatim>\<open>defaults\<close> and of the transformations, is at
  the end of the run (however it ends) what it was at the start. In a run that completes,
  every transformation with an input has been loaded so.
\<close>

theorem config_changes_by_run:
  "cfg (snd (main E o_raw n cb w)) =
     (cfg w)\<lparr>defaults := obj_set (defaults (cfg w)) ''configName'' (JStr n),
             transformations := transformations (cfg (snd (main E o_raw n cb w)))\<rparr> \<and>
   list_all2 (loaded E (files w) (templateDir (cfg w)) n)
     (transformations (cfg w)) (transformations (cfg (snd (main E o_raw n cb w)))) \<and>
   (fst (main E o_raw n cb w) = Inr () \<longrightarrow>
      transformations (cfg (snd (main E o_raw n cb w))) =
        map (load_tx E (files w) (templateDir (cfg w)) n) (transformations (cfg w)))"
proof -
  let ?w1 = "snd (after_prelude E o_raw n w)"
  have c: "cfg (snd (main E o_raw n cb w)) = cfg ?w1"
  proof (cases "fst (after_prelude E o_raw n w)")
    case (Inl e)
    then show ?thesis using main_early [OF Inl, of cb] by simp
  next
    case (Inr actions)
    let ?w2 = "after_clean E o_raw n w"
    have "gen_frame ?w2 (snd (passes E (verbose_of (cfg w)) n (outDir_of (cfg w)) (subDir_of (cfg w) n) actions ?w2))"
      and "cfg (snd (main E o_raw n cb w)) =
             cfg (snd (passes E (verbose_of (cfg w)) n (outDir_of (cfg w)) (subDir_of (cfg w) n) actions ?w2))"
      using generate_frame [of ?w2 E "verbose_of (cfg w)" n "outDir_of (cfg w)" "subDir_of (cfg w) n" actions cb]
        main_late [OF Inr, of cb] by simp_all
    then show ?thesis by (simp add: gen_frame_def after_clean_fields)
  qed
  have l: "list_all2 (loaded E (files w) (templateDir (cfg w)) n) (transformations (cfg w))
          (transformations (cfg ?w1))"
    using after_prelude_frames(2) [of E n w o_raw]
    by (simp add: load_frame_def started_def set_configName_def)
  have x: "transformations (cfg ?w1) =
             map (load_tx E (files w) (templateDir (cfg w)) n) (transformations (cfg w))"
    if h: "fst (main E o_raw n cb w) = Inr ()"
  proof -
    obtain actions where a: "fst (after_prelude E o_raw n w) = Inr actions"
      using h main_early [of E o_raw n w _ cb] by (cases "fst (after_prelude E o_raw n w)") auto
    from prelude_Inr [of E "verbose_of (cfg w)" n "gen_of (cfg w)" "snd (transformed E o_raw n w)"
        "started n w" actions] a
    show ?thesis by (simp add: after_prelude_def started_def set_configName_def)
  qed
  from c l x cfg_after_prelude [of E o_raw n w] show ?thesis by simp
qed

text \<open>The claim as stated fails: after the run \<^verbatim>\<open>defaults\<close> has the new key
  \<^verbatim>\<open>configName\<close> and the transformation has a \<^verbatim>\<open>template\<close>.\<close>

theorem config_mutated_counterexample:
  "defaults (cfg (ex_world ex_readme)) =
     [(''x'', JStr ''global''), (''y'', JStr ''global''), (''z'', JStr ''global''), (''u'', JStr ''global'')] \<and>
   defaults (cfg (snd (main ex_env ex_model ''go'' True (ex_world ex_readme)))) =
     [(''x'', JStr ''global''), (''y'', JStr ''global''), (''z'', JStr ''global''), (''u'', JStr ''global''),
      (''configName'', JStr ''go'')] \<and>
   map tx_template (transformations (cfg (ex_world ex_readme))) = [None] \<and>
   map tx_template (transformations (cfg (snd (main ex_env ex_model ''go'' True (ex_world ex_readme))))) =
     [Some ''$title'']"
  by (simp add: run_defs ex_defs ex_readme_def run_simps)

text \<open>On the same run the output directory is untouched and the transformation has its
  template.\<close>

theorem config_changes_by_run_witness:
  "outputDir (cfg (snd (main ex_env ex_model ''go'' True (ex_world ex_readme)))) = Some ''out'' \<and>
   transformations (cfg (snd (main ex_env ex_model ''go'' True (ex_world ex_readme)))) =
     [\<lparr>tx_input = Some ''readme.tpl'', tx_output = ''README.md'', tx_template = Some ''$title''\<rparr>]"
proof -
  have 1: "fst (main ex_env ex_model ''go'' True (ex_world ex_readme)) = Inr ()"
    by (simp add: run_defs ex_defs ex_readme_def run_simps)
  have "cfg (snd (main ex_env ex_model ''go'' True (ex_world ex_readme))) =
     (cfg (ex_world ex_readme))\<lparr>defaults := obj_set (defaults (cfg (ex_world ex_readme))) ''configName'' (JStr ''go''),
             transformations := transformations (cfg (snd (main ex_env ex_model ''go'' True (ex_world ex_readme))))\<rparr>"
    and l: "transformations (cfg (snd (main ex_env ex_model ''go'' True (ex_world ex_readme)))) =
        map (load_tx ex_env (files (ex_world ex_readme)) (templateDir (cfg (ex_world ex_readme))) ''go'')
          (transformations (cfg (ex_world ex_readme)))"
    using config_changes_by_run [of ex_env ex_model "''go''" True "ex_world ex_readme"] 1 by blast+
  then have "outputDir (cfg (snd (main ex_env ex_model ''go'' True (ex_world ex_readme)))) =
               outputDir (cfg (ex_world ex_readme))"
    by (metis (no_types, lifting) config.select_convs(1) config.surjective config.update_convs(3,7))
  with l show ?thesis
    by (simp add: ex_world_def ex_readme_def ex_config_def load_tx_def tpl_def ex_env_def ex_files_def)
qed

text \<open>
  C8, as the code has it. A completed run writes the licence at the path \<^verbatim>\<open>LICENSE\<close> of the
  output subdirectory: in the list of its writes that write comes after one write per
  transformation (\<open>pre\<close>) and before the writes of the fan-out passes (\<open>post\<close>). Its content
  is what the file system, cleaned and overridden by \<open>pre\<close>, holds at \<open>license_source\<close>:
  the built-in \<^verbatim>\<open>_common/LICENSE\<close> when \<^verbatim>\<open>apache\<close> is truthy, the built-in
  \<^verbatim>\<open>_common/UNLICENSE\<close> when it is false or absent, neither depending on \<^verbatim>\<open>templateDir\<close>.
  That is the content of \<^verbatim>\<open>LICENSE\<close> at the end unless a fan-out pass writes to the same
  path afterwards.
\<close>

theorem license_written:
  assumes "fst (main E o_raw n cb w) = Inr ()"
  shows "\<exists>pre c post.
           written (snd (main E o_raw n cb w)) =
             written w @ pre @ [(path_join E [outDir_of (cfg w), subDir_of (cfg w) n, ''LICENSE''], c)] @ post \<and>
           length pre = length (transformations (cfg w)) \<and>
           ((\<lambda>p. if rimraf_hits E (clean_pattern E (cfg w) n) p then None else files w p) ++
              map_of (rev pre)) (license_source E (cfg w)) = Some c \<and>
           (path_join E [outDir_of (cfg w), subDir_of (cfg w) n, ''LICENSE''] \<notin> fst ` set post \<longrightarrow>
              files (snd (main E o_raw n cb w))
                (path_join E [outDir_of (cfg w), subDir_of (cfg w) n, ''LICENSE'']) = Some c)"
proof -
  let ?v = "verbose_of (cfg w)" and ?od = "outDir_of (cfg w)" and ?sd = "subDir_of (cfg w) n"
  let ?lic = "path_join E [?od, ?sd, ''LICENSE'']"
  let ?w1 = "snd (after_prelude E o_raw n w)"
  let ?w2 = "after_clean E o_raw n w"
  obtain actions where a: "fst (after_prelude E o_raw n w) = Inr actions"
    using assms main_early [of E o_raw n w _ cb] by (cases "fst (after_prelude E o_raw n w)") auto
  let ?w3 = "snd (passes E ?v n ?od ?sd actions ?w2)"
  have m: "main E o_raw n cb w = generate E ?v n ?od ?sd actions cb ?w2"
    using main_late [OF a] .
  have p: "fst (passes E ?v n ?od ?sd actions ?w2) = Inr ()"
    using assms m by (auto simp: generate_apply split: sum.splits)
  have f: "files (snd (main E o_raw n cb w)) = files ?w3" "written (snd (main E o_raw n cb w)) = written ?w3"
    using generate_frame [of ?w2 E ?v n ?od ?sd actions cb] m by simp_all
  from passes_Inr [OF p] obtain wa wb wc where
    md: "make_directories E ?od ?sd ?w2 = (Inr (), wa)" and
    fa: "for_of actions (render_action E ?v ?od ?sd) wa = (Inr (), wb)" and
    lp: "license_pass E ?od ?sd wb = (Inr (), wc)" and
    fo: "fan_out E ?v n ?od ?sd wc = (Inr (), ?w3)"
    by blast
  have wa: "files wa = files ?w2" "written wa = written ?w2" "cfg wa = cfg ?w2"
    using stepsD [OF same_fs_make_directories, of ?w2 E ?od ?sd]
      stepsD [OF gen_frame_make_directories, of ?w2 E ?od ?sd] md
    by (simp_all add: same_fs_def gen_frame_def)
  have "fst (for_of actions (render_action E ?v ?od ?sd) wa) = Inr ()" using fa by simp
  from for_of_one_each [of "render_action E ?v ?od ?sd", OF render_action_one this]
  obtain pre where pre: "length pre = length actions" "written wb = written wa @ pre"
    "files wb = files wa ++ map_of (rev pre)"
    using fa by auto
  have cb': "cfg wb = cfg wa"
    using stepsD [OF gen_frame_actions, of wa actions E ?v ?od ?sd] fa by (simp add: gen_frame_def)
  have ap: "apache (cfg wb) = apache (cfg w)"
    unfolding cb' wa(3) after_clean_fields(4) by (subst cfg_after_prelude) simp
  then have ls: "license_source E (cfg wb) = license_source E (cfg w)"
    by (simp add: license_source_def)
  obtain c where c: "files wb (license_source E (cfg w)) = Some c"
    and wc: "wc = wb\<lparr>files := (files wb)(?lic \<mapsto> c), written := written wb @ [(?lic, c)]\<rparr>"
    using lp unfolding license_pass_apply ls
    by (cases "files wb (license_source E (cfg w))") auto
  have "gen_frame wc ?w3"
    using stepsD [OF gen_frame_fan_out, of wc E ?v n ?od ?sd] fo by simp
  then obtain post where post: "written ?w3 = written wc @ post" "files ?w3 = files wc ++ map_of (rev post)"
    by (auto simp: gen_frame_def extends_def)
  have la: "length actions = length (transformations (cfg w))"
  proof -
    have "actions = transformations (cfg ?w1)"
      using prelude_actions [of E ?v n "gen_of (cfg w)" "snd (transformed E o_raw n w)" "started n w" actions] a
      by (simp add: after_prelude_def)
    moreover have "list_all2 (loaded E (files (started n w)) (templateDir (cfg (started n w))) n)
                     (transformations (cfg (started n w))) (transformations (cfg ?w1))"
      using after_prelude_frames(2) [of E n w o_raw] by (simp add: load_frame_def)
    ultimately show ?thesis
      using list_all2_lengthD by (fastforce simp: started_def set_configName_def)
  qed
  have 1: "written (snd (main E o_raw n cb w)) = written w @ pre @ [(?lic, c)] @ post"
    using f post wc pre wa by (simp add: after_clean_fields)
  have 2: "length pre = length (transformations (cfg w))" using pre la by simp
  have 3: "((\<lambda>p. if rimraf_hits E (clean_pattern E (cfg w) n) p then None else files w p) ++
              map_of (rev pre)) (license_source E (cfg w)) = Some c"
    using c pre wa by (simp add: after_clean_fields)
  have 4: "files (snd (main E o_raw n cb w)) ?lic = Some c" if "?lic \<notin> fst ` set post"
  proof -
    have "map_of (rev post) ?lic = None" using that by (simp add: map_of_eq_None_iff)
    then show ?thesis using f post wc by (simp add: map_add_def)
  qed
  show ?thesis
    apply (rule exI [of _ pre], rule exI [of _ c], rule exI [of _ post])
    using 1 2 3 4 apply simp
    done
qed

text \<open>The claim as stated fails: a perModel spec whose output name is \<^verbatim>\<open>LICENSE\<close> writes to
  the same path after the licence step, so the completed run has written that path twice
  and \<^verbatim>\<open>LICENSE\<close> holds the rendered model file at the end, not the built-in text.\<close>

theorem license_overwritten_counterexample:
  "fst (main ex_env ex_model ''go'' True (ex_world ex_clash)) = Inr () \<and>
   files (ex_world ex_clash) (license_source ex_env (cfg (ex_world ex_clash))) =
     Some ''This is free and unencumbered software'' \<and>
   written (snd (main ex_env ex_model ''go'' True (ex_world ex_clash))) =
     [(''out/go/LICENSE'', ''This is free and unencumbered software''), (''out/go/LICENSE'', ''own'')] \<and>
   files (snd (main ex_env ex_model ''go'' True (ex_world ex_clash))) ''out/go/LICENSE'' = Some ''own''"
  by (simp add: run_defs ex_defs ex_clash_def license_source_def run_simps fan_defs)

text \<open>With \<^verbatim>\<open>apache\<close> true and a \<^verbatim>\<open>templateDir\<close> override, the licence of the concrete run is
  the built-in Apache text.\<close>

theorem license_written_witness:
  "files (snd (main ex_env ex_model ''go'' True (ex_world ex_apache))) ''out/go/LICENSE'' =
     Some ''Apache License'' \<and>
   license_source ex_env (cfg (ex_world ex_apache)) = ''/app/templates/_common/LICENSE''"
proof -
  have 1: "fst (main ex_env ex_model ''go'' True (ex_world ex_apache)) = Inr ()"
    by (simp add: run_defs ex_defs ex_apache_def run_simps)
  have 2: "written (snd (main ex_env ex_model ''go'' True (ex_world ex_apache))) =
     [(''out/go/LICENSE'', ''Apache License'')]"
    by (simp add: run_defs ex_defs ex_apache_def run_simps)
  have 3: "path_join ex_env [outDir_of (cfg (ex_world ex_apache)), subDir_of (cfg (ex_world ex_apache)) ''go'', ''LICENSE''] = ''out/go/LICENSE''"
    by (simp add: run_defs ex_defs ex_apache_def)
  have 4: "written (ex_world ex_apache) = []" "transformations (cfg (ex_world ex_apache)) = []"
    by (simp_all add: ex_world_def ex_apache_def ex_config_def)
  have 5: "license_source ex_env (cfg (ex_world ex_apache)) = ''/app/templates/_common/LICENSE''"
    by (simp add: license_source_def ex_defs ex_apache_def)
  show ?thesis
    using license_written [OF 1] 5
    unfolding 2 3 4
    by (auto simp: Cons_eq_append_conv)
qed

text \<open>
  C4 on a concrete run. With a touch template configured, line 89 reads the member
  \<^verbatim>\<open>render\<close> of the function that \<^verbatim>\<open>Handlebars.compile\<close> returned, which is \<^verbatim>\<open>undefined\<close>,
  and calls it: the run ends there with a TypeError. The file named by the touch list is
  not created, nothing else is written and the callback is not called.
\<close>

theorem touch_configured_throws:
  "fst (main ex_env ex_model ''go'' True (ex_world ex_touch)) =
     Inl (TypeError ''value is not a function'') \<and>
   files (snd (main ex_env ex_model ''go'' True (ex_world ex_touch))) ''out/go/a.txt'' = None \<and>
   written (snd (main ex_env ex_model ''go'' True (ex_world ex_touch))) = [] \<and>
   callbacks (snd (main ex_env ex_model ''go'' True (ex_world ex_touch))) = []"
  by (simp add: run_defs ex_defs ex_touch_def run_simps)

text \<open>
  C5, as the code has it. With the model an object: the perModel pass walks, for every
  spec, the items that \<^verbatim>\<open>models\<close> held when the pass began; a spec that completes writes one
  file per item, in order, each rendered (output path and body, the body template being
  the spec's template file) against the model with \<^verbatim>\<open>models\<close> replaced by the list of the
  effective item alone; and in the effective item of line 147 a field of the spec's
  defaults wins over the item's own field of the same name, the item's field showing only
  where the defaults have none.
\<close>

theorem perModel_defaults_override:
  assumes "model w = JObj m"
  shows "(perModel (cfg w) = Some specs \<longrightarrow>
            perModel_pass E v n od sd w =
              for_of specs (perModel_spec E v n od sd (obj_get m ''models'')) w) \<and>
         (fst (perModel_spec E v n od sd cModels pm w) = Inr () \<longrightarrow>
            (\<exists>src items ws.
               files w (tpl E (templateDir (cfg w)) [n, fo_input pm]) = Some src \<and>
               iter cModels = Inr items \<and>
               written (snd (perModel_spec E v n od sd cModels pm w)) = written w @ ws \<and>
               list_all2 (\<lambda>pc item. rendered_as E (helpers w) (reg_partials w) od sd (fo_output pm) src
                            (JObj (obj_set m ''models'' (JArr [effModel item pm]))) pc) ws items)) \<and>
         get_prop (effModel item pm) k =
           Inr (case map_of (own_props (js_or (fo_defaults pm) (JObj []))) k of
                  Some v \<Rightarrow> v
                | None \<Rightarrow> obj_get (own_props item) k)"
proof (intro conjI impI)
  assume "perModel (cfg w) = Some specs"
  then show "perModel_pass E v n od sd w =
               for_of specs (perModel_spec E v n od sd (obj_get m ''models'')) w"
    using perModel_pass_apply [OF assms] by blast
next
  assume c: "fst (perModel_spec E v n od sd cModels pm w) = Inr ()"
  then obtain src where src: "files w (tpl E (templateDir (cfg w)) [n, fo_input pm]) = Some src"
    by (cases "files w (tpl E (templateDir (cfg w)) [n, fo_input pm])") (auto simp: perModel_spec_apply)
  from c src obtain items where items: "iter cModels = Inr items"
    by (cases "iter cModels") (auto simp: perModel_spec_apply)
  let ?f = "perModel_item E v od sd pm (fo_output pm) src"
  have e: "perModel_spec E v n od sd cModels pm w = for_of items ?f w"
    using src items by (simp add: perModel_spec_apply)
  with c have "fst (for_of items ?f w) = Inr ()" by simp
  from for_of_fanned [of ?f "''models''" "\<lambda>item. JArr [effModel item pm]" E od sd "fo_output pm" src w m m items,
      OF perModel_item_step assms same_but_refl this]
  obtain ws where ws: "pass_result ''models'' m w (snd (for_of items ?f w)) ws"
    "list_all2 (\<lambda>pc item. rendered_as E (helpers w) (reg_partials w) od sd (fo_output pm) src
                            (JObj (obj_set m ''models'' (JArr [effModel item pm]))) pc) ws items"
    by blast
  have "written (snd (perModel_spec E v n od sd cModels pm w)) = written w @ ws"
    using ws(1) e by (simp add: pass_result_def)
  with src items ws(2)
  show "\<exists>src items ws.
               files w (tpl E (templateDir (cfg w)) [n, fo_input pm]) = Some src \<and>
               iter cModels = Inr items \<and>
               written (snd (perModel_spec E v n od sd cModels pm w)) = written w @ ws \<and>
               list_all2 (\<lambda>pc item. rendered_as E (helpers w) (reg_partials w) od sd (fo_output pm) src
                            (JObj (obj_set m ''models'' (JArr [effModel item pm]))) pc) ws items"
    by blast
next
  show "get_prop (effModel item pm) k =
           Inr (case map_of (own_props (js_or (fo_defaults pm) (JObj []))) k of
                  Some v \<Rightarrow> v
                | None \<Rightarrow> obj_get (own_props item) k)"
    by (rule effModel_lookup)
qed

text \<open>The claim as stated fails: the item's own \<^verbatim>\<open>kind\<close> is \<^verbatim>\<open>own\<close>, the effective item's is
  the spec default \<^verbatim>\<open>spec\<close>, and that is what the file of the pass shows.\<close>

theorem perModel_item_priority_counterexample:
  "get_prop (JObj [(''name'', JStr ''Pet''), (''kind'', JStr ''own'')]) ''kind'' = Inr (JStr ''own'') \<and>
   get_prop (effModel (JObj [(''name'', JStr ''Pet''), (''kind'', JStr ''own'')]) ex_pm) ''kind'' =
     Inr (JStr ''spec'') \<and>
   written (snd (perModel_pass ex_env False ''go'' ''out'' ''go'' ex_ready)) =
     [(''out/go/Pet'', ''spec'')]"
  by (simp add: run_defs ex_defs ex_pm_def ex_ready_def run_simps fan_defs)

text \<open>On the concrete model the pass is the loop over the one item, and the spec writes
  the one file.\<close>

theorem perModel_defaults_override_witness:
  "perModel_pass ex_env False ''go'' ''out'' ''go'' ex_ready =
     for_of [ex_pm] (perModel_spec ex_env False ''go'' ''out'' ''go''
        (JArr [JObj [(''name'', JStr ''Pet''), (''kind'', JStr ''own'')]])) ex_ready \<and>
   written (snd (perModel_spec ex_env False ''go'' ''out'' ''go''
        (JArr [JObj [(''name'', JStr ''Pet''), (''kind'', JStr ''own'')]]) ex_pm ex_ready)) =
     [(''out/go/Pet'', ''spec'')]"
proof -
  let ?item = "JObj [(''name'', JStr ''Pet''), (''kind'', JStr ''own'')]"
  have 1: "model ex_ready = JObj (own_props ex_model)"
    by (simp add: ex_ready_def ex_model_def)
  have 2: "perModel (cfg ex_ready) = Some [ex_pm]" "obj_get (own_props ex_model) ''models'' = JArr [?item]"
    by (simp_all add: ex_ready_def ex_world_def ex_model_def obj_get_def)
  have 3: "fst (perModel_spec ex_env False ''go'' ''out'' ''go'' (JArr [?item]) ex_pm ex_ready) = Inr ()"
    by (simp add: run_defs ex_defs ex_pm_def ex_ready_def run_simps fan_defs)
  have 4: "written ex_ready = []" "helpers ex_ready = []" "reg_partials ex_ready = []"
    "files ex_ready (tpl ex_env (templateDir (cfg ex_ready)) [''go'', fo_input ex_pm]) = Some ''$models.0.kind''"
    by (simp_all add: ex_ready_def ex_defs ex_pm_def tpl_def)
  have 5: "rendered_as ex_env [] [] ''out'' ''go'' (fo_output ex_pm) ''$models.0.kind''
             (JObj (obj_set (own_props ex_model) ''models'' (JArr [effModel ?item ex_pm]))) pc \<longleftrightarrow>
           pc = (''out/go/Pet'', ''spec'')" for pc
    by (cases pc) (auto simp: rendered_as_def ex_defs ex_pm_def fan_defs obj_get_def)
  show ?thesis
    using perModel_defaults_override [OF 1, of "[ex_pm]" ex_env False "''go''" "''out''" "''go''" "JArr [?item]" ex_pm] 2 3
    unfolding 4
    by (auto simp: 5 list_all2_Cons2)
qed

text \<open>
  C6. With the model an object, the perOperation pass is the loop over the specs of
  \<^verbatim>\<open>config.perOperation\<close>. A pass that completes has written, for every spec in order, one
  file per operation of each API of \<^verbatim>\<open>apiInfo.apis\<close>, in order: for each spec the number of
  writes is the sum over the APIs of their numbers of operations, and each write is
  rendered against the model with \<^verbatim>\<open>operations\<close> set to the list of the current operation
  alone. For one spec that completes, besides: the path comes from the spec's output
  template and the body from a template read from the spec's template file (the content
  that file had at the start, unless the pass itself wrote to it), and the number of files
  is that sum when the paths are distinct.
\<close>

theorem perOperation_one_file_per_operation:
  assumes "model w = JObj m"
  shows "(perOperation (cfg w) = Some specs \<longrightarrow>
            perOperation_pass E v n od sd w = for_of specs (perOperation_spec E v n od sd) w \<and>
            (fst (perOperation_pass E v n od sd w) = Inr () \<longrightarrow>
               (\<exists>wss. written (snd (perOperation_pass E v n od sd w)) = written w @ concat wss \<and>
                  list_all2 (\<lambda>ws po. \<exists>apis. apiInfo_list ''apis'' w = (Inr apis, w) \<and>
                      length ws = sum_list (map (\<lambda>api. length (operations_of api)) apis) \<and>
                      list_all2 (\<lambda>pc operation. \<exists>src. operation_file E w od sd po m src pc operation)
                        ws (concat (map operations_of apis))) wss specs))) \<and>
         (fst (perOperation_spec E v n od sd po w) = Inr () \<longrightarrow>
            (\<exists>apis ws.
               apiInfo_list ''apis'' w = (Inr apis, w) \<and>
               written (snd (perOperation_spec E v n od sd po w)) = written w @ ws \<and>
               length ws = sum_list (map (\<lambda>api. length (operations_of api)) apis) \<and>
               list_all2 (\<lambda>pc operation. \<exists>src. operation_file E w od sd po m src pc operation)
                 ws (concat (map operations_of apis)) \<and>
               (\<forall>src0. files w (tpl E (templateDir (cfg w)) [n, fo_input po]) = Some src0 \<and>
                       tpl E (templateDir (cfg w)) [n, fo_input po] \<notin> fst ` set ws \<longrightarrow>
                  list_all2 (operation_file E w od sd po m src0) ws (concat (map operations_of apis))) \<and>
               (distinct (map fst ws) \<longrightarrow>
                  card (fst ` set ws) = sum_list (map (\<lambda>api. length (operations_of api)) apis))))"
proof (intro conjI impI)
  assume s: "perOperation (cfg w) = Some specs"
  show e: "perOperation_pass E v n od sd w = for_of specs (perOperation_spec E v n od sd) w"
    using perOperation_pass_apply [OF s] .
  assume "fst (perOperation_pass E v n od sd w) = Inr ()"
  then have "fst (for_of specs (perOperation_spec E v n od sd) w) = Inr ()"
    using e by simp
  from for_of_perOperation_specs [OF assms same_but_refl this] obtain wss where
    wss: "pass_result ''operations'' m w (snd (for_of specs (perOperation_spec E v n od sd) w)) (concat wss)"
      "list_all2 (\<lambda>ws po. \<exists>apis. apiInfo_list ''apis'' w = (Inr apis, w) \<and>
               list_all2 (\<lambda>pc operation. \<exists>src. operation_file E w od sd po m src pc operation)
                 ws (concat (map operations_of apis))) wss specs"
    by blast
  have "list_all2 (\<lambda>ws po. \<exists>apis. apiInfo_list ''apis'' w = (Inr apis, w) \<and>
                      length ws = sum_list (map (\<lambda>api. length (operations_of api)) apis) \<and>
                      list_all2 (\<lambda>pc operation. \<exists>src. operation_file E w od sd po m src pc operation)
                        ws (concat (map operations_of apis))) wss specs"
    using wss(2)
  proof (rule list_all2_mono)
    fix ws po
    assume "\<exists>apis. apiInfo_list ''apis'' w = (Inr apis, w) \<and>
               list_all2 (\<lambda>pc operation. \<exists>src. operation_file E w od sd po m src pc operation)
                 ws (concat (map operations_of apis))"
    then obtain apis where a: "apiInfo_list ''apis'' w = (Inr apis, w)"
      "list_all2 (\<lambda>pc operation. \<exists>src. operation_file E w od sd po m src pc operation)
                 ws (concat (map operations_of apis))"
      by blast
    have "length ws = sum_list (map (\<lambda>api. length (operations_of api)) apis)"
      using list_all2_lengthD [OF a(2)] by (simp add: length_concat comp_def)
    with a show "\<exists>apis. apiInfo_list ''apis'' w = (Inr apis, w) \<and>
                      length ws = sum_list (map (\<lambda>api. length (operations_of api)) apis) \<and>
                      list_all2 (\<lambda>pc operation. \<exists>src. operation_file E w od sd po m src pc operation)
                        ws (concat (map operations_of apis))"
      by blast
  qed
  moreover have "written (snd (perOperation_pass E v n od sd w)) = written w @ concat wss"
    using wss(1) e by (simp add: pass_result_def)
  ultimately show "\<exists>wss. written (snd (perOperation_pass E v n od sd w)) = written w @ concat wss \<and>
                  list_all2 (\<lambda>ws po. \<exists>apis. apiInfo_list ''apis'' w = (Inr apis, w) \<and>
                      length ws = sum_list (map (\<lambda>api. length (operations_of api)) apis) \<and>
                      list_all2 (\<lambda>pc operation. \<exists>src. operation_file E w od sd po m src pc operation)
                        ws (concat (map operations_of apis))) wss specs"
    by blast
next
  assume c: "fst (perOperation_spec E v n od sd po w) = Inr ()"
  from perOperation_spec_result [OF assms same_but_refl c] obtain apis ws where
    apis: "apiInfo_list ''apis'' w = (Inr apis, w)" and
    ws: "pass_result ''operations'' m w (snd (perOperation_spec E v n od sd po w)) ws"
      "list_all2 (\<lambda>pc operation. \<exists>src. operation_file E w od sd po m src pc operation)
            ws (concat (map operations_of apis))"
      "\<forall>src0. files w (tpl E (templateDir (cfg w)) [n, fo_input po]) = Some src0 \<and>
                  tpl E (templateDir (cfg w)) [n, fo_input po] \<notin> fst ` set ws \<longrightarrow>
             list_all2 (operation_file E w od sd po m src0) ws (concat (map operations_of apis))"
    by blast
  have l: "length ws = sum_list (map (\<lambda>api. length (operations_of api)) apis)"
    using list_all2_lengthD [OF ws(2)] by (simp add: length_concat comp_def)
  have d: "card (fst ` set ws) = sum_list (map (\<lambda>api. length (operations_of api)) apis)"
    if "distinct (map fst ws)"
    using distinct_card [OF that] l by simp
  have w: "written (snd (perOperation_spec E v n od sd po w)) = written w @ ws"
    using ws(1) by (simp add: pass_result_def)
  show "\<exists>apis ws.
               apiInfo_list ''apis'' w = (Inr apis, w) \<and>
               written (snd (perOperation_spec E v n od sd po w)) = written w @ ws \<and>
               length ws = sum_list (map (\<lambda>api. length (operations_of api)) apis) \<and>
               list_all2 (\<lambda>pc operation. \<exists>src. operation_file E w od sd po m src pc operation)
                 ws (concat (map operations_of apis)) \<and>
               (\<forall>src0. files w (tpl E (templateDir (cfg w)) [n, fo_input po]) = Some src0 \<and>
                       tpl E (templateDir (cfg w)) [n, fo_input po] \<notin> fst ` set ws \<longrightarrow>
                  list_all2 (operation_file E w od sd po m src0) ws (concat (map operations_of apis))) \<and>
               (distinct (map fst ws) \<longrightarrow>
                  card (fst ` set ws) = sum_list (map (\<lambda>api. length (operations_of api)) apis))"
    apply (rule exI [of _ apis], rule exI [of _ ws])
    using apis w l ws(2,3) d apply simp
    done
qed

text \<open>One spec, two APIs with two and one operations: the pass is the loop over that spec,
  and it writes three files.\<close>

theorem perOperation_one_file_per_operation_witness:
  "perOperation_pass ex_env False ''go'' ''out'' ''go'' ex_ready =
     for_of [ex_po] (perOperation_spec ex_env False ''go'' ''out'' ''go'') ex_ready \<and>
   length (written (snd (perOperation_pass ex_env False ''go'' ''out'' ''go'' ex_ready))) = 3 \<and>
   length (written (snd (perOperation_spec ex_env False ''go'' ''out'' ''go'' ex_po ex_ready))) = 3 \<and>
   concat (map operations_of [ex_api1, ex_api2]) =
     [JObj [(''id'', JStr ''listPets'')], JObj [(''id'', JStr ''getPet'')], JObj [(''id'', JStr ''getUser'')]]"
proof -
  have 1: "model ex_ready = JObj (own_props ex_model)"
    by (simp add: ex_ready_def ex_model_def)
  have 2: "fst (perOperation_spec ex_env False ''go'' ''out'' ''go'' ex_po ex_ready) = Inr ()"
    by (simp add: run_defs ex_defs ex_po_def ex_ready_def run_simps fan_defs clone_id)
  have 3: "apiInfo_list ''apis'' ex_ready = (Inr [ex_api1, ex_api2], ex_ready)"
    by (simp add: apiInfo_list_def ex_ready_def ex_model_def run_simps obj_get_def)
  have 4: "operations_of ex_api1 = [JObj [(''id'', JStr ''listPets'')], JObj [(''id'', JStr ''getPet'')]]"
    "operations_of ex_api2 = [JObj [(''id'', JStr ''getUser'')]]"
    by (simp_all add: operations_of_def ex_api1_def ex_api2_def obj_get_def clone_id)
  have 5: "written ex_ready = []"
    by (simp add: ex_ready_def ex_world_def)
  have 6: "perOperation (cfg ex_ready) = Some [ex_po]"
    by (simp add: ex_ready_def ex_world_def)
  have 7: "fst (perOperation_pass ex_env False ''go'' ''out'' ''go'' ex_ready) = Inr ()"
    using 2 by (simp add: perOperation_pass_apply [OF 6] for_of_single del: for_of.simps)
  show ?thesis
    using perOperation_one_file_per_operation [OF 1, of "[ex_po]" ex_env False "''go''" "''out''" "''go''" ex_po] 2 3 4 5 6 7
    by (auto simp: list_all2_Cons2)
qed

end
